(* ===== verification/Ck_Prelude.thy ===== *)
theory Ck_Prelude
  imports Main "HOL-Library.Char_ord" "HOL-Library.List_Lexorder"
begin

text \<open>
  Shared vocabulary of the development: the outcome of a call into code the library does not own
  (an interface method or callback may return or panic), the \<open>defer\<close>/\<open>recover\<close> idiom, sums for
  fallible constructors, the ordered merge of keyed entries that three packages implement with a
  position map, and the generic list facts the component theories share.
\<close>

named_theorems accessors \<open>the getters of clients, which may be nil or zero\<close>

section \<open>Calls that may panic\<close>

text \<open>
  A method of a caller-supplied interface either returns a value or panics. The source contains
  panics with a deferred \<open>recover\<close>; \<open>recovered d c\<close> is the value such a function returns, \<open>d\<close>
  being what the deferred handler stores in the named results.
\<close>

datatype 'a call = Returned 'a | Panicked

definition recovered :: "'a \<Rightarrow> 'a call \<Rightarrow> 'a" where
  "recovered d c = (case c of Returned x \<Rightarrow> x | Panicked \<Rightarrow> d)"

lemma recovered_simps [simp]:
  "recovered d (Returned x) = x"
  "recovered d Panicked = d"
  by (simp_all add: recovered_def)

lemma call_not_Panicked: "c \<noteq> Panicked \<longleftrightarrow> (\<exists>x. c = Returned x)"
  by (cases c) auto

section \<open>Nil\<close>

text \<open>Comparison with nil; unlike equality it needs no equality on what the pointer refers to.\<close>

definition is_nil :: "'a option \<Rightarrow> bool" where
  "is_nil x = (case x of None \<Rightarrow> True | Some _ \<Rightarrow> False)"

lemma is_nil_iff [simp]: "is_nil x \<longleftrightarrow> x = None"
  by (simp add: is_nil_def split: option.split)

section \<open>Fallible results\<close>

text \<open>A Go pair \<open>(value, error)\<close> whose value is only used when the error is nil.\<close>

type_synonym ('e, 'a) result = "'e + 'a"

definition bind_result :: "('e, 'a) result \<Rightarrow> ('a \<Rightarrow> ('e, 'b) result) \<Rightarrow> ('e, 'b) result" where
  "bind_result r f = (case r of Inl e \<Rightarrow> Inl e | Inr x \<Rightarrow> f x)"

definition map_error :: "('e \<Rightarrow> 'f) \<Rightarrow> ('e, 'a) result \<Rightarrow> ('f, 'a) result" where
  "map_error g r = (case r of Inl e \<Rightarrow> Inl (g e) | Inr x \<Rightarrow> Inr x)"

text \<open>A check that returns an error or nil, used as a guard.\<close>

definition guard_error :: "('e \<Rightarrow> 'f) \<Rightarrow> 'e option \<Rightarrow> ('f, 'a) result \<Rightarrow> ('f, 'a) result" where
  "guard_error g c k = (case c of Some e \<Rightarrow> Inl (g e) | None \<Rightarrow> k)"

lemma bind_result_simps [simp]:
  "bind_result (Inl e) f = Inl e"
  "bind_result (Inr x) f = f x"
  by (simp_all add: bind_result_def)

lemma map_error_simps [simp]:
  "map_error g (Inl e) = Inl (g e)"
  "map_error g (Inr x) = Inr x"
  by (simp_all add: map_error_def)

lemma guard_error_simps [simp]:
  "guard_error g None k = k"
  "guard_error g (Some e) k = Inl (g e)"
  by (simp_all add: guard_error_def)

lemma bind_result_Inr: "bind_result r f = Inr y \<longleftrightarrow> (\<exists>x. r = Inr x \<and> f x = Inr y)"
  by (cases r) auto

lemma map_error_Inr [simp]: "map_error g r = Inr y \<longleftrightarrow> r = Inr y"
  by (cases r) auto

lemma guard_error_Inr: "guard_error g c k = Inr y \<longleftrightarrow> c = None \<and> k = Inr y"
  by (cases c) auto

section \<open>Ordered merge by key\<close>

text \<open>
  The reference for the attribute merges: a later entry replaces the value of an earlier entry with
  the same key in place, and an entry with a new key goes to the end.
\<close>

fun put_by :: "('a \<Rightarrow> 'k) \<Rightarrow> 'a \<Rightarrow> 'a list \<Rightarrow> 'a list" where
  "put_by key x [] = [x]"
| "put_by key x (y # ys) = (if key y = key x then x # ys else y # put_by key x ys)"

lemma map_key_put_by:
  "map key (put_by key x ys) =
     (if key x \<in> set (map key ys) then map key ys else map key ys @ [key x])"
  by (induction ys) auto

lemma set_put_by_subset: "set (put_by key x ys) \<subseteq> insert x (set ys)"
  by (induction ys) auto

lemma distinct_put_by: "distinct (map key ys) \<Longrightarrow> distinct (map key (put_by key x ys))"
  by (auto simp: map_key_put_by)

lemma find_put_by:
  "find (\<lambda>y. key y = k) (put_by key x ys) =
     (if key x = k then Some x else find (\<lambda>y. key y = k) ys)"
  by (induction ys) auto

text \<open>The position of a key in a list of entries, as the source's \<open>positions\<close> map records it.\<close>

fun position_of :: "('a \<Rightarrow> 'k) \<Rightarrow> 'k \<Rightarrow> 'a list \<Rightarrow> nat option" where
  "position_of key k [] = None"
| "position_of key k (y # ys) =
     (if key y = k then Some 0 else map_option Suc (position_of key k ys))"

lemma position_of_None: "position_of key k ys = None \<longleftrightarrow> k \<notin> set (map key ys)"
  by (induction ys) auto

lemma put_by_absent: "position_of key (key x) ys = None \<Longrightarrow> put_by key x ys = ys @ [x]"
  by (induction ys) (auto split: if_splits)

lemma put_by_present: "position_of key (key x) ys = Some i \<Longrightarrow> put_by key x ys = ys[i := x]"
  by (induction ys arbitrary: i) (auto split: if_splits)

lemma position_of_less: "position_of key k ys = Some i \<Longrightarrow> i < length ys \<and> key (ys ! i) = k"
  by (induction ys arbitrary: i) (auto split: if_splits)

lemma position_of_append:
  "position_of key k (ys @ [x]) =
     (case position_of key k ys of Some i \<Rightarrow> Some i
      | None \<Rightarrow> if key x = k then Some (length ys) else None)"
  by (induction ys) (auto split: option.splits)

lemma position_of_update:
  "position_of key (key x) ys = Some i \<Longrightarrow> position_of key k (ys[i := x]) = position_of key k ys"
  by (induction ys arbitrary: i) (auto split: if_splits simp: nth_Cons')

section \<open>Lists\<close>

lemma butlast_take_rev: "xs \<noteq> [] \<Longrightarrow> butlast xs = take (length xs - 1) xs"
  by (simp add: butlast_conv_take)

lemma sorted_distinct_fst_unique:
  "sorted (map f xs) \<Longrightarrow> sorted (map f ys) \<Longrightarrow> distinct (map f xs) \<Longrightarrow> distinct (map f ys) \<Longrightarrow>
   set xs = set ys \<Longrightarrow> xs = (ys :: 'a list)"
  for f :: "'a \<Rightarrow> 'b::linorder"
proof -
  assume s: "sorted (map f xs)" "sorted (map f ys)"
    and d: "distinct (map f xs)" "distinct (map f ys)" and e: "set xs = set ys"
  have "map f xs = map f ys"
    using s d e by (metis list.set_map sorted_distinct_set_unique)
  moreover have "inj_on f (set xs \<union> set ys)"
    using d e by (simp add: distinct_map)
  ultimately show "xs = ys"
    by (simp add: inj_on_map_eq_map)
qed

lemma sort_key_unique:
  fixes f :: "'a \<Rightarrow> 'b::linorder"
  assumes "distinct (map f xs)" and "set xs = set ys" and "distinct (map f ys)"
  shows "sort_key f xs = sort_key f ys"
proof (rule sorted_distinct_fst_unique [where f = f])
  show "sorted (map f (sort_key f xs))" and "sorted (map f (sort_key f ys))"
    by simp_all
  show "distinct (map f (sort_key f xs))" and "distinct (map f (sort_key f ys))"
    using assms by (simp_all add: distinct_map)
  show "set (sort_key f xs) = set (sort_key f ys)"
    using assms by simp
qed

section \<open>Counting\<close>

text \<open>How many entries of a list satisfy a predicate, and what one update does to the number.\<close>

definition tally :: "('a \<Rightarrow> bool) \<Rightarrow> 'a list \<Rightarrow> nat" where
  "tally P xs = sum_list (map (\<lambda>x. of_bool (P x)) xs)"

lemma tally_simps [simp]:
  "tally P [] = 0"
  "tally P (x # xs) = of_bool (P x) + tally P xs"
  "tally P (xs @ ys) = tally P xs + tally P ys"
  "tally P (replicate n x) = n * of_bool (P x)"
  by (simp_all add: tally_def sum_list_replicate)

lemma tally_update:
  "i < length xs \<Longrightarrow> tally P (xs[i := x]) + of_bool (P (xs ! i)) = tally P xs + of_bool (P x)"
proof (induction xs arbitrary: i)
  case (Cons y ys)
  then show ?case using Cons.IH [of "i - 1"] by (cases i) auto
qed simp

lemma tally_pos: "0 < tally P xs \<longleftrightarrow> (\<exists>x \<in> set xs. P x)"
  by (induction xs) auto

lemma tally_ge: "i < length xs \<Longrightarrow> P (xs ! i) \<Longrightarrow> 1 \<le> tally P xs"
  using tally_pos [of P xs] nth_mem by force

lemma tally_two: "i < j \<Longrightarrow> j < length xs \<Longrightarrow> P (xs ! i) \<Longrightarrow> P (xs ! j) \<Longrightarrow> 2 \<le> tally P xs"
proof (induction xs arbitrary: i j)
  case (Cons x xs)
  then obtain k where k: "j = Suc k" by (cases j) auto
  show ?case
  proof (cases i)
    case 0
    with Cons.prems k tally_ge [of k xs P] show ?thesis by simp
  next
    case (Suc l)
    with Cons.prems k Cons.IH [of l k] show ?thesis by simp
  qed
qed simp

lemma tally_unique:
  "tally P xs \<le> 1 \<Longrightarrow> i < length xs \<Longrightarrow> j < length xs \<Longrightarrow> P (xs ! i) \<Longrightarrow> P (xs ! j) \<Longrightarrow> i = j"
  using tally_two [of i j xs P] tally_two [of j i xs P] by (cases i j rule: linorder_cases) auto

lemma sum_list_exchange:
  "i < length xs \<Longrightarrow> f x + k = f (xs ! i) + (l :: nat) \<Longrightarrow>
   sum_list (map f (xs[i := x])) + k = sum_list (map f xs) + l"
proof (induction xs arbitrary: i)
  case (Cons y ys)
  then show ?case using Cons.IH [of "i - 1"] by (cases i) auto
qed simp

end
