(* ===== verification/Go_Bytes.thy ===== *)
theory Go_Bytes
  imports Ck_Prelude
begin

text \<open>
  Go strings as byte sequences (\<open>string\<close> = \<open>char list\<close>, one \<open>char\<close> per byte) and the parts of
  \<open>unicode/utf8\<close>, \<open>unicode\<close> and \<open>strings\<close> the library uses: rune decoding from both ends, rune
  encoding, \<open>strings.Map\<close>, \<open>strings.TrimSpace\<close>, \<open>strings.Contains\<close> and the ASCII classes. The
  round trip of encoding and decoding is proved for every Unicode scalar value.
\<close>

type_synonym rune = nat

abbreviation byte :: "char \<Rightarrow> nat" where
  "byte c \<equiv> of_char c"

abbreviation RuneError :: rune where
  "RuneError \<equiv> 65533"

section \<open>Decoding and encoding runes\<close>

definition cont_byte :: "nat \<Rightarrow> bool" where
  "cont_byte b \<longleftrightarrow> 128 \<le> b \<and> b < 192"

text \<open>The accepted range of the second byte depends on the first (\<open>utf8.acceptRanges\<close>).\<close>

definition second_ok :: "nat \<Rightarrow> nat \<Rightarrow> bool" where
  "second_ok b0 b1 \<longleftrightarrow>
     (if b0 = 224 then 160 else if b0 = 240 then 144 else 128) \<le> b1 \<and>
     b1 \<le> (if b0 = 237 then 159 else if b0 = 244 then 143 else 191)"

text \<open>\<open>utf8.DecodeRuneInString\<close>: the first rune and its width; an invalid encoding has width 1.\<close>

fun decode_rune :: "string \<Rightarrow> rune \<times> nat" where
  "decode_rune [] = (RuneError, 0)"
| "decode_rune (c0 # cs) =
     (let b0 = byte c0 in
      if b0 < 128 then (b0, 1)
      else if b0 < 194 \<or> 244 < b0 then (RuneError, 1)
      else if b0 < 224 then
        (case cs of
           c1 # _ \<Rightarrow> if second_ok b0 (byte c1)
                     then ((b0 - 192) * 64 + (byte c1 - 128), 2) else (RuneError, 1)
         | _ \<Rightarrow> (RuneError, 1))
      else if b0 < 240 then
        (case cs of
           c1 # c2 # _ \<Rightarrow>
             if second_ok b0 (byte c1) \<and> cont_byte (byte c2)
             then ((b0 - 224) * 4096 + (byte c1 - 128) * 64 + (byte c2 - 128), 3)
             else (RuneError, 1)
         | _ \<Rightarrow> (RuneError, 1))
      else
        (case cs of
           c1 # c2 # c3 # _ \<Rightarrow>
             if second_ok b0 (byte c1) \<and> cont_byte (byte c2) \<and> cont_byte (byte c3)
             then ((b0 - 240) * 262144 + (byte c1 - 128) * 4096 + (byte c2 - 128) * 64
                   + (byte c3 - 128), 4)
             else (RuneError, 1)
         | _ \<Rightarrow> (RuneError, 1)))"

text \<open>A Unicode scalar value: what \<open>utf8.RuneLen\<close> gives a positive length.\<close>

definition scalar :: "rune \<Rightarrow> bool" where
  "scalar r \<longleftrightarrow> r < 55296 \<or> (57344 \<le> r \<and> r < 1114112)"

text \<open>\<open>utf8.AppendRune\<close> and \<open>strings.Builder.WriteRune\<close>: a value that is not a scalar is
  written as \<open>RuneError\<close>.\<close>

definition encode_scalar :: "rune \<Rightarrow> string" where
  "encode_scalar r =
     (if r < 128 then [char_of r]
      else if r < 2048 then [char_of (192 + r div 64), char_of (128 + r mod 64)]
      else if r < 65536 then
        [char_of (224 + r div 4096), char_of (128 + r div 64 mod 64), char_of (128 + r mod 64)]
      else
        [char_of (240 + r div 262144), char_of (128 + r div 4096 mod 64),
         char_of (128 + r div 64 mod 64), char_of (128 + r mod 64)])"

definition encode_rune :: "rune \<Rightarrow> string" where
  "encode_rune r = encode_scalar (if scalar r then r else RuneError)"

definition rune_len :: "rune \<Rightarrow> int" where
  "rune_len r = (if scalar r then int (length (encode_rune r)) else -1)"

text \<open>\<open>utf8.RuneStart\<close>: the byte is not a continuation byte.\<close>

definition rune_start :: "char \<Rightarrow> bool" where
  "rune_start c \<longleftrightarrow> \<not> cont_byte (byte c)"

text \<open>
  \<open>utf8.DecodeLastRuneInString\<close>: back up over at most three continuation bytes to a start byte and
  decode from there; unless the decoded rune ends at the end of the string it is \<open>RuneError\<close> of
  width 1. \<open>back k s\<close> scans the reversed prefix before the last byte.
\<close>

fun back_up :: "nat \<Rightarrow> string \<Rightarrow> nat" where
  "back_up 0 _ = 0"
| "back_up (Suc k) [] = 0"
| "back_up (Suc k) (c # cs) = (if rune_start c then 1 else Suc (back_up k cs))"

definition decode_last_rune :: "string \<Rightarrow> rune \<times> nat" where
  "decode_last_rune s =
     (if s = [] then (RuneError, 0)
      else if byte (last s) < 128 then (byte (last s), 1)
      else
        (let n = Suc (back_up 3 (tl (rev s)));
             start = (if n \<le> length s then length s - n else 0);
             (r, size) = decode_rune (drop start s)
         in if start + size \<noteq> length s then (RuneError, 1) else (r, size)))"

lemma decode_rune_width:
  "s \<noteq> [] \<Longrightarrow> 0 < snd (decode_rune s) \<and> snd (decode_rune s) \<le> length s"
  by (cases s) (auto simp: Let_def split: list.splits)

lemma decode_rune_ascii [simp]: "byte c < 128 \<Longrightarrow> decode_rune (c # cs) = (byte c, 1)"
  by (simp add: Let_def)

text \<open>The runes of \<open>for _, r := range s\<close>, and the string \<open>strings.Map\<close> builds.\<close>

function runes :: "string \<Rightarrow> rune list" where
  "runes s = (if s = [] then [] else fst (decode_rune s) # runes (drop (snd (decode_rune s)) s))"
  by pat_completeness auto
termination
  by (relation "measure length") (use decode_rune_width in fastforce)+

declare runes.simps [simp del]

lemma runes_Nil [simp]: "runes [] = []"
  by (simp add: runes.simps)

definition encode_runes :: "rune list \<Rightarrow> string" where
  "encode_runes rs = concat (map encode_rune rs)"

definition map_string :: "(rune \<Rightarrow> rune option) \<Rightarrow> string \<Rightarrow> string" where
  "map_string f s = encode_runes (List.map_filter f (runes s))"

lemma encode_runes_simps [simp]:
  "encode_runes [] = []"
  "encode_runes (r # rs) = encode_rune r @ encode_runes rs"
  "encode_runes (rs @ qs) = encode_runes rs @ encode_runes qs"
  by (simp_all add: encode_runes_def)

section \<open>Round trip\<close>

lemma byte_char_of [simp]: "n < 256 \<Longrightarrow> byte (char_of n) = n"
  by (simp add: of_char_of)

lemma encode_rune_scalar: "scalar r \<Longrightarrow> encode_rune r = encode_scalar r"
  by (simp add: encode_rune_def)

lemma encode_scalar_nonempty [simp]: "encode_scalar r \<noteq> []"
  by (simp add: encode_scalar_def)

lemma encode_rune_nonempty [simp]: "encode_rune r \<noteq> []"
  by (simp add: encode_rune_def)

lemma encode_rune_length: "length (encode_rune r) \<le> 4"
  by (simp add: encode_rune_def encode_scalar_def)

text \<open>The base-64 digits of a rune: each is below 64 and they sum back to the rune. The digits are
  named, so that the arithmetic over them is linear.\<close>

lemma digits2:
  obtains a b :: nat where "r = a * 64 + b" "b < 64" "r div 64 = a" "r mod 64 = b"
proof
  show "r = r div 64 * 64 + r mod 64" by simp
qed simp_all

lemma digits3:
  obtains a b c :: nat
  where "r = a * 4096 + b * 64 + c" "b < 64" "c < 64"
    "r div 4096 = a" "r div 64 mod 64 = b" "r mod 64 = c"
proof (rule digits2 [of r])
  fix a b :: nat
  assume r: "r = a * 64 + b" "b < 64" "r div 64 = a" "r mod 64 = b"
  show thesis
  proof (rule digits2 [of a])
    fix x y :: nat
    assume a: "a = x * 64 + y" "y < 64" "a div 64 = x" "a mod 64 = y"
    have "r div 4096 = r div 64 div 64" by (simp add: div_mult2_eq [symmetric])
    then have "r div 4096 = x" using r(3) a(3) by simp
    moreover have "r = x * 4096 + y * 64 + b" using r(1) a(1) by simp
    moreover have "r div 64 mod 64 = y" using r(3) a(4) by simp
    ultimately show thesis using r(2,4) a(2) that by blast
  qed
qed

lemma digits4:
  obtains a b c d :: nat
  where "r = a * 262144 + b * 4096 + c * 64 + d" "b < 64" "c < 64" "d < 64"
    "r div 262144 = a" "r div 4096 mod 64 = b" "r div 64 mod 64 = c" "r mod 64 = d"
proof (rule digits3 [of r])
  fix a b c :: nat
  assume r: "r = a * 4096 + b * 64 + c" "b < 64" "c < 64"
    "r div 4096 = a" "r div 64 mod 64 = b" "r mod 64 = c"
  show thesis
  proof (rule digits2 [of a])
    fix x y :: nat
    assume a: "a = x * 64 + y" "y < 64" "a div 64 = x" "a mod 64 = y"
    have "r div 262144 = r div 4096 div 64" by (simp add: div_mult2_eq [symmetric])
    then have "r div 262144 = x" using r(4) a(3) by simp
    moreover have "r = x * 262144 + y * 4096 + b * 64 + c" using r(1) a(1) by simp
    moreover have "r div 4096 mod 64 = y" using r(4) a(4) by simp
    ultimately show thesis using r a(2) that by blast
  qed
qed

lemma decode_encode_2:
  assumes "128 \<le> r" "r < 2048"
  shows "decode_rune (encode_scalar r @ s) = (r, length (encode_scalar r))"
proof (rule digits2 [of r])
  fix a b :: nat
  assume d: "r = a * 64 + b" "b < 64" "r div 64 = a" "r mod 64 = b"
  have "2 \<le> a" "a < 32" using d(1,2) assms by linarith+
  then show ?thesis
    using assms d(2) by (simp add: encode_scalar_def d(3,4) Let_def second_ok_def) (simp add: d(1))
qed

lemma decode_encode_3:
  assumes "2048 \<le> r" "r < 65536" "scalar r"
  shows "decode_rune (encode_scalar r @ s) = (r, length (encode_scalar r))"
proof (rule digits3 [of r])
  fix a b c :: nat
  assume d: "r = a * 4096 + b * 64 + c" "b < 64" "c < 64"
    "r div 4096 = a" "r div 64 mod 64 = b" "r mod 64 = c"
  have a: "a < 16" using d(1) assms(2) by linarith
  have lo: "a = 0 \<Longrightarrow> 32 \<le> b" using assms(1) d(1-3) by linarith
  have hi: "a = 13 \<Longrightarrow> b < 32" using assms(3) d(1-3) unfolding scalar_def by linarith
  have "second_ok (224 + a) (128 + b)"
    using lo hi a d(2) unfolding second_ok_def by auto
  then show ?thesis
    using assms(1,2) a d(2,3)
    by (simp add: encode_scalar_def d(4-6) Let_def cont_byte_def) (simp add: d(1))
qed

lemma decode_encode_4:
  assumes "65536 \<le> r" "r < 1114112"
  shows "decode_rune (encode_scalar r @ s) = (r, length (encode_scalar r))"
proof (rule digits4 [of r])
  fix a b c e :: nat
  assume d: "r = a * 262144 + b * 4096 + c * 64 + e" "b < 64" "c < 64" "e < 64"
    "r div 262144 = a" "r div 4096 mod 64 = b" "r div 64 mod 64 = c" "r mod 64 = e"
  have a: "a < 5" using d(1) assms(2) by linarith
  have lo: "a = 0 \<Longrightarrow> 16 \<le> b" using assms(1) d(1-4) by linarith
  have hi: "a = 4 \<Longrightarrow> b < 16" using assms(2) d(1-4) by linarith
  have "second_ok (240 + a) (128 + b)"
    using lo hi a d(2) unfolding second_ok_def by auto
  then show ?thesis
    using assms(1,2) a d(2-4)
    by (simp add: encode_scalar_def d(5-8) Let_def cont_byte_def) (simp add: d(1))
qed

lemma decode_encode:
  assumes "scalar r"
  shows "decode_rune (encode_rune r @ s) = (r, length (encode_rune r))"
proof -
  consider "r < 128" | "128 \<le> r" "r < 2048" | "2048 \<le> r" "r < 65536" | "65536 \<le> r"
    by linarith
  then show ?thesis
  proof cases
    case 1
    then show ?thesis by (simp add: encode_rune_scalar assms encode_scalar_def)
  next
    case 2
    then show ?thesis using decode_encode_2 [of r s] assms by (simp add: encode_rune_scalar)
  next
    case 3
    then show ?thesis using decode_encode_3 [of r s] assms by (simp add: encode_rune_scalar)
  next
    case 4
    then have "r < 1114112" using assms by (auto simp: scalar_def)
    then show ?thesis using decode_encode_4 [of r s] assms 4 by (simp add: encode_rune_scalar)
  qed
qed

lemma runes_encode_Cons: "scalar r \<Longrightarrow> runes (encode_rune r @ s) = r # runes s"
  by (subst runes.simps) (simp add: decode_encode)

text \<open>Decoding what was encoded gives the runes back.\<close>

lemma runes_encode: "list_all scalar rs \<Longrightarrow> runes (encode_runes rs) = rs"
  by (induction rs) (simp_all add: runes_encode_Cons)

text \<open>Every rune a string decodes to is a scalar value (invalid bytes decode to \<open>RuneError\<close>).\<close>

lemma scalar_2:
  assumes "194 \<le> b0" "b0 < 224" "second_ok b0 b1"
  shows "scalar ((b0 - 192) * 64 + (b1 - 128))"
proof -
  have "b0 - 192 < 32" and "b1 - 128 < 64"
    using assms unfolding second_ok_def by (auto split: if_splits)
  then show ?thesis unfolding scalar_def by linarith
qed

lemma scalar_3:
  assumes "224 \<le> b0" "b0 < 240" "second_ok b0 b1" "cont_byte b2"
  shows "scalar ((b0 - 224) * 4096 + (b1 - 128) * 64 + (b2 - 128))"
proof -
  obtain a where a: "b0 = 224 + a" using assms(1) le_Suc_ex by blast
  obtain c where c: "b2 = 128 + c" using assms(4) le_Suc_ex unfolding cont_byte_def by blast
  have "128 \<le> b1" using assms(3) unfolding second_ok_def by (auto split: if_splits)
  then obtain b where b: "b1 = 128 + b" using le_Suc_ex by blast
  have bnd: "a < 16" "b < 64" "c < 64" "a = 13 \<Longrightarrow> b < 32"
    using assms a b c unfolding second_ok_def cont_byte_def by (auto split: if_splits)
  consider "a < 13" | "a = 13" | "13 < a" by linarith
  then have "scalar (a * 4096 + b * 64 + c)"
    by cases (use bnd in \<open>simp_all add: scalar_def\<close>)
  then show ?thesis by (simp add: a b c)
qed

lemma scalar_4:
  assumes "240 \<le> b0" "b0 \<le> 244" "second_ok b0 b1" "cont_byte b2" "cont_byte b3"
  shows "scalar ((b0 - 240) * 262144 + (b1 - 128) * 4096 + (b2 - 128) * 64 + (b3 - 128))"
proof -
  obtain a where a: "b0 = 240 + a" using assms(1) le_Suc_ex by blast
  have "128 \<le> b1" using assms(3) unfolding second_ok_def by (auto split: if_splits)
  then obtain b where b: "b1 = 128 + b" using le_Suc_ex by blast
  have bnd: "a < 5" "b < 64" "b2 - 128 < 64" "b3 - 128 < 64" "a = 4 \<Longrightarrow> b < 16" "a = 0 \<Longrightarrow> 16 \<le> b"
    using assms a b unfolding second_ok_def cont_byte_def by (auto split: if_splits)
  consider "a = 0" | "0 < a" "a < 4" | "a = 4" using bnd(1) by linarith
  then have "scalar (a * 262144 + b * 4096 + (b2 - 128) * 64 + (b3 - 128))"
    by cases (use bnd in \<open>simp_all add: scalar_def\<close>)
  then show ?thesis by (simp add: a b)
qed

lemma decode_rune_scalar: "scalar (fst (decode_rune s))"
proof (cases s)
  case Nil
  then show ?thesis by (simp add: scalar_def)
next
  case (Cons c cs)
  have err: "scalar RuneError" and ascii: "b < 128 \<Longrightarrow> scalar b" for b
    by (simp_all add: scalar_def)
  show ?thesis
    unfolding Cons
    by (simp add: Let_def err ascii scalar_2 scalar_3 scalar_4 split: list.split del: byte_char_of)
qed

lemma runes_scalar: "list_all scalar (runes s)"
proof (induction s rule: runes.induct)
  case (1 s)
  then show ?case by (subst runes.simps) (simp add: decode_rune_scalar)
qed

section \<open>Decoding from the end\<close>

lemma back_up_conts:
  "list_all (\<lambda>x. \<not> rune_start x) xs \<Longrightarrow> rune_start c \<Longrightarrow> length xs < k \<Longrightarrow>
   back_up k (xs @ c # ys) = Suc (length xs)"
proof (induction xs arbitrary: k)
  case Nil
  then show ?case by (cases k) auto
next
  case (Cons x xs)
  then show ?case by (cases k) auto
qed

lemma encode_scalar_shape:
  assumes "128 \<le> r" "r < 1114112"
  obtains c xs x where "encode_scalar r = c # xs @ [x]" "rune_start c" "length xs < 3"
    "list_all (\<lambda>x. \<not> rune_start x) xs" "\<not> byte x < 128"
proof -
  have lead: "rune_start (char_of (192 + n))" if "n < 64" for n :: nat
    using that by (simp add: rune_start_def cont_byte_def)
  have cont: "\<not> rune_start (char_of (128 + n mod 64))" for n :: nat
    by (simp add: rune_start_def cont_byte_def)
  have big: "\<not> byte (char_of (128 + n mod 64)) < 128" for n :: nat
    by simp
  consider "r < 2048" | "2048 \<le> r" "r < 65536" | "65536 \<le> r" by linarith
  then show thesis
  proof cases
    case 1
    have "r div 64 < 64" by (rule less_mult_imp_div_less) (use 1 in simp)
    then show thesis
      using that [of "char_of (192 + r div 64)" "[]" "char_of (128 + r mod 64)"] lead big assms 1
      by (simp add: encode_scalar_def)
  next
    case 2
    have "r div 4096 < 32" by (rule less_mult_imp_div_less) (use 2(2) in simp)
    then have "32 + r div 4096 < 64" by simp
    from lead [OF this] show thesis
      using that [of "char_of (224 + r div 4096)" "[char_of (128 + r div 64 mod 64)]"
          "char_of (128 + r mod 64)"] cont big assms 2
      by (simp add: encode_scalar_def)
  next
    case 3
    have "r div 262144 < 16" by (rule less_mult_imp_div_less) (use assms(2) in simp)
    then have "48 + r div 262144 < 64" by simp
    from lead [OF this] show thesis
      using that [of "char_of (240 + r div 262144)"
          "[char_of (128 + r div 4096 mod 64), char_of (128 + r div 64 mod 64)]"
          "char_of (128 + r mod 64)"] cont big 3
      by (simp add: encode_scalar_def)
  qed
qed

lemma decode_last_encode:
  assumes "scalar r"
  shows "decode_last_rune (s @ encode_rune r) = (r, length (encode_rune r))"
proof (cases "r < 128")
  case True
  then show ?thesis
    by (simp add: decode_last_rune_def encode_rune_scalar assms encode_scalar_def)
next
  case False
  then have r: "128 \<le> r" "r < 1114112" using assms by (auto simp: scalar_def)
  obtain c xs x where e: "encode_scalar r = c # xs @ [x]" "rune_start c" "length xs < 3"
    "list_all (\<lambda>x. \<not> rune_start x) xs" "\<not> byte x < 128"
    by (rule encode_scalar_shape [OF r])
  have "back_up 3 (rev xs @ c # rev s) = Suc (length (rev xs))"
    by (rule back_up_conts) (use e in \<open>simp_all add: list_all_iff\<close>)
  moreover have "decode_rune (c # xs @ [x]) = (r, Suc (Suc (length xs)))"
    using decode_encode [OF assms, of "[]"] e(1) by (simp add: encode_rune_scalar assms)
  ultimately show ?thesis
    using e(5) by (simp add: decode_last_rune_def encode_rune_scalar assms e(1) Let_def del: decode_rune.simps)
qed

lemma decode_last_width: "s \<noteq> [] \<Longrightarrow> 0 < snd (decode_last_rune s)"
proof -
  assume s: "s \<noteq> []"
  have w: "k < length s \<Longrightarrow> 0 < snd (decode_rune (drop k s))" for k
    using decode_rune_width [of "drop k s"] by auto
  have "0 < length s" using s by simp
  with w [of 0] w show ?thesis
    using s by (auto simp: decode_last_rune_def Let_def split: prod.split if_splits)
qed

section \<open>Whitespace, case and substrings\<close>

text \<open>\<open>unicode.IsSpace\<close>.\<close>

definition is_space :: "rune \<Rightarrow> bool" where
  "is_space r \<longleftrightarrow>
     9 \<le> r \<and> r \<le> 13 \<or> r = 32 \<or> r = 133 \<or> r = 160 \<or> r = 5760 \<or> (8192 \<le> r \<and> r \<le> 8202) \<or>
     r = 8232 \<or> r = 8233 \<or> r = 8239 \<or> r = 8287 \<or> r = 12288"

function trim_left :: "string \<Rightarrow> string" where
  "trim_left s =
     (if s \<noteq> [] \<and> is_space (fst (decode_rune s)) then trim_left (drop (snd (decode_rune s)) s) else s)"
  by pat_completeness auto
termination
  by (relation "measure length") (use decode_rune_width in fastforce)+

function trim_right :: "string \<Rightarrow> string" where
  "trim_right s =
     (if s \<noteq> [] \<and> is_space (fst (decode_last_rune s))
      then trim_right (take (length s - snd (decode_last_rune s)) s) else s)"
  by pat_completeness auto
termination
  by (relation "measure length") (use decode_last_width in fastforce)+

declare trim_left.simps [simp del] trim_right.simps [simp del]

text \<open>\<open>strings.TrimSpace\<close>.\<close>

definition TrimSpace :: "string \<Rightarrow> string" where
  "TrimSpace s = trim_right (trim_left s)"

definition plain_byte :: "char \<Rightarrow> bool" where
  "plain_byte c \<longleftrightarrow> byte c < 128 \<and> \<not> is_space (byte c)"

lemma trim_left_plain: "s \<noteq> [] \<Longrightarrow> plain_byte (hd s) \<Longrightarrow> trim_left s = s"
  by (subst trim_left.simps) (cases s; simp add: plain_byte_def)

lemma trim_right_plain: "s \<noteq> [] \<Longrightarrow> plain_byte (last s) \<Longrightarrow> trim_right s = s"
  by (subst trim_right.simps) (simp add: plain_byte_def decode_last_rune_def)

lemma TrimSpace_plain: "s \<noteq> [] \<Longrightarrow> plain_byte (hd s) \<Longrightarrow> plain_byte (last s) \<Longrightarrow> TrimSpace s = s"
  by (simp add: TrimSpace_def trim_left_plain trim_right_plain)

lemma TrimSpace_Nil [simp]: "TrimSpace [] = []"
  by (simp add: TrimSpace_def trim_left.simps trim_right.simps)

text \<open>\<open>strings.Contains\<close>, \<open>strings.HasSuffix\<close>.\<close>

fun has_prefix :: "string \<Rightarrow> string \<Rightarrow> bool" where
  "has_prefix s [] = True"
| "has_prefix [] (p # ps) = False"
| "has_prefix (c # s) (p # ps) = (c = p \<and> has_prefix s ps)"

fun contains :: "string \<Rightarrow> string \<Rightarrow> bool" where
  "contains [] p = (p = [])"
| "contains (c # s) p = (has_prefix (c # s) p \<or> contains s p)"

definition has_suffix :: "string \<Rightarrow> string \<Rightarrow> bool" where
  "has_suffix s p = has_prefix (rev s) (rev p)"

lemma has_prefix_iff: "has_prefix s p \<longleftrightarrow> (\<exists>t. s = p @ t)"
  by (induction s p rule: has_prefix.induct) auto

lemma contains_iff: "contains s p \<longleftrightarrow> (\<exists>a b. s = a @ p @ b)"
proof (induction s)
  case Nil
  then show ?case by auto
next
  case (Cons c s)
  have "(\<exists>a b. c # s = a @ p @ b) \<longleftrightarrow> (\<exists>b. c # s = p @ b) \<or> (\<exists>a b. s = a @ p @ b)"
    by (metis append_Cons append_Nil list.exhaust list.inject)
  with Cons show ?case by (simp add: has_prefix_iff del: has_prefix.simps)
qed

text \<open>
  Case mapping of runes. ASCII letters and the two non-ASCII runes whose simple folding is an ASCII
  letter (the Kelvin sign and the long s) are written out; \<open>ext\<close> stands for the rest of the Unicode
  tables of the Go distribution.
\<close>

definition ascii_lower :: "rune \<Rightarrow> rune" where
  "ascii_lower r = (if 65 \<le> r \<and> r \<le> 90 then r + 32 else r)"

definition ascii_upper :: "rune \<Rightarrow> rune" where
  "ascii_upper r = (if 97 \<le> r \<and> r \<le> 122 then r - 32 else r)"

definition fold_rune :: "(rune \<Rightarrow> rune) \<Rightarrow> rune \<Rightarrow> rune" where
  "fold_rune ext r =
     (if r < 128 then ascii_lower r
      else if r = 8490 then 107
      else if r = 383 then 115
      else ext r)"

text \<open>\<open>strings.EqualFold\<close> and \<open>strings.ToLower\<close>.\<close>

definition equal_fold :: "(rune \<Rightarrow> rune) \<Rightarrow> string \<Rightarrow> string \<Rightarrow> bool" where
  "equal_fold ext s t \<longleftrightarrow> map (fold_rune ext) (runes s) = map (fold_rune ext) (runes t)"

definition to_lower :: "(rune \<Rightarrow> rune) \<Rightarrow> string \<Rightarrow> string" where
  "to_lower ext s = map_string (\<lambda>r. Some (if r < 128 then ascii_lower r else ext r)) s"

lemma equal_fold_refl [simp]: "equal_fold ext s s"
  by (simp add: equal_fold_def)

lemma equal_fold_sym: "equal_fold ext s t = equal_fold ext t s"
  by (auto simp: equal_fold_def)

lemma equal_fold_trans: "equal_fold ext s t \<Longrightarrow> equal_fold ext t u \<Longrightarrow> equal_fold ext s u"
  by (simp add: equal_fold_def)

section \<open>Numbers in decimal\<close>

definition digit_byte :: "char \<Rightarrow> bool" where
  "digit_byte c \<longleftrightarrow> 48 \<le> byte c \<and> byte c \<le> 57"

definition decimal :: "string \<Rightarrow> nat" where
  "decimal s = foldl (\<lambda>n c. 10 * n + (byte c - 48)) 0 s"

text \<open>\<open>strconv.ParseUint(s, 10, 64)\<close> and \<open>strconv.Atoi\<close> on a 64-bit platform; None is the error.\<close>

definition ParseUint64 :: "string \<Rightarrow> nat option" where
  "ParseUint64 s = (if s \<noteq> [] \<and> list_all digit_byte s \<and> decimal s < 2 ^ 64 then Some (decimal s) else None)"

definition Atoi :: "string \<Rightarrow> int option" where
  "Atoi s =
     (let neg = (s \<noteq> [] \<and> hd s = CHR ''-'');
          ds = (if s \<noteq> [] \<and> (hd s = CHR ''-'' \<or> hd s = CHR ''+'') then tl s else s)
      in if ds \<noteq> [] \<and> list_all digit_byte ds \<and> decimal ds < (if neg then 2 ^ 63 + 1 else 2 ^ 63)
         then Some (if neg then - int (decimal ds) else int (decimal ds))
         else None)"

end
