(* ===== verification/Go_Runtime.thy ===== *)
theory Go_Runtime
  imports Go_Bytes
begin

text \<open>
  The parts of Go's \<open>time\<close>, \<open>errors\<close> and \<open>context\<close> packages the library computes with: instants and
  saturating differences, error trees searched by \<open>errors.Is\<close> and \<open>errors.As\<close>, and the error a done
  context reports. \<open>internal/configvalue.Duration\<close>, the one routine every configuration uses, is
  modelled here together with the contract (a locale) the client packages rely on.
\<close>

section \<open>Time\<close>

text \<open>
  An instant in nanoseconds since the zero time and the location it is presented in. Wall and
  monotonic readings of one \<open>time.Now\<close> are taken to agree. A \<open>time.Duration\<close> is an int64 number of
  nanoseconds, held as an \<open>int\<close> with its bounds written out.
\<close>

datatype location = UTC | Local

datatype gotime = Time (instant: int) (zone: location)

type_synonym duration = int

definition max_duration :: duration where
  "max_duration = 2 ^ 63 - 1"

definition min_duration :: duration where
  "min_duration = - (2 ^ 63)"

definition Second :: duration where
  "Second = 1000000000"

definition Millisecond :: duration where
  "Millisecond = 1000000"

definition zero_time :: gotime where
  "zero_time = Time 0 UTC"

definition is_zero :: "gotime \<Rightarrow> bool" where
  "is_zero t \<longleftrightarrow> instant t = 0"

definition to_utc :: "gotime \<Rightarrow> gotime" where
  "to_utc t = Time (instant t) UTC"

definition time_after :: "gotime \<Rightarrow> gotime \<Rightarrow> bool" where
  "time_after t u \<longleftrightarrow> instant u < instant t"

definition time_before :: "gotime \<Rightarrow> gotime \<Rightarrow> bool" where
  "time_before t u \<longleftrightarrow> instant t < instant u"

definition saturate :: "int \<Rightarrow> duration" where
  "saturate d = max min_duration (min max_duration d)"

definition time_sub :: "gotime \<Rightarrow> gotime \<Rightarrow> duration" where
  "time_sub t u = saturate (instant t - instant u)"

definition time_add :: "gotime \<Rightarrow> duration \<Rightarrow> gotime" where
  "time_add t d = Time (instant t + d) (zone t)"

text \<open>\<open>time.Now()\<close> at a given instant.\<close>

definition now_at :: "int \<Rightarrow> gotime" where
  "now_at n = Time n Local"

lemmas time_defs = is_zero_def to_utc_def time_after_def time_before_def time_add_def now_at_def
  zero_time_def

lemma to_utc_id: "zone t = UTC \<Longrightarrow> to_utc t = t"
  by (cases t) (simp add: to_utc_def)

lemma time_sub_bounds: "min_duration \<le> time_sub t u \<and> time_sub t u \<le> max_duration"
  by (simp add: time_sub_def saturate_def min_duration_def max_duration_def)

lemma time_sub_nonneg: "instant u \<le> instant t \<Longrightarrow> 0 \<le> time_sub t u"
  by (simp add: time_sub_def saturate_def max_duration_def)

lemma time_sub_le_iff:
  "0 \<le> d \<Longrightarrow> d < max_duration \<Longrightarrow> time_sub t u \<le> d \<longleftrightarrow> instant t - instant u \<le> d"
  by (auto simp: time_sub_def saturate_def max_duration_def min_duration_def)

section \<open>Errors\<close>

text \<open>
  A sentinel error variable of the library, compared by identity.
\<close>

datatype sentinel =
    errRedirectLimitExceeded | errRedirectReplayNotAllowed | errRequestURLRequired
  | errRequestURLMustBeAbsolute | errRequestURLOpaque | errRequestURLUserInformation
  | errRequestURLFragment | errRequestURLScheme | errRequestURLHostname | errRequestURI
  | errRequestMethod | errRequestHostOverride | errRequestOriginMismatch
  | ErrInvalidTransportResult | errNoConnection

text \<open>
  What a node of an error tree answers to: the sentinels it is (or that its \<open>Is\<close> method accepts) and
  the concrete types \<open>errors.As\<close> finds. \<open>New\<close> is an error created in place by \<open>errors.New\<close> or
  \<open>fmt.Errorf\<close> (never compared with), \<open>Foreign\<close> any other value of code outside the library.
\<close>

datatype etag =
    ContextCanceled | ContextDeadlineExceeded
  | IoEOF | IoErrUnexpectedEOF | NetErrClosed
  | ECONNREFUSED | ECONNRESET | EPIPE
  | TlsCertificateVerificationError | TlsAlertError | TlsRecordHeaderError
  | X509UnknownAuthorityError | X509HostnameError | X509CertificateInvalidError
  | X509ConstraintViolationError | X509InsecureAlgorithmError | X509SystemRootsError
  | NetDNSError bool
  | Sentinel sentinel
  | New string
  | Foreign nat

text \<open>
  An error value: its tags, the result of \<open>Timeout()\<close> if it implements \<open>net.Error\<close>, and the errors
  it wraps. A nil \<open>error\<close> is None of type \<open>goerr option\<close>.
\<close>

datatype goerr = GoErr (etags: "etag list") (etimeout: "bool option") (causes: "goerr list")

text \<open>The nodes in the depth-first order of \<open>errors.Is\<close> and \<open>errors.As\<close>.\<close>

fun error_nodes :: "goerr \<Rightarrow> goerr list" where
  "error_nodes (GoErr ts tm cs) = GoErr ts tm cs # concat (map error_nodes cs)"

definition nodes_of :: "goerr option \<Rightarrow> goerr list" where
  "nodes_of e = (case e of None \<Rightarrow> [] | Some x \<Rightarrow> error_nodes x)"

definition errors_is :: "goerr option \<Rightarrow> etag \<Rightarrow> bool" where
  "errors_is e t \<longleftrightarrow> list_ex (\<lambda>n. t \<in> set (etags n)) (nodes_of e)"

text \<open>\<open>var n net.Error; errors.As(err, &n) && n.Timeout()\<close>: the first node that implements it.\<close>

definition net_timeout :: "goerr option \<Rightarrow> bool" where
  "net_timeout e = (case List.map_filter etimeout (nodes_of e) of [] \<Rightarrow> False | b # _ \<Rightarrow> b)"

fun dns_tag :: "etag list \<Rightarrow> bool option" where
  "dns_tag [] = None"
| "dns_tag (t # ts) = (case t of NetDNSError b \<Rightarrow> Some b | _ \<Rightarrow> dns_tag ts)"

text \<open>\<open>errors.As\<close> to \<open>*net.DNSError\<close>, giving its \<open>IsNotFound\<close>.\<close>

definition as_dns :: "goerr option \<Rightarrow> bool option" where
  "as_dns e = (case List.map_filter (\<lambda>n. dns_tag (etags n)) (nodes_of e) of [] \<Rightarrow> None | b # _ \<Rightarrow> Some b)"

definition errors_new :: "string \<Rightarrow> goerr" where
  "errors_new s = GoErr [New s] None []"

definition errorf :: "string \<Rightarrow> goerr \<Rightarrow> goerr" where
  "errorf s e = GoErr [New s] None [e]"

definition sentinel_error :: "sentinel \<Rightarrow> goerr" where
  "sentinel_error s = GoErr [Sentinel s] None []"

lemma nodes_of_simps [simp]:
  "nodes_of None = []"
  "nodes_of (Some x) = error_nodes x"
  by (simp_all add: nodes_of_def)

lemma errors_is_None [simp]: "\<not> errors_is None t"
  by (simp add: errors_is_def)

lemma net_timeout_None [simp]: "\<not> net_timeout None"
  by (simp add: net_timeout_def List.map_filter_simps)

lemma as_dns_None [simp]: "as_dns None = None"
  by (simp add: as_dns_def List.map_filter_simps)

lemma errors_is_leaf [simp]: "errors_is (Some (GoErr ts tm [])) t \<longleftrightarrow> t \<in> set ts"
  by (simp add: errors_is_def)

lemma net_timeout_leaf [simp]: "net_timeout (Some (GoErr ts tm [])) \<longleftrightarrow> tm = Some True"
  by (cases tm) (simp_all add: net_timeout_def List.map_filter_simps)

lemma as_dns_leaf [simp]: "as_dns (Some (GoErr ts tm [])) = dns_tag ts"
  by (cases "dns_tag ts") (simp_all add: as_dns_def List.map_filter_simps)

lemma errors_is_sentinel [simp]:
  "errors_is (Some (sentinel_error s)) t \<longleftrightarrow> t = Sentinel s"
  by (simp add: sentinel_error_def)

lemma errors_is_new [simp]: "errors_is (Some (errors_new s)) t \<longleftrightarrow> t = New s"
  by (simp add: errors_new_def)

lemma net_timeout_own [simp]:
  "\<not> net_timeout (Some (sentinel_error s))" "\<not> net_timeout (Some (errors_new m))"
  by (simp_all add: sentinel_error_def errors_new_def)

lemma errors_is_errorf: "errors_is (Some (errorf s e)) t \<longleftrightarrow> t = New s \<or> errors_is (Some e) t"
  by (simp add: errorf_def errors_is_def)

section \<open>Contexts\<close>

text \<open>
  \<open>ctx.Err()\<close> of a done context is one of two values. \<open>context.DeadlineExceeded\<close> implements
  \<open>net.Error\<close> with \<open>Timeout() = true\<close>.
\<close>

datatype ctx_err = Canceled | DeadlineExceeded

definition err_of_ctx :: "ctx_err \<Rightarrow> goerr" where
  "err_of_ctx c = (case c of
     Canceled \<Rightarrow> GoErr [ContextCanceled] None []
   | DeadlineExceeded \<Rightarrow> GoErr [ContextDeadlineExceeded] (Some True) [])"

lemma err_of_ctx_is [simp]:
  "errors_is (Some (err_of_ctx c)) ContextCanceled \<longleftrightarrow> c = Canceled"
  "errors_is (Some (err_of_ctx c)) ContextDeadlineExceeded \<longleftrightarrow> c = DeadlineExceeded"
  "\<not> errors_is (Some (err_of_ctx c)) (Sentinel s)"
  by (cases c; simp add: err_of_ctx_def)+

section \<open>Configuration durations\<close>

datatype duration_error = DurationNegative string | DurationSetAndDisabled string

text \<open>\<open>internal/configvalue.Duration\<close>.\<close>

definition Duration ::
  "string \<Rightarrow> duration \<Rightarrow> bool \<Rightarrow> duration \<Rightarrow> duration \<Rightarrow> (duration_error, duration) result" where
  "Duration name value disabled defaultValue disabledValue =
     (if value < 0 then Inl (DurationNegative name)
      else if disabled \<and> value > 0 then Inl (DurationSetAndDisabled name)
      else if disabled then Inr disabledValue
      else if value = 0 then Inr defaultValue
      else Inr value)"

text \<open>
  The contract of the resolver that every configuration relies on, and what the clients conclude
  from it: a resolved duration is never negative, and the disabled value appears exactly when the
  caller asked for it.
\<close>

locale duration_resolver =
  fixes resolve :: "string \<Rightarrow> duration \<Rightarrow> bool \<Rightarrow> duration \<Rightarrow> duration \<Rightarrow> (duration_error, duration) result"
  assumes resolve_ok_iff:
      "(\<exists>d. resolve n v dis def disv = Inr d) \<longleftrightarrow> 0 \<le> v \<and> \<not> (dis \<and> 0 < v)"
    and resolve_disabled: "resolve n v True def disv = Inr d \<Longrightarrow> d = disv"
    and resolve_default: "resolve n 0 False def disv = Inr d \<Longrightarrow> d = def"
    and resolve_explicit: "0 < v \<Longrightarrow> resolve n v dis def disv = Inr d \<Longrightarrow> d = v"
begin

lemma resolved_cases:
  assumes "resolve n v dis def disv = Inr d"
  shows "d = disv \<and> dis \<or> d = def \<and> v = 0 \<and> \<not> dis \<or> d = v \<and> 0 < v \<and> \<not> dis"
proof -
  have v: "0 \<le> v" "\<not> (dis \<and> 0 < v)" using assms resolve_ok_iff by blast+
  show ?thesis
  proof (cases dis)
    case True
    with assms show ?thesis using resolve_disabled by simp
  next
    case False
    then show ?thesis using assms resolve_default resolve_explicit v
      by (cases "v = 0") auto
  qed
qed

lemma resolved_nonneg:
  "resolve n v dis def disv = Inr d \<Longrightarrow> 0 \<le> def \<Longrightarrow> 0 \<le> disv \<Longrightarrow> 0 \<le> d"
  using resolved_cases by fastforce

lemma resolved_positive:
  "resolve n v False def disv = Inr d \<Longrightarrow> 0 < def \<Longrightarrow> 0 < d"
  using resolved_cases by fastforce

end

interpretation dur: duration_resolver Duration
  by unfold_locales (auto simp: Duration_def split: if_splits)

end
