(* ===== verification/Ck_Failure.thy ===== *)
theory Ck_Failure
  imports Go_Runtime
begin

text \<open>
  \<open>failure.go\<close> and \<open>internal/failure/classify.go\<close>: the stable failure vocabulary and the
  classification of a network error shared by the HTTP and TCP packages.
\<close>

text \<open>
  \<open>FailureClass\<close> is a Go string type with thirteen named constants; \<open>FailureOther\<close> is any string
  outside that vocabulary (a value of caller code).
\<close>

datatype FailureClass =
    FailureNone | FailureConfiguration | FailurePolicy | FailureRequest | FailureCanceled
  | FailureTimeout | FailureNameResolution | FailureConnectionRefused | FailureConnectionReset
  | FailureConnectionClosed | FailureTLS | FailureRemoteResponse | FailureTransport
  | FailureOther string

definition failure_string :: "FailureClass \<Rightarrow> string" where
  "failure_string c = (case c of
     FailureNone \<Rightarrow> '''' | FailureConfiguration \<Rightarrow> ''configuration'' | FailurePolicy \<Rightarrow> ''policy''
   | FailureRequest \<Rightarrow> ''request'' | FailureCanceled \<Rightarrow> ''canceled'' | FailureTimeout \<Rightarrow> ''timeout''
   | FailureNameResolution \<Rightarrow> ''name_resolution''
   | FailureConnectionRefused \<Rightarrow> ''connection_refused''
   | FailureConnectionReset \<Rightarrow> ''connection_reset''
   | FailureConnectionClosed \<Rightarrow> ''connection_closed'' | FailureTLS \<Rightarrow> ''tls''
   | FailureRemoteResponse \<Rightarrow> ''remote_response'' | FailureTransport \<Rightarrow> ''transport''
   | FailureOther s \<Rightarrow> s)"

definition validFailureClass :: "FailureClass \<Rightarrow> bool" where
  "validFailureClass c = (case c of FailureOther _ \<Rightarrow> False | _ \<Rightarrow> True)"

definition isTLSFailure :: "goerr option \<Rightarrow> bool" where
  "isTLSFailure err \<longleftrightarrow>
     errors_is err TlsCertificateVerificationError \<or>
     errors_is err TlsAlertError \<or>
     errors_is err TlsRecordHeaderError \<or>
     errors_is err X509UnknownAuthorityError \<or>
     errors_is err X509HostnameError \<or>
     errors_is err X509CertificateInvalidError \<or>
     errors_is err X509ConstraintViolationError \<or>
     errors_is err X509InsecureAlgorithmError \<or>
     errors_is err X509SystemRootsError"

definition Network :: "goerr option \<Rightarrow> bool \<Rightarrow> FailureClass" where
  "Network err tlsStage =
     (if errors_is err ContextCanceled then FailureCanceled
      else if errors_is err ContextDeadlineExceeded then FailureTimeout
      else if net_timeout err then FailureTimeout
      else if tlsStage \<or> isTLSFailure err then FailureTLS
      else if as_dns err \<noteq> None then FailureNameResolution
      else if errors_is err ECONNREFUSED then FailureConnectionRefused
      else if errors_is err ECONNRESET then FailureConnectionReset
      else if errors_is err IoEOF \<or> errors_is err IoErrUnexpectedEOF \<or> errors_is err NetErrClosed \<or>
              errors_is err EPIPE then FailureConnectionClosed
      else FailureTransport)"

lemma Network_ctx [simp]:
  "Network (Some (err_of_ctx Canceled)) tls = FailureCanceled"
  "Network (Some (err_of_ctx DeadlineExceeded)) tls = FailureTimeout"
  by (simp_all add: Network_def)

lemma Network_range:
  "Network err tls \<in> {FailureCanceled, FailureTimeout, FailureTLS, FailureNameResolution,
     FailureConnectionRefused, FailureConnectionReset, FailureConnectionClosed, FailureTransport}"
  by (simp add: Network_def)

lemma Network_not:
  "Network err tls \<noteq> FailureNone" "Network err tls \<noteq> FailurePolicy"
  "Network err tls \<noteq> FailureConfiguration" "Network err tls \<noteq> FailureRequest"
  "Network err tls \<noteq> FailureRemoteResponse" "validFailureClass (Network err tls)"
  using Network_range [of err tls] by (auto simp: validFailureClass_def)

end
