(* ===== verification/Ck_Health.thy ===== *)
theory Ck_Health
  imports Ck_Failure
begin

text \<open>
  \<open>readiness.go\<close> and \<open>health.go\<close>: readiness policies and the decision they make over a health
  state, the default health sanitizer with its bounded message, and the containment of sanitizer
  panics. The contract a sanitizer owes to the operational surfaces is the locale \<open>sanitizer\<close>,
  interpreted on \<open>DefaultHealthSanitizer\<close>.
\<close>

section \<open>Health values\<close>

text \<open>\<open>HealthState\<close> and \<open>ReadinessPolicy\<close> are Go string types; the last constructor of each is any
  string outside the declared vocabulary, and \<open>ReadinessUnset\<close> is the empty string.\<close>

datatype HealthState =
    HealthUnknown | HealthHealthy | HealthDegraded | HealthUnhealthy | HealthOther string

datatype ReadinessPolicy =
    ReadinessUnset | ReadinessRequired | ReadinessOptional | ReadinessDegradedAllowed
  | ReadinessInformational | ReadinessOther string

definition health_state_string :: "HealthState \<Rightarrow> string" where
  "health_state_string s = (case s of
     HealthUnknown \<Rightarrow> ''unknown'' | HealthHealthy \<Rightarrow> ''healthy'' | HealthDegraded \<Rightarrow> ''degraded''
   | HealthUnhealthy \<Rightarrow> ''unhealthy'' | HealthOther x \<Rightarrow> x)"

definition policy_string :: "ReadinessPolicy \<Rightarrow> string" where
  "policy_string p = (case p of
     ReadinessUnset \<Rightarrow> '''' | ReadinessRequired \<Rightarrow> ''required'' | ReadinessOptional \<Rightarrow> ''optional''
   | ReadinessDegradedAllowed \<Rightarrow> ''degraded_allowed''
   | ReadinessInformational \<Rightarrow> ''informational'' | ReadinessOther x \<Rightarrow> x)"

record Health =
  h_state :: HealthState
  h_failure :: FailureClass
  h_checked_at :: gotime
  h_duration :: duration
  h_message :: string

record HealthAssessment =
  ha_state :: HealthState
  ha_failure :: FailureClass
  ha_message :: string

text \<open>A \<open>Health{State: s, FailureClass: c, Message: m}\<close> literal: the other fields are zero.\<close>

definition health_of :: "HealthState \<Rightarrow> FailureClass \<Rightarrow> string \<Rightarrow> Health" where
  "health_of s c m =
     \<lparr>h_state = s, h_failure = c, h_checked_at = zero_time, h_duration = 0, h_message = m\<rparr>"

lemma health_of_simps [simp]:
  "h_state (health_of s c m) = s" "h_failure (health_of s c m) = c"
  "h_checked_at (health_of s c m) = zero_time" "h_duration (health_of s c m) = 0"
  "h_message (health_of s c m) = m"
  by (simp_all add: health_of_def)

section \<open>Readiness policies\<close>

definition normalizeReadinessPolicy :: "ReadinessPolicy \<Rightarrow> ReadinessPolicy" where
  "normalizeReadinessPolicy policy = (if policy = ReadinessUnset then ReadinessOptional else policy)"

datatype readiness_error = InvalidReadinessPolicy ReadinessPolicy

definition validateReadinessPolicy :: "ReadinessPolicy \<Rightarrow> readiness_error option" where
  "validateReadinessPolicy policy = (case normalizeReadinessPolicy policy of
     ReadinessRequired \<Rightarrow> None | ReadinessOptional \<Rightarrow> None | ReadinessDegradedAllowed \<Rightarrow> None
   | ReadinessInformational \<Rightarrow> None
   | _ \<Rightarrow> Some (InvalidReadinessPolicy policy))"

definition BlocksReadiness :: "ReadinessPolicy \<Rightarrow> bool" where
  "BlocksReadiness policy = (case normalizeReadinessPolicy policy of
     ReadinessRequired \<Rightarrow> True | ReadinessDegradedAllowed \<Rightarrow> True | _ \<Rightarrow> False)"

definition participatesInReadiness :: "ReadinessPolicy \<Rightarrow> bool" where
  "participatesInReadiness policy \<longleftrightarrow> normalizeReadinessPolicy policy \<noteq> ReadinessInformational"

definition readinessSatisfied :: "ReadinessPolicy \<Rightarrow> HealthState \<Rightarrow> bool" where
  "readinessSatisfied policy state = (case normalizeReadinessPolicy policy of
     ReadinessOptional \<Rightarrow> True
   | ReadinessInformational \<Rightarrow> True
   | ReadinessRequired \<Rightarrow> state = HealthHealthy
   | ReadinessDegradedAllowed \<Rightarrow> state = HealthHealthy \<or> state = HealthDegraded
   | _ \<Rightarrow> False)"

definition IsReady :: "Health \<Rightarrow> ReadinessPolicy \<Rightarrow> bool" where
  "IsReady h policy = readinessSatisfied policy (h_state h)"

definition IsHealthy :: "Health \<Rightarrow> bool" where
  "IsHealthy h \<longleftrightarrow> h_state h = HealthHealthy"

lemmas readiness_defs = normalizeReadinessPolicy_def validateReadinessPolicy_def
  BlocksReadiness_def participatesInReadiness_def readinessSatisfied_def

lemma normalize_idem [simp]:
  "normalizeReadinessPolicy (normalizeReadinessPolicy p) = normalizeReadinessPolicy p"
  by (simp add: normalizeReadinessPolicy_def)

lemma normalized_policy [simp]:
  "BlocksReadiness (normalizeReadinessPolicy p) = BlocksReadiness p"
  "participatesInReadiness (normalizeReadinessPolicy p) = participatesInReadiness p"
  "readinessSatisfied (normalizeReadinessPolicy p) s = readinessSatisfied p s"
  "(validateReadinessPolicy (normalizeReadinessPolicy p) = None) = (validateReadinessPolicy p = None)"
  by (simp_all add: readiness_defs split: ReadinessPolicy.split)

lemma blocking_participates: "BlocksReadiness p \<Longrightarrow> participatesInReadiness p"
  by (auto simp: readiness_defs split: ReadinessPolicy.splits)

lemma healthy_satisfies_valid:
  "validateReadinessPolicy p = None \<Longrightarrow> readinessSatisfied p HealthHealthy"
  by (auto simp: readiness_defs split: ReadinessPolicy.splits)

lemma not_blocking_satisfied:
  "validateReadinessPolicy p = None \<Longrightarrow> \<not> BlocksReadiness p \<Longrightarrow> readinessSatisfied p s"
  by (auto simp: readiness_defs split: ReadinessPolicy.splits)

section \<open>The bounded message\<close>

definition DefaultMaxHealthMessageBytes :: nat where
  "DefaultMaxHealthMessageBytes = 256"

text \<open>\<open>unicode.IsControl\<close>, and the format characters \<open>unicode.Cf\<close> of Unicode 15.\<close>

definition is_control :: "rune \<Rightarrow> bool" where
  "is_control r \<longleftrightarrow> r < 32 \<or> (127 \<le> r \<and> r < 160)"

definition cf_ranges :: "(rune \<times> rune) list" where
  "cf_ranges =
     [(173, 173), (1536, 1541), (1564, 1564), (1757, 1757), (1807, 1807), (2192, 2193),
      (2274, 2274), (6158, 6158), (8203, 8207), (8234, 8238), (8288, 8292), (8294, 8303),
      (65279, 65279), (65529, 65531), (69821, 69821), (69837, 69837), (78896, 78911),
      (113824, 113827), (119155, 119162), (917505, 917505), (917536, 917631)]"

definition is_format :: "rune \<Rightarrow> bool" where
  "is_format r \<longleftrightarrow> list_ex (\<lambda>(lo, hi). lo \<le> r \<and> r \<le> hi) cf_ranges"

text \<open>None is the negative result, which drops the rune.\<close>

definition sanitizeHealthMessageRune :: "rune \<Rightarrow> rune option" where
  "sanitizeHealthMessageRune value =
     (if is_control value \<or> is_format value \<or> value = 8232 \<or> value = 8233 then None else Some value)"

text \<open>The loop that drops trailing runes of a short message that grew by replacement characters.\<close>

function drop_last_runes :: "string \<Rightarrow> string" where
  "drop_last_runes message =
     (if DefaultMaxHealthMessageBytes < length message
      then if snd (decode_last_rune message) \<le> 0 then []
           else drop_last_runes (take (length message - snd (decode_last_rune message)) message)
      else message)"
  by pat_completeness auto
termination
  by (relation "measure length") auto

declare drop_last_runes.simps [simp del]

text \<open>The loop over the runes of a long message, \<open>bounded\<close> being the builder.\<close>

fun bounded_loop :: "rune list \<Rightarrow> string \<Rightarrow> string" where
  "bounded_loop [] bounded = bounded"
| "bounded_loop (value # rest) bounded =
     (case sanitizeHealthMessageRune value of
        None \<Rightarrow> bounded_loop rest bounded
      | Some v \<Rightarrow>
          if rune_len v \<le> 0 \<or> int (length bounded) + rune_len v > int DefaultMaxHealthMessageBytes
          then bounded
          else bounded_loop rest (bounded @ encode_rune v))"

definition boundedHealthMessage :: "string \<Rightarrow> string" where
  "boundedHealthMessage message =
     (if length message \<le> DefaultMaxHealthMessageBytes
      then drop_last_runes (map_string sanitizeHealthMessageRune message)
      else bounded_loop (runes message) [])"

text \<open>The specification: as many of the visible runes as fit in the limit.\<close>

definition visible :: "rune \<Rightarrow> bool" where
  "visible r \<longleftrightarrow> sanitizeHealthMessageRune r \<noteq> None"

fun fit :: "nat \<Rightarrow> rune list \<Rightarrow> rune list" where
  "fit n [] = []"
| "fit n (r # rs) =
     (if length (encode_rune r) \<le> n then r # fit (n - length (encode_rune r)) rs else [])"

lemma sanitize_rune_visible: "sanitizeHealthMessageRune r = (if visible r then Some r else None)"
  by (simp add: visible_def sanitizeHealthMessageRune_def)

lemma map_filter_visible: "List.map_filter sanitizeHealthMessageRune rs = filter visible rs"
  by (induction rs) (simp_all add: List.map_filter_simps sanitize_rune_visible)

lemma fit_all: "length (encode_runes rs) \<le> n \<Longrightarrow> fit n rs = rs"
  by (induction rs arbitrary: n) auto

lemma fit_snoc: "n < length (encode_runes (rs @ [r])) \<Longrightarrow> fit n (rs @ [r]) = fit n rs"
  by (induction rs arbitrary: n) auto

lemma fit_length: "length (encode_runes (fit n rs)) \<le> n"
proof (induction rs arbitrary: n)
  case (Cons r rs)
  from Cons.IH [of "n - length (encode_rune r)"] show ?case by auto
qed simp

lemma fit_set: "set (fit n rs) \<subseteq> set rs"
  by (induction rs arbitrary: n) auto

lemma drop_last_runes_fit:
  "list_all scalar rs \<Longrightarrow>
   drop_last_runes (encode_runes rs) = encode_runes (fit DefaultMaxHealthMessageBytes rs)"
proof (induction rs rule: rev_induct)
  case Nil
  then show ?case by (simp add: drop_last_runes.simps)
next
  case (snoc r rs)
  show ?case
  proof (cases "DefaultMaxHealthMessageBytes < length (encode_runes (rs @ [r]))")
    case True
    have "decode_last_rune (encode_runes rs @ encode_rune r) = (r, length (encode_rune r))"
      using snoc.prems by (intro decode_last_encode) simp
    moreover have "length (encode_rune r) \<noteq> 0" by simp
    ultimately have "drop_last_runes (encode_runes (rs @ [r])) = drop_last_runes (encode_runes rs)"
      using True by (subst drop_last_runes.simps) simp
    with snoc True show ?thesis by (simp add: fit_snoc)
  next
    case False
    then show ?thesis by (subst drop_last_runes.simps) (simp add: fit_all)
  qed
qed

lemma bounded_loop_fit:
  "list_all scalar rs \<Longrightarrow> length b \<le> DefaultMaxHealthMessageBytes \<Longrightarrow>
   bounded_loop rs b =
     b @ encode_runes (fit (DefaultMaxHealthMessageBytes - length b) (filter visible rs))"
proof (induction rs arbitrary: b)
  case Nil
  then show ?case by simp
next
  case (Cons r rs)
  have len: "rune_len r = int (length (encode_rune r))" "length (encode_rune r) \<noteq> 0"
    using Cons.prems(1) by (simp_all add: rune_len_def)
  show ?case
    using Cons len by (cases "visible r") (auto simp: sanitize_rune_visible)
qed

lemma boundedHealthMessage_fit:
  "boundedHealthMessage m =
     encode_runes (fit DefaultMaxHealthMessageBytes (filter visible (runes m)))"
proof -
  have "list_all scalar (filter visible (runes m))"
    using runes_scalar [of m] by (auto simp: list_all_iff)
  then show ?thesis
    using drop_last_runes_fit bounded_loop_fit [OF runes_scalar, of "[]" m]
    by (simp add: boundedHealthMessage_def map_string_def map_filter_visible)
qed

lemma runes_bounded:
  "runes (boundedHealthMessage m) = fit DefaultMaxHealthMessageBytes (filter visible (runes m))"
proof -
  have "list_all scalar (fit DefaultMaxHealthMessageBytes (filter visible (runes m)))"
    using fit_set [of _ "filter visible (runes m)"] runes_scalar [of m] by (auto simp: list_all_iff)
  then show ?thesis by (simp add: boundedHealthMessage_fit runes_encode)
qed

lemma bounded_message_length: "length (boundedHealthMessage m) \<le> DefaultMaxHealthMessageBytes"
  by (simp add: boundedHealthMessage_fit fit_length)

lemma bounded_message_visible: "list_all visible (runes (boundedHealthMessage m))"
  using fit_set [of _ "filter visible (runes m)"] by (auto simp: runes_bounded list_all_iff)

lemma filter_all: "list_all P xs \<Longrightarrow> filter P xs = xs"
  by (induction xs) auto

lemma bounded_message_idem: "boundedHealthMessage (boundedHealthMessage m) = boundedHealthMessage m"
proof -
  have "filter visible (runes (boundedHealthMessage m)) = runes (boundedHealthMessage m)"
    by (rule filter_all) (rule bounded_message_visible)
  then show ?thesis
    unfolding boundedHealthMessage_fit [of "boundedHealthMessage m"]
    by (simp add: runes_bounded fit_length fit_all) (simp add: boundedHealthMessage_fit)
qed

section \<open>Sanitizers\<close>

type_synonym HealthSanitizer = "string \<Rightarrow> Health \<Rightarrow> Health call"

definition sanitize_state :: "Health \<Rightarrow> Health" where
  "sanitize_state health = (case h_state health of
     HealthOther _ \<Rightarrow> health\<lparr>h_state := HealthUnknown, h_failure := FailurePolicy,
                             h_message := ''client health state unavailable''\<rparr>
   | _ \<Rightarrow> health)"

definition sanitize_class :: "Health \<Rightarrow> Health" where
  "sanitize_class health =
     (if h_state health = HealthHealthy then health\<lparr>h_failure := FailureNone\<rparr>
      else if \<not> validFailureClass (h_failure health) then health\<lparr>h_failure := FailurePolicy\<rparr>
      else health)"

definition DefaultHealthSanitizer :: HealthSanitizer where
  "DefaultHealthSanitizer _ health =
     (let health = sanitize_class (sanitize_state health);
          health = (if is_zero (h_checked_at health) then health
                    else health\<lparr>h_checked_at := to_utc (h_checked_at health)\<rparr>);
          health = (if h_duration health < 0 then health\<lparr>h_duration := 0\<rparr> else health)
      in Returned (health\<lparr>h_message := boundedHealthMessage (h_message health)\<rparr>))"

definition sanitizer_failed :: Health where
  "sanitizer_failed = health_of HealthUnknown FailurePolicy ''client health sanitizer failed''"

definition sanitizeHealthSafelyWithPanic ::
  "string \<Rightarrow> Health \<Rightarrow> HealthSanitizer option \<Rightarrow> bool \<Rightarrow> Health \<times> bool" where
  "sanitizeHealthSafelyWithPanic name health sanitizer disabled =
     (let sanitizer = (if sanitizer = None \<and> \<not> disabled then Some DefaultHealthSanitizer else sanitizer)
      in case sanitizer of
           None \<Rightarrow> (health, False)
         | Some s \<Rightarrow> (case s name health of
             Returned h \<Rightarrow> (h, False)
           | Panicked \<Rightarrow> (sanitizer_failed, True)))"

definition sanitizeHealthSafely :: "string \<Rightarrow> Health \<Rightarrow> HealthSanitizer option \<Rightarrow> bool \<Rightarrow> Health" where
  "sanitizeHealthSafely name health sanitizer disabled =
     fst (sanitizeHealthSafelyWithPanic name health sanitizer disabled)"

text \<open>What every operational surface may rely on.\<close>

definition valid_utf8 :: "string \<Rightarrow> bool" where
  "valid_utf8 s \<longleftrightarrow> encode_runes (runes s) = s"

definition publishable :: "Health \<Rightarrow> bool" where
  "publishable h \<longleftrightarrow>
     h_state h \<in> {HealthUnknown, HealthHealthy, HealthDegraded, HealthUnhealthy} \<and>
     validFailureClass (h_failure h) \<and>
     (h_state h = HealthHealthy \<longrightarrow> h_failure h = FailureNone) \<and>
     (is_zero (h_checked_at h) \<or> zone (h_checked_at h) = UTC) \<and>
     0 \<le> h_duration h \<and>
     length (h_message h) \<le> DefaultMaxHealthMessageBytes \<and>
     list_all visible (runes (h_message h)) \<and>
     valid_utf8 (h_message h)"

lemma visible_ascii: "list_all (\<lambda>c. 32 \<le> byte c \<and> byte c < 127) s \<Longrightarrow> list_all visible (runes s)"
proof (induction s)
  case (Cons c s)
  then have "decode_rune (c # s) = (byte c, 1)" by simp
  moreover have "visible (byte c)"
    using Cons.prems by (simp add: visible_def sanitizeHealthMessageRune_def is_control_def
        is_format_def cf_ranges_def)
  ultimately show ?case using Cons by (subst runes.simps) simp
qed simp

lemma valid_utf8_ascii: "list_all (\<lambda>c. 32 \<le> byte c \<and> byte c < 127) s \<Longrightarrow> valid_utf8 s"
  unfolding valid_utf8_def
proof (induction s)
  case (Cons c s)
  then have "decode_rune (c # s) = (byte c, 1)" by simp
  moreover have "encode_rune (byte c) = [c]"
    using Cons.prems by (simp add: encode_rune_def encode_scalar_def scalar_def)
  ultimately show ?case using Cons by (subst runes.simps) simp
qed simp

lemma valid_utf8_bounded: "valid_utf8 (boundedHealthMessage m)"
  unfolding valid_utf8_def runes_bounded by (simp add: boundedHealthMessage_fit)

lemma bounded_message_fixed:
  "length m \<le> DefaultMaxHealthMessageBytes \<Longrightarrow> list_all visible (runes m) \<Longrightarrow> valid_utf8 m \<Longrightarrow>
   boundedHealthMessage m = m"
  by (simp add: boundedHealthMessage_fit filter_all fit_all valid_utf8_def)

definition plain_text :: "string \<Rightarrow> bool" where
  "plain_text s \<longleftrightarrow> list_all (\<lambda>c. 32 \<le> byte c \<and> byte c < 127) s \<and> length s \<le> DefaultMaxHealthMessageBytes"

lemma publishable_plain:
  "s \<in> {HealthUnknown, HealthDegraded, HealthUnhealthy} \<Longrightarrow> validFailureClass c \<Longrightarrow> plain_text m \<Longrightarrow>
   is_zero t \<or> zone t = UTC \<Longrightarrow> 0 \<le> d \<Longrightarrow>
   publishable \<lparr>h_state = s, h_failure = c, h_checked_at = t, h_duration = d, h_message = m\<rparr>"
  by (auto simp: publishable_def plain_text_def visible_ascii valid_utf8_ascii)

lemma sanitizer_failed_publishable: "publishable sanitizer_failed"
  unfolding sanitizer_failed_def health_of_def
  by (rule publishable_plain)
    (simp_all add: validFailureClass_def plain_text_def DefaultMaxHealthMessageBytes_def
      is_zero_def zero_time_def)

lemma DefaultHealthSanitizer_publishable:
  assumes "DefaultHealthSanitizer n h = Returned h'"
  shows "publishable h'"
proof -
  have "h_state h' \<in> {HealthUnknown, HealthHealthy, HealthDegraded, HealthUnhealthy}"
    and "validFailureClass (h_failure h')"
    and "h_state h' = HealthHealthy \<Longrightarrow> h_failure h' = FailureNone"
    and "is_zero (h_checked_at h') \<or> zone (h_checked_at h') = UTC" and "0 \<le> h_duration h'"
    using assms
    by (auto simp: DefaultHealthSanitizer_def Let_def sanitize_state_def sanitize_class_def
        validFailureClass_def time_defs split: HealthState.splits if_splits)
  moreover obtain m where "h_message h' = boundedHealthMessage m"
    using assms by (auto simp: DefaultHealthSanitizer_def Let_def)
  ultimately show ?thesis
    by (simp add: publishable_def bounded_message_length bounded_message_visible valid_utf8_bounded)
qed

lemma publishable_fixed:
  assumes "publishable h"
  shows "DefaultHealthSanitizer n h = Returned h"
proof -
  have "sanitize_state h = h" and "sanitize_class h = h"
    using assms by (auto simp: publishable_def sanitize_state_def sanitize_class_def)
  moreover have "boundedHealthMessage (h_message h) = h_message h"
    using assms by (simp add: publishable_def bounded_message_fixed)
  moreover have "is_zero (h_checked_at h) \<or> to_utc (h_checked_at h) = h_checked_at h"
    using assms to_utc_id unfolding publishable_def by blast
  moreover have "\<not> h_duration h < 0"
    using assms by (simp add: publishable_def)
  ultimately show ?thesis
    by (auto simp: DefaultHealthSanitizer_def Let_def)
qed

text \<open>
  The interface between a sanitizer and the client and registry surfaces: whatever it returns is
  publishable. A surface that contains its panics then only ever shows publishable health.
\<close>

locale sanitizer =
  fixes san :: HealthSanitizer
  assumes san_publishable: "san n h = Returned h' \<Longrightarrow> publishable h'"
begin

lemma contained_publishable: "publishable (sanitizeHealthSafely n h (Some san) d)"
  by (auto simp: sanitizeHealthSafely_def sanitizeHealthSafelyWithPanic_def Let_def
      sanitizer_failed_publishable dest: san_publishable split: call.split)

lemma contained_panic_flag:
  "sanitizeHealthSafelyWithPanic n h (Some san) d = (h', p) \<Longrightarrow> p \<longleftrightarrow> san n h = Panicked"
  by (auto simp: sanitizeHealthSafelyWithPanic_def Let_def split: call.splits)

end

interpretation default_san: sanitizer DefaultHealthSanitizer
  by unfold_locales (rule DefaultHealthSanitizer_publishable)

text \<open>No sanitizer configured and none disabled: the default applies.\<close>

lemma sanitize_none_default:
  "sanitizeHealthSafelyWithPanic n h None False =
   sanitizeHealthSafelyWithPanic n h (Some DefaultHealthSanitizer) False"
  by (simp add: sanitizeHealthSafelyWithPanic_def Let_def)

lemma sanitize_disabled [simp]: "sanitizeHealthSafely n h None True = h"
  by (simp add: sanitizeHealthSafely_def sanitizeHealthSafelyWithPanic_def)

end
