(* ===== verification/Ck_Observer.thy ===== *)
theory Ck_Observer
  imports Ck_Health
begin

text \<open>
  \<open>observer.go\<close>: the lifecycle events, the no-op, panic-containing and composed observers, and
  their operation observations. Attribute slices are modelled with their backing arrays in an
  explicit memory, because the containment contract is about aliasing: an observer may keep and
  overwrite every slice it was ever handed, at any later callback. Caller-supplied observers are a
  parameter: their result may depend on the whole history of deliveries, and may be a panic.
\<close>

section \<open>Attributes and memory\<close>

text \<open>\<open>opskit.Attribute\<close> is a key and a value.\<close>

type_synonym attribute = "string \<times> string"

datatype slice = NilSlice | SliceAt nat

record memory =
  cells :: "nat \<Rightarrow> attribute list"
  next_cell :: nat
  handed :: "nat list"  \<comment> \<open>backing arrays some caller-supplied observer has been given\<close>

definition read_slice :: "memory \<Rightarrow> slice \<Rightarrow> attribute list" where
  "read_slice m s = (case s of NilSlice \<Rightarrow> [] | SliceAt a \<Rightarrow> cells m a)"

definition alloc :: "memory \<Rightarrow> attribute list \<Rightarrow> slice \<times> memory" where
  "alloc m xs = (SliceAt (next_cell m),
     m\<lparr>cells := (cells m)(next_cell m := xs), next_cell := Suc (next_cell m)\<rparr>)"

definition cloneObserverAttributes :: "slice \<Rightarrow> memory \<Rightarrow> slice \<times> memory" where
  "cloneObserverAttributes attributes m = (case attributes of
     NilSlice \<Rightarrow> (NilSlice, m)
   | SliceAt a \<Rightarrow> alloc m (cells m a))"

section \<open>Events\<close>

datatype OperationKind = OperationKindLogical | OperationKindRemote

text \<open>The events are polymorphic in how attributes are held: as values, or as slices in memory.\<close>

record 'a OperationStartEvent =
  os_kind :: OperationKind
  os_client :: string
  os_protocol :: string
  os_operation :: string
  os_started_at :: gotime
  os_attributes :: 'a

record 'a OperationEndEvent =
  oe_client :: string
  oe_protocol :: string
  oe_operation :: string
  oe_started_at :: gotime
  oe_ended_at :: gotime
  oe_duration :: duration
  oe_attempts :: int
  oe_outcome :: string
  oe_succeeded :: bool
  oe_failure :: FailureClass
  oe_err :: "goerr option"
  oe_attributes :: 'a

record 'a AttemptEvent =
  ae_client :: string
  ae_protocol :: string
  ae_operation :: string
  ae_number :: int
  ae_started_at :: gotime
  ae_ended_at :: gotime
  ae_duration :: duration
  ae_outcome :: string
  ae_succeeded :: bool
  ae_failure :: FailureClass
  ae_err :: "goerr option"
  ae_attributes :: 'a

record 'a RetryEvent =
  re_client :: string
  re_protocol :: string
  re_operation :: string
  re_after_attempt :: int
  re_at :: gotime
  re_delay :: duration
  re_cause :: string
  re_failure :: FailureClass
  re_attributes :: 'a

record 'a HealthEvent =
  he_client :: string
  he_protocol :: string
  he_state :: HealthState
  he_failure :: FailureClass
  he_checked_at :: gotime
  he_duration :: duration
  he_message :: string
  he_attributes :: 'a

text \<open>The argument of an observer callback, by method.\<close>

datatype 'a event =
    StartOperationEvent "'a OperationStartEvent"
  | ObserveAttemptEvent "'a AttemptEvent"
  | ObserveRetryEvent "'a RetryEvent"
  | ObserveHealthEvent "'a HealthEvent"
  | EndEvent "'a OperationEndEvent"

fun event_attributes :: "'a event \<Rightarrow> 'a" where
  "event_attributes (StartOperationEvent e) = os_attributes e"
| "event_attributes (ObserveAttemptEvent e) = ae_attributes e"
| "event_attributes (ObserveRetryEvent e) = re_attributes e"
| "event_attributes (ObserveHealthEvent e) = he_attributes e"
| "event_attributes (EndEvent e) = oe_attributes e"

text \<open>The same event with its attributes held differently.\<close>

definition start_with :: "'b \<Rightarrow> 'a OperationStartEvent \<Rightarrow> 'b OperationStartEvent" where
  "start_with x e = \<lparr>os_kind = os_kind e, os_client = os_client e, os_protocol = os_protocol e,
     os_operation = os_operation e, os_started_at = os_started_at e, os_attributes = x\<rparr>"

definition end_with :: "'b \<Rightarrow> 'a OperationEndEvent \<Rightarrow> 'b OperationEndEvent" where
  "end_with x e = \<lparr>oe_client = oe_client e, oe_protocol = oe_protocol e,
     oe_operation = oe_operation e, oe_started_at = oe_started_at e, oe_ended_at = oe_ended_at e,
     oe_duration = oe_duration e, oe_attempts = oe_attempts e, oe_outcome = oe_outcome e,
     oe_succeeded = oe_succeeded e, oe_failure = oe_failure e, oe_err = oe_err e, oe_attributes = x\<rparr>"

definition attempt_with :: "'b \<Rightarrow> 'a AttemptEvent \<Rightarrow> 'b AttemptEvent" where
  "attempt_with x e = \<lparr>ae_client = ae_client e, ae_protocol = ae_protocol e,
     ae_operation = ae_operation e, ae_number = ae_number e, ae_started_at = ae_started_at e,
     ae_ended_at = ae_ended_at e, ae_duration = ae_duration e, ae_outcome = ae_outcome e,
     ae_succeeded = ae_succeeded e, ae_failure = ae_failure e, ae_err = ae_err e, ae_attributes = x\<rparr>"

definition retry_with :: "'b \<Rightarrow> 'a RetryEvent \<Rightarrow> 'b RetryEvent" where
  "retry_with x e = \<lparr>re_client = re_client e, re_protocol = re_protocol e,
     re_operation = re_operation e, re_after_attempt = re_after_attempt e, re_at = re_at e,
     re_delay = re_delay e, re_cause = re_cause e, re_failure = re_failure e, re_attributes = x\<rparr>"

definition health_with :: "'b \<Rightarrow> 'a HealthEvent \<Rightarrow> 'b HealthEvent" where
  "health_with x e = \<lparr>he_client = he_client e, he_protocol = he_protocol e, he_state = he_state e,
     he_failure = he_failure e, he_checked_at = he_checked_at e, he_duration = he_duration e,
     he_message = he_message e, he_attributes = x\<rparr>"

fun event_with :: "'b \<Rightarrow> 'a event \<Rightarrow> 'b event" where
  "event_with x (StartOperationEvent e) = StartOperationEvent (start_with x e)"
| "event_with x (ObserveAttemptEvent e) = ObserveAttemptEvent (attempt_with x e)"
| "event_with x (ObserveRetryEvent e) = ObserveRetryEvent (retry_with x e)"
| "event_with x (ObserveHealthEvent e) = ObserveHealthEvent (health_with x e)"
| "event_with x (EndEvent e) = EndEvent (end_with x e)"

text \<open>\<open>cloneOperationStartEvent\<close>, \<open>cloneAttemptEvent\<close>, \<open>cloneRetryEvent\<close>, \<open>cloneHealthEvent\<close> and
  \<open>cloneOperationEndEvent\<close>, which differ in the event type only.\<close>

definition clone_event :: "slice event \<Rightarrow> memory \<Rightarrow> slice event \<times> memory" where
  "clone_event event m =
     (let (attributes, m') = cloneObserverAttributes (event_attributes event) m
      in (event_with attributes event, m'))"

text \<open>The values a callback can read from the event it is handed.\<close>

definition event_values :: "memory \<Rightarrow> slice event \<Rightarrow> attribute list event" where
  "event_values m event = event_with (read_slice m (event_attributes event)) event"

lemma event_with_simps [simp]:
  "event_attributes (event_with x e) = x"
  "event_with y (event_with x e) = event_with y e"
  by (cases e; simp add: start_with_def end_with_def attempt_with_def retry_with_def health_with_def)+

section \<open>Observers\<close>

text \<open>
  The dynamic types behind the \<open>Observer\<close> and \<open>OperationObservation\<close> interfaces; a caller's own
  types are identified by a number.
\<close>

datatype observer =
    NopObserver | SafeObs observer | MultiObs "observer list" | UserObserver nat

datatype observation =
    NopOperationObservation
  | SafeObservation observation
  | MultiObservation "observation list"
  | FuncObservation "nat option"  \<comment> \<open>\<open>OperationObservationFunc\<close>; None is the nil function\<close>
  | UserObservation nat

type_synonym history = "(nat \<times> attribute list event) list"

record world =
  mem :: memory
  log :: history  \<comment> \<open>deliveries to caller-supplied code, oldest first\<close>

text \<open>
  Caller-supplied observers: what \<open>StartOperation\<close> returns (a context that may be nil, an
  observation that may be nil) or a panic; whether another callback panics; and what the callback
  leaves in the arrays it has been handed. Each may depend on the history.
\<close>

record 'c user_code =
  on_start :: "history \<Rightarrow> nat \<Rightarrow> 'c \<Rightarrow> ('c option \<times> observation option) call"
  on_event :: "history \<Rightarrow> nat \<Rightarrow> unit call"
  scribble :: "history \<Rightarrow> nat \<Rightarrow> attribute list"

definition hand_over :: "slice \<Rightarrow> memory \<Rightarrow> memory" where
  "hand_over s m = (case s of NilSlice \<Rightarrow> m | SliceAt a \<Rightarrow> m\<lparr>handed := a # handed m\<rparr>)"

text \<open>One callback of caller code \<open>i\<close>: the delivery is logged, and every array handed out so far
  may hold anything afterwards.\<close>

definition deliver :: "'c user_code \<Rightarrow> nat \<Rightarrow> slice event \<Rightarrow> world \<Rightarrow> world" where
  "deliver u i event w =
     (let m = hand_over (event_attributes event) (mem w);
          h = log w @ [(i, event_values (mem w) event)]
      in \<lparr>mem = m\<lparr>cells := (\<lambda>a. if a \<in> set (handed m) then scribble u h a else cells m a)\<rparr>,
          log = h\<rparr>)"

type_synonym 'c start_method =
  "'c \<Rightarrow> slice OperationStartEvent \<Rightarrow> world \<Rightarrow> ('c option \<times> observation option) call \<times> world"

type_synonym event_method = "slice event \<Rightarrow> world \<Rightarrow> unit call \<times> world"

text \<open>\<open>startOperationSafely\<close>: \<open>start\<close> is the observer's method.\<close>

definition startOperationSafely ::
  "'c start_method \<Rightarrow> 'c \<Rightarrow> slice OperationStartEvent \<Rightarrow> world
   \<Rightarrow> ('c \<times> observation option \<times> bool) \<times> world" where
  "startOperationSafely start ctx event w =
     (let (attributes, m) = cloneObserverAttributes (os_attributes event) (mem w);
          (r, w') = start ctx (start_with attributes event) (w\<lparr>mem := m\<rparr>)
      in case r of
           Panicked \<Rightarrow> ((ctx, None, False), w')
         | Returned (returnedContext, observation) \<Rightarrow>
             ((case returnedContext of None \<Rightarrow> ctx | Some c \<Rightarrow> c, observation, True), w'))"

text \<open>\<open>observeAttemptSafely\<close>, \<open>observeRetrySafely\<close>, \<open>observeHealthSafely\<close>, \<open>endOperationSafely\<close>.\<close>

definition observe_safely :: "event_method \<Rightarrow> slice event \<Rightarrow> world \<Rightarrow> world" where
  "observe_safely callback event w =
     (let (event', m) = clone_event event (mem w) in snd (callback event' (w\<lparr>mem := m\<rparr>)))"

text \<open>The loop of \<open>multiObserver.StartOperation\<close> over the observers' methods.\<close>

fun multi_start ::
  "'c start_method list \<Rightarrow> 'c \<Rightarrow> slice OperationStartEvent \<Rightarrow> observation list \<Rightarrow> world
   \<Rightarrow> ('c \<times> observation list) \<times> world" where
  "multi_start [] current event observations w = ((current, observations), w)"
| "multi_start (start # rest) current event observations w =
     (let ((next, observation, ok), w') = startOperationSafely start current event w
      in if \<not> ok then multi_start rest current event observations w'
         else (case observation of
                 None \<Rightarrow> multi_start rest next event observations w'
               | Some x \<Rightarrow> multi_start rest next event (observations @ [x]) w'))"

fun StartOperation :: "'c user_code \<Rightarrow> observer \<Rightarrow> 'c start_method" where
  "StartOperation u NopObserver = (\<lambda>ctx event w. (Returned (Some ctx, Some NopOperationObservation), w))"
| "StartOperation u (UserObserver i) = (\<lambda>ctx event w.
     (on_start u (log w) i ctx, deliver u i (StartOperationEvent event) w))"
| "StartOperation u (SafeObs o') = (\<lambda>ctx event w.
     let ((next, observation, ok), w') = startOperationSafely (StartOperation u o') ctx event w
     in if \<not> ok then (Returned (Some ctx, Some NopOperationObservation), w')
        else (Returned (Some next, Some (SafeObservation
                (case observation of None \<Rightarrow> NopOperationObservation | Some x \<Rightarrow> x))), w'))"
| "StartOperation u (MultiObs os) = (\<lambda>ctx event w.
     let ((current, observations), w') = multi_start (map (\<lambda>o'. StartOperation u o') os) ctx event [] w
     in (Returned (Some current,
           Some (if observations = [] then NopOperationObservation else MultiObservation observations)), w'))"

definition observe_all :: "event_method list \<Rightarrow> slice event \<Rightarrow> world \<Rightarrow> world" where
  "observe_all ms event w = foldl (\<lambda>w callback. observe_safely callback event w) w ms"

text \<open>\<open>ObserveAttempt\<close>, \<open>ObserveRetry\<close> and \<open>ObserveHealth\<close> of each observer type.\<close>

fun Observe :: "'c user_code \<Rightarrow> observer \<Rightarrow> event_method" where
  "Observe u NopObserver = (\<lambda>event w. (Returned (), w))"
| "Observe u (UserObserver i) = (\<lambda>event w. (on_event u (log w) i, deliver u i event w))"
| "Observe u (SafeObs o') = (\<lambda>event w. (Returned (), observe_safely (Observe u o') event w))"
| "Observe u (MultiObs os) = (\<lambda>event w.
     (Returned (), observe_all (map (\<lambda>o'. Observe u o') os) event w))"

text \<open>\<open>End\<close> of each observation type; a composed observation ends its parts in reverse order.\<close>

fun End :: "'c user_code \<Rightarrow> observation \<Rightarrow> event_method" where
  "End u NopOperationObservation = (\<lambda>event w. (Returned (), w))"
| "End u (FuncObservation fn) = (\<lambda>event w. (case fn of
     None \<Rightarrow> (Returned (), w) | Some i \<Rightarrow> (on_event u (log w) i, deliver u i event w)))"
| "End u (UserObservation i) = (\<lambda>event w. (on_event u (log w) i, deliver u i event w))"
| "End u (SafeObservation x) = (\<lambda>event w. (Returned (), observe_safely (End u x) event w))"
| "End u (MultiObservation xs) = (\<lambda>event w.
     (Returned (), observe_all (rev (map (\<lambda>x. End u x) xs)) event w))"

definition SafeObserver :: "observer option \<Rightarrow> observer" where
  "SafeObserver observer = (case observer of
     None \<Rightarrow> NopObserver
   | Some NopObserver \<Rightarrow> NopObserver
   | Some (SafeObs o') \<Rightarrow> SafeObs o'
   | Some (MultiObs os) \<Rightarrow> MultiObs os
   | Some (UserObserver i) \<Rightarrow> SafeObs (UserObserver i))"

definition MultiObserver :: "observer option list \<Rightarrow> observer" where
  "MultiObserver observers =
     (let usable = List.map_filter (\<lambda>x. x) observers
      in case usable of
           [] \<Rightarrow> NopObserver
         | [x] \<Rightarrow> SafeObserver (Some x)
         | _ \<Rightarrow> MultiObs usable)"

section \<open>Aliasing: what a callback can reach\<close>

definition slice_cells :: "slice \<Rightarrow> nat set" where
  "slice_cells s = (case s of NilSlice \<Rightarrow> {} | SliceAt a \<Rightarrow> {a})"

definition wf_memory :: "memory \<Rightarrow> bool" where
  "wf_memory m \<longleftrightarrow> (\<forall>a \<in> set (handed m). a < next_cell m)"

text \<open>A slice whose array exists and was never given to caller code.\<close>

definition private_slice :: "slice \<Rightarrow> memory \<Rightarrow> bool" where
  "private_slice s m \<longleftrightarrow> (\<forall>a \<in> slice_cells s. a < next_cell m \<and> a \<notin> set (handed m))"

text \<open>From \<open>m\<close> to \<open>m'\<close>, of the existing arrays only those of \<open>s\<close> were handed out, and only
  arrays handed out before or those of \<open>s\<close> changed.\<close>

definition frame :: "slice \<Rightarrow> memory \<Rightarrow> memory \<Rightarrow> bool" where
  "frame s m m' \<longleftrightarrow> wf_memory m' \<and> next_cell m \<le> next_cell m' \<and>
     set (handed m') \<subseteq> set (handed m) \<union> slice_cells s \<union> {next_cell m..} \<and>
     (\<forall>a < next_cell m. a \<notin> set (handed m) \<union> slice_cells s \<longrightarrow> cells m' a = cells m a)"

lemma slice_cells_simps [simp]:
  "slice_cells NilSlice = {}" "slice_cells (SliceAt a) = {a}"
  by (simp_all add: slice_cells_def)

lemma frame_refl: "wf_memory m \<Longrightarrow> frame s m m"
  by (auto simp: frame_def)

lemma frame_trans_Nil:
  assumes "frame NilSlice m m1" "frame NilSlice m1 m2"
  shows "frame NilSlice m m2"
proof -
  have "cells m2 a = cells m a" if "a < next_cell m" "a \<notin> set (handed m)" for a
  proof -
    have "a \<notin> set (handed m1)" and "a < next_cell m1"
      using assms(1) that by (auto simp: frame_def)
    then have "cells m2 a = cells m1 a" using assms(2) by (auto simp: frame_def)
    also have "\<dots> = cells m a" using assms(1) that by (auto simp: frame_def)
    finally show ?thesis .
  qed
  then show ?thesis
    using assms unfolding frame_def by (simp del: atLeast_iff) (auto simp: subset_iff)
qed

lemma frame_private:
  assumes "frame NilSlice m m'" "private_slice s m"
  shows "private_slice s m'" and "read_slice m' s = read_slice m s"
  using assms by (cases s; fastforce simp: frame_def private_slice_def read_slice_def)+

lemma frame_wf: "frame s m m' \<Longrightarrow> wf_memory m'"
  by (simp add: frame_def)

lemma clone_slice:
  assumes "cloneObserverAttributes s m = (s', m')" and "wf_memory m"
  shows "wf_memory m'" and "private_slice s' m'" and "read_slice m' s' = read_slice m s"
    and "frame NilSlice m m'" and "slice_cells s' \<subseteq> {next_cell m}" and "handed m' = handed m"
  using assms
  by (auto simp: cloneObserverAttributes_def alloc_def wf_memory_def private_slice_def frame_def
      read_slice_def less_Suc_eq split: slice.splits)

text \<open>A frame that hands out only freshly allocated arrays leaves every older array private.\<close>

lemma frame_fresh:
  assumes "frame NilSlice m m1" "frame s m1 m2" "slice_cells s \<subseteq> {next_cell m..}"
  shows "frame NilSlice m m2"
proof -
  have "cells m2 a = cells m a" if "a < next_cell m" "a \<notin> set (handed m)" for a
  proof -
    have "a \<notin> set (handed m1)" and "a < next_cell m1" and "a \<notin> slice_cells s"
      using assms(1,3) that by (auto simp: frame_def)
    then have "cells m2 a = cells m1 a" using assms(2) by (auto simp: frame_def)
    also have "\<dots> = cells m a" using assms(1) that by (auto simp: frame_def)
    finally show ?thesis .
  qed
  then show ?thesis
    using assms unfolding frame_def by (simp del: atLeast_iff) (auto simp: subset_iff)
qed

lemma deliver_frame:
  "wf_memory (mem w) \<Longrightarrow> private_slice (event_attributes e) (mem w) \<Longrightarrow>
   frame (event_attributes e) (mem w) (mem (deliver u i e w))"
  by (cases "event_attributes e")
    (auto simp: deliver_def hand_over_def Let_def frame_def wf_memory_def private_slice_def)

lemma deliver_log: "log (deliver u i e w) = log w @ [(i, event_values (mem w) e)]"
  by (simp add: deliver_def Let_def)

section \<open>The contract of a contained callback\<close>

text \<open>
  A callback that hands event \<open>e\<close> to the caller-supplied observers \<open>ids\<close>: each receives it exactly
  once, in this order, with the attributes the event carried when the callback was entered, and no
  other array of the library becomes reachable. The lemmas prove what \<open>observe_safely\<close> adds: the
  caller's own array stays private.
\<close>

locale callback =
  fixes handler :: event_method
    and ids :: "nat list"
  assumes handler_log:
      "wf_memory (mem w) \<Longrightarrow> private_slice (event_attributes e) (mem w) \<Longrightarrow>
       log (snd (handler e w)) = log w @ map (\<lambda>i. (i, event_values (mem w) e)) ids"
    and method_frame:
      "wf_memory (mem w) \<Longrightarrow> private_slice (event_attributes e) (mem w) \<Longrightarrow>
       frame (event_attributes e) (mem w) (mem (snd (handler e w)))"
begin

lemma safely:
  assumes "wf_memory (mem w)"
  shows "log (observe_safely handler e w) = log w @ map (\<lambda>i. (i, event_values (mem w) e)) ids"
    and "frame NilSlice (mem w) (mem (observe_safely handler e w))"
proof -
  obtain s m where c: "cloneObserverAttributes (event_attributes e) (mem w) = (s, m)"
    by fastforce
  note facts = clone_slice [OF c assms]
  let ?w = "w\<lparr>mem := m\<rparr>" and ?e = "event_with s e"
  have pre: "wf_memory (mem ?w)" "private_slice (event_attributes ?e) (mem ?w)"
    using facts by simp_all
  have run: "observe_safely handler e w = snd (handler ?e ?w)"
    by (simp add: observe_safely_def clone_event_def c)
  have "event_values (mem ?w) ?e = event_values (mem w) e"
    using facts(3) by (simp add: event_values_def)
  then show "log (observe_safely handler e w) = log w @ map (\<lambda>i. (i, event_values (mem w) e)) ids"
    using handler_log [OF pre] by (simp add: run)
  show "frame NilSlice (mem w) (mem (observe_safely handler e w))"
    using frame_fresh [OF facts(4), of s] method_frame [OF pre] facts(5) by (auto simp: run)
qed

end

lemma observe_all_contract:
  assumes "list_all2 callback ms iss" and "wf_memory (mem w)"
    and "private_slice (event_attributes e) (mem w)"
  shows "log (observe_all ms e w) = log w @ map (\<lambda>i. (i, event_values (mem w) e)) (concat iss) \<and>
    frame NilSlice (mem w) (mem (observe_all ms e w))"
  using assms
proof (induction ms iss arbitrary: w rule: list_all2_induct)
  case Nil
  then show ?case by (simp add: observe_all_def frame_refl)
next
  case (Cons m ms is' iss)
  have c: "callback m is'" using Cons.hyps by simp
  let ?w = "observe_safely m e w"
  note safe = callback.safely [OF c Cons.prems(1), of e]
  have p: "private_slice (event_attributes e) (mem ?w)"
    and r: "read_slice (mem ?w) (event_attributes e) = read_slice (mem w) (event_attributes e)"
    using frame_private [OF safe(2) Cons.prems(2)] by simp_all
  have "event_values (mem ?w) e = event_values (mem w) e"
    using r by (simp add: event_values_def)
  with Cons.IH [OF frame_wf [OF safe(2)] p] safe show ?case
    by (auto simp: observe_all_def intro: frame_trans_Nil)
qed

text \<open>Any callback run under \<open>observe_safely\<close>, or several in a row, meets the contract again.\<close>

lemma callback_of_frame_Nil:
  assumes "\<And>w e. wf_memory (mem w) \<Longrightarrow> private_slice (event_attributes e) (mem w) \<Longrightarrow>
      log (snd (handler e w)) = log w @ map (\<lambda>i. (i, event_values (mem w) e)) ids \<and>
      frame NilSlice (mem w) (mem (snd (handler e w)))"
  shows "callback handler ids"
proof
  fix w :: world and e :: "slice event"
  assume pre: "wf_memory (mem w)" "private_slice (event_attributes e) (mem w)"
  show "log (snd (handler e w)) = log w @ map (\<lambda>i. (i, event_values (mem w) e)) ids"
    using assms [OF pre] by blast
  show "frame (event_attributes e) (mem w) (mem (snd (handler e w)))"
    using assms [OF pre] unfolding frame_def by auto
qed

lemma callback_deliver: "callback (\<lambda>e w. (r w, deliver u i e w)) [i]"
  by unfold_locales (simp_all add: deliver_log deliver_frame)

lemma callback_nothing: "callback (\<lambda>e w. (r, w)) []"
  by unfold_locales (simp_all add: frame_refl)

lemma callback_safe: "callback m is \<Longrightarrow> callback (\<lambda>e w. (r, observe_safely m e w)) is"
  by (rule callback_of_frame_Nil) (simp add: callback.safely)

lemma callback_all: "list_all2 callback ms iss \<Longrightarrow> callback (\<lambda>e w. (r, observe_all ms e w)) (concat iss)"
  by (rule callback_of_frame_Nil) (simp add: observe_all_contract)

text \<open>The caller-supplied observers behind an observer or an observation, in delivery order.\<close>

fun users :: "observer \<Rightarrow> nat list" where
  "users NopObserver = []"
| "users (UserObserver i) = [i]"
| "users (SafeObs o') = users o'"
| "users (MultiObs os) = concat (map users os)"

fun enders :: "observation \<Rightarrow> nat list" where
  "enders NopOperationObservation = []"
| "enders (FuncObservation fn) = (case fn of None \<Rightarrow> [] | Some i \<Rightarrow> [i])"
| "enders (UserObservation i) = [i]"
| "enders (SafeObservation x) = enders x"
| "enders (MultiObservation xs) = concat (rev (map enders xs))"

lemma Observe_callback: "callback (Observe u obs) (users obs)"
proof (induction obs)
  case NopObserver
  then show ?case by (simp add: callback_nothing)
next
  case (SafeObs obs)
  then show ?case by (simp add: callback_safe)
next
  case (MultiObs os)
  have "list_all2 callback (map (\<lambda>x. Observe u x) os) (map users os)"
    using MultiObs by (simp add: list_all2_conv_all_nth)
  then show ?case by (simp add: callback_all)
next
  case (UserObserver i)
  then show ?case by (simp add: callback_deliver)
qed

lemma End_callback: "callback (End u obs) (enders obs)"
proof (induction obs)
  case NopOperationObservation
  then show ?case by (simp add: callback_nothing)
next
  case (SafeObservation obs)
  then show ?case by (simp add: callback_safe)
next
  case (MultiObservation xs)
  have "list_all2 callback (map (\<lambda>x. End u x) xs) (map enders xs)"
    using MultiObservation by (simp add: list_all2_conv_all_nth)
  then have "list_all2 callback (rev (map (\<lambda>x. End u x) xs)) (rev (map enders xs))"
    by simp
  then show ?case by (simp add: callback_all del: rev_map)
next
  case (FuncObservation fn)
  then show ?case
  proof (cases fn)
    case None
    then show ?thesis by (simp add: callback_nothing)
  next
    case (Some i)
    then show ?thesis by (simp add: callback_deliver)
  qed
next
  case (UserObservation i)
  then show ?case by (simp add: callback_deliver)
qed

interpretation observing: callback "Observe u obs" "users obs" for u obs
  by (rule Observe_callback)

interpretation ending: callback "End u obs" "enders obs" for u obs
  by (rule End_callback)

section \<open>Containment of panics\<close>

definition contained :: "observer \<Rightarrow> bool" where
  "contained obs = (case obs of UserObserver _ \<Rightarrow> False | _ \<Rightarrow> True)"

definition contained_observation :: "observation \<Rightarrow> bool" where
  "contained_observation x = (case x of
     NopOperationObservation \<Rightarrow> True | SafeObservation _ \<Rightarrow> True | MultiObservation _ \<Rightarrow> True | _ \<Rightarrow> False)"

lemma SafeObserver_contained: "contained (SafeObserver x)"
  by (auto simp: SafeObserver_def contained_def split: option.split observer.split)

lemma contained_simps [simp]:
  "contained NopObserver" "contained (SafeObs x)" "contained (MultiObs os)"
  "\<not> contained (UserObserver i)"
  by (simp_all add: contained_def)

lemma MultiObserver_contained: "contained (MultiObserver xs)"
  by (simp add: MultiObserver_def Let_def SafeObserver_contained split: list.split)

lemma SafeObserver_fixed: "contained obs \<Longrightarrow> SafeObserver (Some obs) = obs"
  by (cases obs) (simp_all add: SafeObserver_def contained_def)

lemma Observe_contained: "contained obs \<Longrightarrow> fst (Observe u obs e w) = Returned ()"
  by (cases obs) (simp_all add: contained_def)

lemma End_contained: "contained_observation x \<Longrightarrow> fst (End u x e w) = Returned ()"
  by (cases x) (simp_all add: contained_observation_def)

text \<open>A contained observer is isolated: it cannot panic into the caller, every caller-supplied observer
  behind it sees the event as it was emitted, whatever the others wrote, and the array of the event stays
  the library's own.\<close>

lemma Observe_isolated:
  assumes "contained obs" "wf_memory (mem w)" "private_slice (event_attributes e) (mem w)"
  shows "log (snd (Observe u obs e w)) = log w @ map (\<lambda>i. (i, event_values (mem w) e)) (users obs)"
    and "frame NilSlice (mem w) (mem (snd (Observe u obs e w)))"
    and "event_values (mem (snd (Observe u obs e w))) e = event_values (mem w) e"
proof -
  show "log (snd (Observe u obs e w)) = log w @ map (\<lambda>i. (i, event_values (mem w) e)) (users obs)"
    by (rule observing.handler_log [OF assms(2,3)])
  have many: "list_all2 callback (map (\<lambda>x. Observe u x) os) (map users os)" for os
    by (simp add: list_all2_conv_all_nth Observe_callback)
  show fr: "frame NilSlice (mem w) (mem (snd (Observe u obs e w)))"
    using assms observing.safely(2) [OF assms(2)] observe_all_contract [OF many assms(2,3)]
    by (cases obs) (simp_all add: frame_refl)
  show "event_values (mem (snd (Observe u obs e w))) e = event_values (mem w) e"
    using frame_private(2) [OF fr assms(3)] by (simp add: event_values_def)
qed

lemma StartOperation_contained:
  "contained obs \<Longrightarrow>
   \<exists>c x. fst (StartOperation u obs ctx e w) = Returned (Some c, Some x) \<and> contained_observation x"
  by (cases obs) (auto simp: contained_def contained_observation_def split: prod.split)

lemma users_SafeObserver: "users (SafeObserver (Some obs)) = users obs"
  by (cases obs) (simp_all add: SafeObserver_def)

lemma users_MultiObserver:
  "users (MultiObserver xs) = concat (map users (List.map_filter (\<lambda>x. x) xs))"
  by (simp add: MultiObserver_def Let_def users_SafeObserver split: list.split)

section \<open>Starting an operation\<close>

text \<open>The contract of \<open>callback\<close>, for methods that also return a context and an observation.\<close>

locale start_callback =
  fixes start :: "'c start_method"
    and ids :: "nat list"
  assumes start_log:
      "wf_memory (mem w) \<Longrightarrow> private_slice (os_attributes e) (mem w) \<Longrightarrow>
       log (snd (start ctx e w)) =
         log w @ map (\<lambda>i. (i, event_values (mem w) (StartOperationEvent e))) ids"
    and start_frame:
      "wf_memory (mem w) \<Longrightarrow> private_slice (os_attributes e) (mem w) \<Longrightarrow>
       frame (os_attributes e) (mem w) (mem (snd (start ctx e w)))"
begin

lemma safely_started:
  assumes "wf_memory (mem w)" and "startOperationSafely start ctx e w = (r, w')"
  shows "log w' = log w @ map (\<lambda>i. (i, event_values (mem w) (StartOperationEvent e))) ids"
    and "frame NilSlice (mem w) (mem w')"
proof -
  obtain s m where c: "cloneObserverAttributes (os_attributes e) (mem w) = (s, m)"
    by fastforce
  note facts = clone_slice [OF c assms(1)]
  let ?w = "w\<lparr>mem := m\<rparr>" and ?e = "start_with s e"
  have at: "os_attributes ?e = s" by (simp add: start_with_def)
  have pre: "wf_memory (mem ?w)" "private_slice (os_attributes ?e) (mem ?w)"
    using facts by (simp_all add: at)
  have run: "w' = snd (start ctx ?e ?w)"
    using assms(2) by (auto simp: startOperationSafely_def c Let_def split: prod.splits call.splits)
  have "event_values (mem ?w) (StartOperationEvent ?e) = event_values (mem w) (StartOperationEvent e)"
    using facts(3) by (simp add: event_values_def start_with_def)
  then show "log w' = log w @ map (\<lambda>i. (i, event_values (mem w) (StartOperationEvent e))) ids"
    using start_log [OF pre] by (simp add: run)
  show "frame NilSlice (mem w) (mem w')"
    using frame_fresh [OF facts(4), of s] start_frame [OF pre] facts(5) by (auto simp: run at)
qed

end

lemma multi_start_contract:
  assumes "list_all2 start_callback ms iss" and "wf_memory (mem w)"
    and "private_slice (os_attributes e) (mem w)" and "multi_start ms ctx e obs w = (r, w')"
  shows "log w' = log w @ map (\<lambda>i. (i, event_values (mem w) (StartOperationEvent e))) (concat iss) \<and>
    frame NilSlice (mem w) (mem w')"
  using assms
proof (induction ms iss arbitrary: w ctx obs rule: list_all2_induct)
  case Nil
  then show ?case by (simp add: frame_refl)
next
  case (Cons m ms is' iss)
  obtain next_ctx ob ok w1 where run: "startOperationSafely m ctx e w = ((next_ctx, ob, ok), w1)"
    by (metis prod_cases3 surj_pair)
  note safe = start_callback.safely_started [OF Cons.hyps(1) Cons.prems(1) run]
  have p: "private_slice (os_attributes e) (mem w1)"
    and r: "read_slice (mem w1) (os_attributes e) = read_slice (mem w) (os_attributes e)"
    using frame_private [OF safe(2) Cons.prems(2)] by simp_all
  have v: "event_values (mem w1) (StartOperationEvent e) = event_values (mem w) (StartOperationEvent e)"
    using r by (simp add: event_values_def)
  obtain ctx' obs' where "multi_start ms ctx' e obs' w1 = (r, w')"
    using Cons.prems(3) run by (auto split: if_splits option.splits)
  with Cons.IH [OF frame_wf [OF safe(2)] p this] safe v show ?case
    by (auto intro: frame_trans_Nil)
qed

lemma start_callback_of_frame_Nil:
  assumes "\<And>ctx w e. wf_memory (mem w) \<Longrightarrow> private_slice (os_attributes e) (mem w) \<Longrightarrow>
      log (snd (start ctx e w)) =
        log w @ map (\<lambda>i. (i, event_values (mem w) (StartOperationEvent e))) ids \<and>
      frame NilSlice (mem w) (mem (snd (start ctx e w)))"
  shows "start_callback start ids"
proof
  fix w :: world and e :: "slice OperationStartEvent" and ctx
  assume pre: "wf_memory (mem w)" "private_slice (os_attributes e) (mem w)"
  show "log (snd (start ctx e w)) =
      log w @ map (\<lambda>i. (i, event_values (mem w) (StartOperationEvent e))) ids"
    using assms [OF pre] by blast
  show "frame (os_attributes e) (mem w) (mem (snd (start ctx e w)))"
    using assms [OF pre] unfolding frame_def by auto
qed

lemma StartOperation_callback: "start_callback (StartOperation u obs) (users obs)"
proof (induction obs)
  case NopObserver
  show ?case by (rule start_callback_of_frame_Nil) (simp add: frame_refl)
next
  case (SafeObs obs)
  show ?case
    by (rule start_callback_of_frame_Nil)
      (auto simp: start_callback.safely_started [OF SafeObs] split: prod.split)
next
  case (MultiObs os)
  have all: "list_all2 start_callback (map (\<lambda>x. StartOperation u x) os) (map users os)"
    using MultiObs by (simp add: list_all2_conv_all_nth)
  show ?case
    by (rule start_callback_of_frame_Nil)
      (use multi_start_contract [OF all] in \<open>auto split: prod.split\<close>)
next
  case (UserObserver i)
  show ?case
  proof
    fix w :: world and e :: "slice OperationStartEvent" and ctx
    assume pre: "wf_memory (mem w)" "private_slice (os_attributes e) (mem w)"
    show "log (snd (StartOperation u (UserObserver i) ctx e w)) =
        log w @ map (\<lambda>i. (i, event_values (mem w) (StartOperationEvent e))) (users (UserObserver i))"
      by (simp add: deliver_log)
    show "frame (os_attributes e) (mem w) (mem (snd (StartOperation u (UserObserver i) ctx e w)))"
      using deliver_frame [of w "StartOperationEvent e" u i] pre by simp
  qed
qed

interpretation starting: start_callback "StartOperation u obs" "users obs" for u obs
  by (rule StartOperation_callback)

section \<open>The flat reading of a composed observer\<close>

text \<open>
  However observers are nested, starting an operation amounts to one loop over the caller-supplied ones in
  delivery order: contexts are chained, a panic leaves the context as it was, and the observations that were
  returned are ended in reverse order.
\<close>

fun start_all ::
  "'c user_code \<Rightarrow> attribute list event \<Rightarrow> nat list \<Rightarrow> 'c \<Rightarrow> history \<Rightarrow> 'c \<times> observation list" where
  "start_all u v [] ctx h = (ctx, [])"
| "start_all u v (i # ids) ctx h =
     (case on_start u h i ctx of
        Panicked \<Rightarrow> start_all u v ids ctx (h @ [(i, v)])
      | Returned (c, x) \<Rightarrow>
          (let (final, xs) = start_all u v ids (case c of None \<Rightarrow> ctx | Some c \<Rightarrow> c) (h @ [(i, v)])
           in (final, (case x of None \<Rightarrow> [] | Some x \<Rightarrow> [x]) @ xs)))"

definition ends_of :: "observation list \<Rightarrow> nat list" where
  "ends_of xs = concat (rev (map enders xs))"

lemma ends_of_simps [simp]: "ends_of [] = []" "ends_of (x # xs) = ends_of xs @ enders x" "ends_of (xs @ ys) = ends_of ys @ ends_of xs"
  by (simp_all add: ends_of_def)

lemma start_all_append:
  "start_all u v (is @ js) ctx h =
     (let (c, xs) = start_all u v is ctx h; (d, ys) = start_all u v js c (h @ map (\<lambda>i. (i, v)) is) in (d, xs @ ys))"
proof (induction "is" arbitrary: ctx h)
  case (Cons i "is")
  show ?case
    by (cases "on_start u h i ctx") (auto simp: Cons Let_def split: prod.split)
qed simp

text \<open>A method run under \<open>startOperationSafely\<close> agrees with the loop over the observers \<open>ids\<close>.\<close>

definition starts_flat :: "'c user_code \<Rightarrow> 'c start_method \<Rightarrow> nat list \<Rightarrow> bool" where
  "starts_flat u start ids \<longleftrightarrow> (\<forall>ctx e w c x ok w' d xs.
     wf_memory (mem w) \<longrightarrow> private_slice (os_attributes e) (mem w) \<longrightarrow>
     startOperationSafely start ctx e w = ((c, x, ok), w') \<longrightarrow>
     start_all u (event_values (mem w) (StartOperationEvent e)) ids ctx (log w) = (d, xs) \<longrightarrow>
     c = d \<and> (case x of None \<Rightarrow> [] | Some x \<Rightarrow> enders x) = ends_of xs \<and> (\<not> ok \<longrightarrow> x = None \<and> c = ctx))"

lemma starts_flatD:
  assumes "starts_flat u start ids" "wf_memory (mem w)" "private_slice (os_attributes e) (mem w)"
    and "startOperationSafely start ctx e w = ((c, x, ok), w')"
    and "start_all u (event_values (mem w) (StartOperationEvent e)) ids ctx (log w) = (d, xs)"
  shows "c = d \<and> (case x of None \<Rightarrow> [] | Some x \<Rightarrow> enders x) = ends_of xs \<and> (\<not> ok \<longrightarrow> x = None \<and> c = ctx)"
  using assms unfolding starts_flat_def by blast

lemma cloned_start:
  assumes "wf_memory (mem w)" "cloneObserverAttributes (os_attributes e) (mem w) = (s, m)"
  shows "wf_memory m" "private_slice (os_attributes (start_with s e)) m"
    "event_values m (StartOperationEvent (start_with s e)) = event_values (mem w) (StartOperationEvent e)"
  using clone_slice [OF assms(2,1)] by (simp_all add: event_values_def start_with_def)

lemma multi_start_flat:
  assumes "list_all2 start_callback ms iss" "list_all2 (starts_flat u) ms iss" "wf_memory (mem w)"
    and "private_slice (os_attributes e) (mem w)" "multi_start ms ctx e obs w = ((c, xs), w')"
    and "start_all u (event_values (mem w) (StartOperationEvent e)) (concat iss) ctx (log w) = (d, ys)"
  shows "c = d \<and> ends_of xs = ends_of ys @ ends_of obs"
  using assms
proof (induction ms iss arbitrary: w ctx obs ys rule: list_all2_induct)
  case (Cons m ms "is" iss)
  let ?v = "event_values (mem w) (StartOperationEvent e)"
  obtain c1 x ok w1 where run: "startOperationSafely m ctx e w = ((c1, x, ok), w1)" by (metis prod_cases3 surj_pair)
  obtain d1 ys1 where flat: "start_all u ?v is ctx (log w) = (d1, ys1)" by fastforce
  have m: "starts_flat u m is" "list_all2 (starts_flat u) ms iss" using Cons.prems(1) by simp_all
  note safe = start_callback.safely_started [OF Cons.hyps(1) Cons.prems(2) run]
  have p: "private_slice (os_attributes e) (mem w1)" "event_values (mem w1) (StartOperationEvent e) = ?v"
    using frame_private [OF safe(2) Cons.prems(3)] by (simp_all add: event_values_def)
  have one: "c1 = d1" "(case x of None \<Rightarrow> [] | Some x \<Rightarrow> enders x) = ends_of ys1" "\<not> ok \<Longrightarrow> x = None \<and> c1 = ctx"
    using starts_flatD [OF m(1) Cons.prems(2,3) run flat] by blast+
  obtain d2 ys2 where rest: "start_all u ?v (concat iss) d1 (log w1) = (d2, ys2)" by fastforce
  then have all: "d = d2" "ys = ys1 @ ys2"
    using Cons.prems(5) flat by (auto simp: start_all_append safe(1) split: prod.splits)
  have "multi_start ms c1 e (obs @ (case x of None \<Rightarrow> [] | Some x \<Rightarrow> [x])) w1 = ((c, xs), w')"
    using Cons.prems(4) run one(3) by (cases ok; cases x) auto
  from Cons.IH [OF m(2) frame_wf [OF safe(2)] p(1) this] rest p(2) one(1,2) all show ?case
    by (cases x) auto
qed simp

lemma StartOperation_flat: "starts_flat u (StartOperation u obs) (users obs)"
proof (induction obs)
  case NopObserver
  show ?case by (auto simp: starts_flat_def startOperationSafely_def Let_def split: prod.splits)
next
  case (UserObserver i)
  show ?case
    by (auto simp: starts_flat_def startOperationSafely_def Let_def split: prod.splits call.splits option.splits)
next
  case (SafeObs obs)
  show ?case unfolding starts_flat_def
  proof (intro allI impI)
    fix ctx e w c x ok w' d xs
    assume a: "wf_memory (mem w)" "private_slice (os_attributes e) (mem w)"
      "startOperationSafely (StartOperation u (SafeObs obs)) ctx e w = ((c, x, ok), w')"
      "start_all u (event_values (mem w) (StartOperationEvent e)) (users (SafeObs obs)) ctx (log w) = (d, xs)"
    obtain s m where s: "cloneObserverAttributes (os_attributes e) (mem w) = (s, m)" by fastforce
    note cl = cloned_start [OF a(1) s]
    obtain c1 x1 ok1 w1 where run: "startOperationSafely (StartOperation u obs) ctx (start_with s e) (w\<lparr>mem := m\<rparr>) = ((c1, x1, ok1), w1)"
      by (metis prod_cases3 surj_pair)
    have "c1 = d \<and> (case x1 of None \<Rightarrow> [] | Some x \<Rightarrow> enders x) = ends_of xs \<and> (\<not> ok1 \<longrightarrow> x1 = None \<and> c1 = ctx)"
      using starts_flatD [OF SafeObs _ _ run, of d xs] cl a(4) by auto
    with a(3) run show "c = d \<and> (case x of None \<Rightarrow> [] | Some x \<Rightarrow> enders x) = ends_of xs \<and> (\<not> ok \<longrightarrow> x = None \<and> c = ctx)"
      unfolding startOperationSafely_def [of "StartOperation u (SafeObs obs)"] s by (auto simp: Let_def split: if_splits option.splits)
  qed
next
  case (MultiObs os)
  have os: "list_all2 start_callback (map (\<lambda>x. StartOperation u x) os) (map users os)"
    "list_all2 (starts_flat u) (map (\<lambda>x. StartOperation u x) os) (map users os)"
    using MultiObs by (simp_all add: list_all2_conv_all_nth StartOperation_callback)
  show ?case unfolding starts_flat_def
  proof (intro allI impI)
    fix ctx e w c x ok w' d xs
    assume a: "wf_memory (mem w)" "private_slice (os_attributes e) (mem w)"
      "startOperationSafely (StartOperation u (MultiObs os)) ctx e w = ((c, x, ok), w')"
      "start_all u (event_values (mem w) (StartOperationEvent e)) (users (MultiObs os)) ctx (log w) = (d, xs)"
    obtain s m where s: "cloneObserverAttributes (os_attributes e) (mem w) = (s, m)" by fastforce
    note cl = cloned_start [OF a(1) s]
    obtain c1 xs1 w1 where run:
      "multi_start (map (\<lambda>x. StartOperation u x) os) ctx (start_with s e) [] (w\<lparr>mem := m\<rparr>) = ((c1, xs1), w1)"
      by (metis prod.exhaust)
    have "c1 = d \<and> ends_of xs1 = ends_of xs"
      using multi_start_flat [OF os _ _ run, of d xs] cl a(4) by simp
    with a(3) run show "c = d \<and> (case x of None \<Rightarrow> [] | Some x \<Rightarrow> enders x) = ends_of xs \<and> (\<not> ok \<longrightarrow> x = None \<and> c = ctx)"
      unfolding startOperationSafely_def s by (auto simp: Let_def ends_of_def split: if_splits)
  qed
qed

text \<open>Starting an operation with an isolated observer, and ending it.\<close>

lemma StartOperation_isolated:
  assumes "contained obs" "wf_memory (mem w)" "private_slice (os_attributes e) (mem w)"
  shows "\<exists>c x. fst (StartOperation u obs ctx e w) = Returned (Some c, Some x) \<and> contained_observation x \<and>
      c = fst (start_all u (event_values (mem w) (StartOperationEvent e)) (users obs) ctx (log w)) \<and>
      enders x = ends_of (snd (start_all u (event_values (mem w) (StartOperationEvent e)) (users obs) ctx (log w)))"
    and "log (snd (StartOperation u obs ctx e w)) = log w @ map (\<lambda>i. (i, event_values (mem w) (StartOperationEvent e))) (users obs)"
    and "frame NilSlice (mem w) (mem (snd (StartOperation u obs ctx e w)))"
    and "event_values (mem (snd (StartOperation u obs ctx e w))) (StartOperationEvent e) =
      event_values (mem w) (StartOperationEvent e)"
proof -
  let ?v = "event_values (mem w) (StartOperationEvent e)"
  obtain d xs where flat: "start_all u ?v (users obs) ctx (log w) = (d, xs)" by fastforce
  have many: "list_all2 start_callback (map (\<lambda>x. StartOperation u x) os) (map users os)"
    "list_all2 (starts_flat u) (map (\<lambda>x. StartOperation u x) os) (map users os)" for os
    by (simp_all add: list_all2_conv_all_nth StartOperation_callback StartOperation_flat)
  have main: "(\<exists>c x. fst (StartOperation u obs ctx e w) = Returned (Some c, Some x) \<and> contained_observation x \<and>
      c = d \<and> enders x = ends_of xs) \<and> frame NilSlice (mem w) (mem (snd (StartOperation u obs ctx e w)))"
  proof (cases obs)
    case NopObserver
    with flat assms(2) show ?thesis by (simp add: contained_observation_def frame_refl)
  next
    case (SafeObs o')
    obtain c1 x1 ok1 w1 where run: "startOperationSafely (StartOperation u o') ctx e w = ((c1, x1, ok1), w1)"
      by (metis prod_cases3 surj_pair)
    have "c1 = d \<and> (case x1 of None \<Rightarrow> [] | Some x \<Rightarrow> enders x) = ends_of xs \<and> (\<not> ok1 \<longrightarrow> x1 = None \<and> c1 = ctx)"
      by (rule starts_flatD [OF StartOperation_flat assms(2,3) run]) (use flat in \<open>simp add: SafeObs\<close>)
    moreover have "frame NilSlice (mem w) (mem w1)" by (rule starting.safely_started(2) [OF assms(2) run])
    ultimately show ?thesis by (cases x1) (auto simp: SafeObs run contained_observation_def)
  next
    case (MultiObs os)
    obtain c1 xs1 w1 where run: "multi_start (map (\<lambda>x. StartOperation u x) os) ctx e [] w = ((c1, xs1), w1)"
      by (metis prod.exhaust)
    have "c1 = d \<and> ends_of xs1 = ends_of xs"
      using multi_start_flat [OF many assms(2,3) run] flat by (simp add: MultiObs)
    with multi_start_contract [OF many(1) assms(2,3) run] show ?thesis
      by (auto simp: MultiObs run contained_observation_def ends_of_def)
  qed (use assms(1) in simp)
  with flat show "\<exists>c x. fst (StartOperation u obs ctx e w) = Returned (Some c, Some x) \<and> contained_observation x \<and>
      c = fst (start_all u ?v (users obs) ctx (log w)) \<and> enders x = ends_of (snd (start_all u ?v (users obs) ctx (log w)))"
    by simp
  show fr: "frame NilSlice (mem w) (mem (snd (StartOperation u obs ctx e w)))" using main by blast
  show "log (snd (StartOperation u obs ctx e w)) = log w @ map (\<lambda>i. (i, ?v)) (users obs)"
    by (rule starting.start_log [OF assms(2,3)])
  show "event_values (mem (snd (StartOperation u obs ctx e w))) (StartOperationEvent e) = ?v"
    using frame_private(2) [OF fr assms(3)] by (simp add: event_values_def)
qed

lemma End_isolated:
  assumes "contained_observation x" "wf_memory (mem w)" "private_slice (event_attributes e) (mem w)"
  shows "fst (End u x e w) = Returned ()"
    and "log (snd (End u x e w)) = log w @ map (\<lambda>i. (i, event_values (mem w) e)) (enders x)"
    and "event_values (mem (snd (End u x e w))) e = event_values (mem w) e"
proof -
  show "fst (End u x e w) = Returned ()" by (rule End_contained [OF assms(1)])
  show "log (snd (End u x e w)) = log w @ map (\<lambda>i. (i, event_values (mem w) e)) (enders x)"
    by (rule ending.handler_log [OF assms(2,3)])
  have many: "list_all2 callback (rev (map (\<lambda>x. End u x) xs)) (rev (map enders xs))" for xs
    by (simp add: list_all2_conv_all_nth End_callback rev_nth)
  have "frame NilSlice (mem w) (mem (snd (End u x e w)))"
    using assms ending.safely(2) [OF assms(2)] observe_all_contract [OF many assms(2,3)]
    by (cases x) (simp_all add: frame_refl contained_observation_def)
  then show "event_values (mem (snd (End u x e w))) e = event_values (mem w) e"
    using frame_private(2) [OF _ assms(3)] by (simp add: event_values_def)
qed

end
