(* ===== verification/Ck_Client.thy ===== *)
theory Ck_Client
  imports Ck_Observer
begin

text \<open>
  \<open>config.go\<close>, \<open>client.go\<close>, \<open>protocol.go\<close> and \<open>internal/healthrecord\<close>: validated identity, the
  transport-neutral client with its cached health, and the recording and read-time projection of a
  health assessment. Both identifier validators meet one contract (the locale \<open>identifier_validator\<close>).
\<close>

section \<open>Identifiers\<close>

definition MaxClientNameBytes :: nat where
  "MaxClientNameBytes = 64"

definition MaxClientProtocolBytes :: nat where
  "MaxClientProtocolBytes = 32"

definition clientNameAlphanumeric :: "char \<Rightarrow> bool" where
  "clientNameAlphanumeric c \<longleftrightarrow> 97 \<le> byte c \<and> byte c \<le> 122 \<or> 48 \<le> byte c \<and> byte c \<le> 57"

definition identifier_byte :: "char \<Rightarrow> bool" where
  "identifier_byte c \<longleftrightarrow>
     clientNameAlphanumeric c \<or> c = CHR ''-'' \<or> c = CHR ''_'' \<or> c = CHR ''.''"

datatype name_error = NameRequired | NameWhitespace | NameTooLong | NameInvalid string

datatype protocol_error =
  ProtocolRequired | ProtocolWhitespace | ProtocolTooLong | ProtocolInvalid string

text \<open>The byte loop: the first byte outside the set is an error.\<close>

fun check_bytes :: "(char \<Rightarrow> bool) \<Rightarrow> 'e \<Rightarrow> string \<Rightarrow> 'e option" where
  "check_bytes allowed e [] = None"
| "check_bytes allowed e (c # cs) = (if allowed c then check_bytes allowed e cs else Some e)"

definition ValidateClientName :: "string \<Rightarrow> name_error option" where
  "ValidateClientName name =
     (if name = [] then Some NameRequired
      else if TrimSpace name \<noteq> name then Some NameWhitespace
      else if MaxClientNameBytes < length name then Some NameTooLong
      else if contains name ''..'' \<or> \<not> clientNameAlphanumeric (hd name) \<or>
              \<not> clientNameAlphanumeric (last name) then Some (NameInvalid name)
      else check_bytes identifier_byte (NameInvalid name) name)"

definition ValidateClientProtocol :: "string \<Rightarrow> protocol_error option" where
  "ValidateClientProtocol protocol =
     (if protocol = [] then Some ProtocolRequired
      else if TrimSpace protocol \<noteq> protocol then Some ProtocolWhitespace
      else if MaxClientProtocolBytes < length protocol then Some ProtocolTooLong
      else if contains protocol ''..'' \<or> \<not> clientNameAlphanumeric (hd protocol) \<or>
              \<not> clientNameAlphanumeric (last protocol) then Some (ProtocolInvalid protocol)
      else check_bytes identifier_byte (ProtocolInvalid protocol) protocol)"

text \<open>The language both validators promise to accept.\<close>

definition identifier_ok :: "nat \<Rightarrow> string \<Rightarrow> bool" where
  "identifier_ok limit s \<longleftrightarrow>
     s \<noteq> [] \<and> length s \<le> limit \<and> list_all identifier_byte s \<and>
     clientNameAlphanumeric (hd s) \<and> clientNameAlphanumeric (last s) \<and>
     \<not> (\<exists>a b. s = a @ ''..'' @ b)"

lemma check_bytes_None: "check_bytes allowed e s = None \<longleftrightarrow> list_all allowed s"
  by (induction s) auto

lemma alphanumeric_plain: "clientNameAlphanumeric c \<Longrightarrow> plain_byte c"
  by (auto simp: clientNameAlphanumeric_def plain_byte_def is_space_def)

text \<open>A string whose ends are alphanumeric is its own trimming, so the whitespace branch only
  chooses which error a bad string gets.\<close>

lemma TrimSpace_alphanumeric:
  "s \<noteq> [] \<Longrightarrow> clientNameAlphanumeric (hd s) \<Longrightarrow> clientNameAlphanumeric (last s) \<Longrightarrow> TrimSpace s = s"
  by (simp add: TrimSpace_plain alphanumeric_plain)

lemma ValidateClientName_iff: "ValidateClientName s = None \<longleftrightarrow> identifier_ok MaxClientNameBytes s"
  using TrimSpace_alphanumeric [of s]
  by (auto simp: ValidateClientName_def identifier_ok_def check_bytes_None contains_iff)

lemma ValidateClientProtocol_iff:
  "ValidateClientProtocol s = None \<longleftrightarrow> identifier_ok MaxClientProtocolBytes s"
  using TrimSpace_alphanumeric [of s]
  by (auto simp: ValidateClientProtocol_def identifier_ok_def check_bytes_None contains_iff)

text \<open>A short alphanumeric name is accepted.\<close>

lemma plain_identifier:
  assumes "s \<noteq> []" "length s \<le> limit" "list_all clientNameAlphanumeric s" "CHR ''.'' \<notin> set s"
  shows "identifier_ok limit s"
proof -
  have "list_all identifier_byte s" using assms(3) by (simp add: list_all_iff identifier_byte_def)
  moreover have "\<not> (\<exists>a b. s = a @ ''..'' @ b)" using assms(4) by auto
  moreover have "clientNameAlphanumeric (hd s)" "clientNameAlphanumeric (last s)"
    using assms(1,3) by (simp_all add: list_all_iff)
  ultimately show ?thesis using assms(1,2) by (simp add: identifier_ok_def)
qed

locale identifier_validator =
  fixes validate :: "string \<Rightarrow> 'e option"
    and limit :: nat
  assumes validate_iff: "validate s = None \<longleftrightarrow> identifier_ok limit s"
begin

lemma accepted_bytes: "validate s = None \<Longrightarrow> c \<in> set s \<Longrightarrow> identifier_byte c"
  by (auto simp: validate_iff identifier_ok_def list_all_iff)

lemma accepted_ascii: "validate s = None \<Longrightarrow> c \<in> set s \<Longrightarrow> 32 < byte c \<and> byte c < 127"
  by (drule (1) accepted_bytes) (auto simp: identifier_byte_def clientNameAlphanumeric_def)

lemma accepted_length: "validate s = None \<Longrightarrow> 0 < length s \<and> length s \<le> limit"
  by (auto simp: validate_iff identifier_ok_def)

lemma accepted_no_slash: "validate s = None \<Longrightarrow> CHR ''/'' \<notin> set s"
  using accepted_bytes [of s "CHR ''/''"] by (auto simp: identifier_byte_def clientNameAlphanumeric_def)

text \<open>A dot or a slash cannot build a relative path segment.\<close>

lemma accepted_not_dots: "validate s = None \<Longrightarrow> s \<noteq> ''.'' \<and> s \<noteq> ''..''"
  by (auto simp: validate_iff identifier_ok_def clientNameAlphanumeric_def)

end

interpretation client_name: identifier_validator ValidateClientName MaxClientNameBytes
  by unfold_locales (rule ValidateClientName_iff)

interpretation client_protocol: identifier_validator ValidateClientProtocol MaxClientProtocolBytes
  by unfold_locales (rule ValidateClientProtocol_iff)

section \<open>Configuration and construction\<close>

record Config =
  c_name :: string
  c_policy :: ReadinessPolicy
  c_observer :: "observer option"
  c_sanitizer :: "HealthSanitizer option"
  c_disable_sanitizer :: bool

datatype config_error =
  ConfigName name_error | ConfigPolicy readiness_error | ConfigSanitizerSetAndDisabled

definition Validate :: "Config \<Rightarrow> config_error option" where
  "Validate cfg =
     (case ValidateClientName (c_name cfg) of Some e \<Rightarrow> Some (ConfigName e)
      | None \<Rightarrow>
        (case validateReadinessPolicy (c_policy cfg) of Some e \<Rightarrow> Some (ConfigPolicy e)
         | None \<Rightarrow>
           if c_disable_sanitizer cfg \<and> \<not> is_nil (c_sanitizer cfg)
           then Some ConfigSanitizerSetAndDisabled else None))"

record Client =
  cl_name :: string
  cl_policy :: ReadinessPolicy
  cl_observer :: observer
  cl_sanitizer :: "HealthSanitizer option"
  cl_disable_sanitizer :: bool
  cl_health :: Health

definition new_client :: "Config \<Rightarrow> (config_error, Client) result" where
  "new_client cfg = guard_error id (Validate cfg) (Inr
     \<lparr>cl_name = c_name cfg,
      cl_policy = normalizeReadinessPolicy (c_policy cfg),
      cl_observer = SafeObserver (c_observer cfg),
      cl_sanitizer = (if \<not> c_disable_sanitizer cfg \<and> is_nil (c_sanitizer cfg)
                      then Some DefaultHealthSanitizer else c_sanitizer cfg),
      cl_disable_sanitizer = c_disable_sanitizer cfg,
      cl_health = health_of HealthUnknown FailureNone ''''\<rparr>)"

text \<open>\<open>Client.Observer\<close>, \<open>Health\<close> and \<open>UpdateHealth\<close>; the mutex makes the last one atomic.\<close>

definition client_observer :: "Client option \<Rightarrow> observer" where
  "client_observer c = (case c of None \<Rightarrow> NopObserver | Some c \<Rightarrow> cl_observer c)"

definition UpdateHealth :: "Client \<Rightarrow> Health \<Rightarrow> Health \<times> Client" where
  "UpdateHealth c health =
     (let health = sanitizeHealthSafely (cl_name c) health (cl_sanitizer c) (cl_disable_sanitizer c)
      in (health, c\<lparr>cl_health := health\<rparr>))"

text \<open>The state a constructed client is in: identity accepted and normalised, observer contained,
  and a sanitizer in place unless it was disabled.\<close>

definition client_inv :: "Client \<Rightarrow> bool" where
  "client_inv c \<longleftrightarrow>
     ValidateClientName (cl_name c) = None \<and>
     cl_policy c \<in> {ReadinessRequired, ReadinessOptional, ReadinessDegradedAllowed, ReadinessInformational} \<and>
     contained (cl_observer c) \<and>
     (cl_sanitizer c = None \<longleftrightarrow> cl_disable_sanitizer c)"

lemma validate_policy_range:
  "validateReadinessPolicy p = None \<longleftrightarrow> normalizeReadinessPolicy p \<in>
     {ReadinessRequired, ReadinessOptional, ReadinessDegradedAllowed, ReadinessInformational}"
  by (auto simp: validateReadinessPolicy_def normalizeReadinessPolicy_def split: ReadinessPolicy.split)

lemma Validate_None:
  "Validate cfg = None \<longleftrightarrow> ValidateClientName (c_name cfg) = None \<and>
     validateReadinessPolicy (c_policy cfg) = None \<and> \<not> (c_disable_sanitizer cfg \<and> c_sanitizer cfg \<noteq> None)"
  by (auto simp: Validate_def split: option.split)

lemma new_client_ok_iff: "(\<exists>c. new_client cfg = Inr c) \<longleftrightarrow> Validate cfg = None"
  by (auto simp: new_client_def guard_error_Inr)

lemma new_client_inv: "new_client cfg = Inr c \<Longrightarrow> client_inv c"
  by (auto simp: new_client_def guard_error_Inr client_inv_def Validate_None validate_policy_range
      SafeObserver_contained split: if_splits)

lemma UpdateHealth_identity:
  "UpdateHealth c h = (h', c') \<Longrightarrow>
   cl_name c' = cl_name c \<and> cl_policy c' = cl_policy c \<and> cl_observer c' = cl_observer c \<and>
   cl_sanitizer c' = cl_sanitizer c \<and> cl_disable_sanitizer c' = cl_disable_sanitizer c \<and>
   cl_health c' = h'"
  by (auto simp: UpdateHealth_def Let_def)

lemma UpdateHealth_inv: "client_inv c \<Longrightarrow> UpdateHealth c h = (h', c') \<Longrightarrow> client_inv c'"
  by (auto simp: client_inv_def dest: UpdateHealth_identity)

text \<open>A sequence of updates, as concurrent callers serialised by the mutex perform them.\<close>

definition run_updates :: "Health list \<Rightarrow> Client \<Rightarrow> Client" where
  "run_updates hs c = foldl (\<lambda>c h. snd (UpdateHealth c h)) c hs"

lemma run_updates_simps [simp]:
  "run_updates [] c = c"
  "run_updates (h # hs) c = run_updates hs (snd (UpdateHealth c h))"
  by (simp_all add: run_updates_def)

text \<open>The default sanitizer keeps every known state, so the assessment of a check is the state it returns.\<close>

lemma default_keeps_state:
  assumes "cl_sanitizer core = Some DefaultHealthSanitizer"
    and "h_state h \<in> {HealthUnknown, HealthHealthy, HealthDegraded, HealthUnhealthy}"
  shows "h_state (fst (UpdateHealth core h)) = h_state h"
  using assms by (auto simp: UpdateHealth_def sanitizeHealthSafely_def sanitizeHealthSafelyWithPanic_def
      DefaultHealthSanitizer_def sanitize_state_def sanitize_class_def Let_def)

context sanitizer
begin

text \<open>A client whose sanitizer meets the contract only ever caches publishable health.\<close>

lemma updated_publishable:
  "cl_sanitizer c = Some san \<Longrightarrow> UpdateHealth c h = (h', c') \<Longrightarrow> publishable h'"
  by (auto simp: UpdateHealth_def Let_def contained_publishable)

lemma cached_publishable:
  "cl_sanitizer c = Some san \<Longrightarrow> publishable (cl_health c) \<Longrightarrow> publishable (cl_health (run_updates hs c))"
proof (induction hs arbitrary: c)
  case (Cons h hs)
  obtain h' c' where u: "UpdateHealth c h = (h', c')" by fastforce
  note id = UpdateHealth_identity [OF u]
  have "publishable (cl_health c')" using updated_publishable [OF Cons.prems(1) u] id by simp
  with Cons.IH [of c'] Cons.prems(1) id u show ?case by simp
qed simp

end

lemma initial_publishable: "publishable (health_of HealthUnknown FailureNone [])"
  unfolding health_of_def
  by (rule publishable_plain) (simp_all add: validFailureClass_def plain_text_def is_zero_def zero_time_def)

lemma new_client_default:
  "new_client cfg = Inr c \<Longrightarrow> c_sanitizer cfg = None \<Longrightarrow> \<not> c_disable_sanitizer cfg \<Longrightarrow>
   cl_sanitizer c = Some DefaultHealthSanitizer \<and> publishable (cl_health c)"
  by (auto simp: new_client_def guard_error_Inr initial_publishable)

section \<open>Recording an assessment\<close>

text \<open>
  \<open>healthrecord.Record\<close>: \<open>ended\<close> is the reading of the clock. The result is the health, the client
  with its cache updated, and the observer together with the event it is sent.
\<close>

definition Record ::
  "Client option \<Rightarrow> string \<Rightarrow> HealthAssessment \<Rightarrow> gotime \<Rightarrow> attribute list \<Rightarrow> gotime
   \<Rightarrow> Health \<times> Client option \<times> observer \<times> attribute list HealthEvent" where
  "Record client protocol assessment startedAt attributes endedAt =
     (let health = \<lparr>h_state = ha_state assessment, h_failure = ha_failure assessment,
                    h_checked_at = to_utc endedAt, h_duration = time_sub endedAt startedAt,
                    h_message = ha_message assessment\<rparr>;
          (health, client', observer, clientName) =
            (case client of
               None \<Rightarrow> (health, None, NopObserver, '''')
             | Some c \<Rightarrow>
                 (let (h, c') = UpdateHealth c health
                  in (h, Some c', client_observer (Some c'), cl_name c')))
      in (health, client', observer,
          \<lparr>he_client = clientName, he_protocol = protocol, he_state = h_state health,
           he_failure = h_failure health, he_checked_at = h_checked_at health,
           he_duration = h_duration health, he_message = h_message health,
           he_attributes = attributes\<rparr>))"

text \<open>\<open>healthrecord.ProjectStaleness\<close>, \<open>now\<close> being \<open>time.Now().UTC()\<close>.\<close>

definition ProjectStaleness :: "Health \<Rightarrow> duration \<Rightarrow> string \<Rightarrow> gotime \<Rightarrow> Health" where
  "ProjectStaleness health staleAfter checkName now =
     (if staleAfter \<le> 0 \<or> h_state health = HealthUnknown then health
      else if is_zero (h_checked_at health) then
        \<lparr>h_state = HealthUnknown, h_failure = FailureNone, h_checked_at = zero_time,
         h_duration = h_duration health, h_message = checkName @ '' result has no timestamp''\<rparr>
      else if time_after (h_checked_at health) now then
        \<lparr>h_state = HealthUnknown, h_failure = FailureNone, h_checked_at = h_checked_at health,
         h_duration = h_duration health, h_message = checkName @ '' result timestamp is in the future''\<rparr>
      else if time_sub now (h_checked_at health) \<le> staleAfter then health
      else
        \<lparr>h_state = HealthUnknown, h_failure = FailureNone, h_checked_at = h_checked_at health,
         h_duration = h_duration health, h_message = checkName @ '' result is stale''\<rparr>)"

definition fresh :: "Health \<Rightarrow> duration \<Rightarrow> gotime \<Rightarrow> bool" where
  "fresh h staleAfter now \<longleftrightarrow>
     \<not> is_zero (h_checked_at h) \<and> instant (h_checked_at h) \<le> instant now \<and>
     time_sub now (h_checked_at h) \<le> staleAfter"

lemma ProjectStaleness_cases:
  "0 < d \<Longrightarrow> h_state (ProjectStaleness h d n now) =
     (if fresh h d now then h_state h else HealthUnknown)"
  by (auto simp: ProjectStaleness_def fresh_def time_after_def)

lemma ProjectStaleness_fresh: "fresh h d now \<Longrightarrow> ProjectStaleness h d n now = h"
  by (auto simp: ProjectStaleness_def fresh_def time_after_def)

lemma ProjectStaleness_idem:
  "ProjectStaleness (ProjectStaleness h d n now) d n now = ProjectStaleness h d n now"
  by (auto simp: ProjectStaleness_def)

lemma fresh_antimono:
  assumes "fresh h d later" "instant (h_checked_at h) \<le> instant now" "instant now \<le> instant later"
  shows "fresh h d now"
proof -
  have "time_sub now (h_checked_at h) \<le> time_sub later (h_checked_at h)"
    using assms(3) by (auto simp: time_sub_def saturate_def)
  then show ?thesis using assms by (auto simp: fresh_def)
qed

lemma Record_event:
  "Record client p a t0 attrs t1 = (h, client', obs, ev) \<Longrightarrow>
   he_state ev = h_state h \<and> he_failure ev = h_failure h \<and> he_message ev = h_message h \<and>
   he_checked_at ev = h_checked_at h \<and> he_duration ev = h_duration h \<and> he_attributes ev = attrs \<and>
   (case client' of None \<Rightarrow> client = None \<and> obs = NopObserver
    | Some c' \<Rightarrow> cl_health c' = h \<and> obs = cl_observer c' \<and> he_client ev = cl_name c')"
  by (auto simp: Record_def Let_def client_observer_def split: option.splits prod.splits
      dest: UpdateHealth_identity)

section \<open>The registry-facing view of a client\<close>

record ClientSnapshot =
  cs_name :: string
  cs_protocol :: string
  cs_policy :: ReadinessPolicy
  cs_health :: Health

end
