(* ===== verification/Go_Float.thy ===== *)
theory Go_Float
  imports Complex_Main "HOL-Library.Log_Nat"
begin

text \<open>
  Go's \<open>float64\<close> as the retry delays compute with it: IEEE 754 binary64 values (the two zeros
  identified) with round-to-nearest-even. Rounding is monotone and fixes every representable value,
  which is what the delay bounds of the HTTP client rest on.
\<close>

section \<open>Rounding\<close>

text \<open>The exponent \<open>e\<close> with \<open>2 ^ e \<le> x < 2 ^ (e + 1)\<close> of a positive rational.\<close>

definition ilog :: "rat \<Rightarrow> int" where
  "ilog x = (let (n, d) = quotient_of x; e = bitlen n - bitlen d
             in if x < 2 powi e then e - 1 else e)"

text \<open>Round half to even.\<close>

definition round_even :: "rat \<Rightarrow> int" where
  "round_even x =
     (let f = \<lfloor>x\<rfloor>; r = x - of_int f
      in if r < 1 / 2 then f else if 1 / 2 < r then f + 1 else if even f then f else f + 1)"

text \<open>The exponent of the last place: 53 significant bits, subnormals below \<open>2 ^ -1022\<close>.\<close>

definition ulp_exponent :: "rat \<Rightarrow> int" where
  "ulp_exponent x = max (ilog x - 52) (- 1074)"

definition round_pos :: "rat \<Rightarrow> rat" where
  "round_pos x = of_int (round_even (x / 2 powi ulp_exponent x)) * 2 powi ulp_exponent x"

lemma ilog_bounds:
  assumes "0 < x"
  shows "2 powi ilog x \<le> x" and "x < 2 powi (ilog x + 1)"
proof -
  obtain n d where q: "quotient_of x = (n, d)" by fastforce
  have d: "0 < d" and x: "x = of_int n / of_int d"
    using quotient_of_denom_pos [OF q] quotient_of_div [OF q] by auto
  with assms have n: "0 < n" by (simp add: zero_less_divide_iff)
  have bits: "2 powi (bitlen k - 1) \<le> (of_int k :: rat)" "(of_int k :: rat) < 2 powi bitlen k"
    if "0 < k" for k
  proof -
    have b: "2 ^ nat (bitlen k - 1) \<le> k" "k < 2 ^ nat (bitlen k)" "1 \<le> bitlen k"
      using bitlen_bounds [OF that] bitlen_nonneg [of k] that
      by (auto simp: bitlen_def floorlog_eq_zero_iff) (metis One_nat_def Suc_leI floorlog_eq_zero_iff
          gr0I numeral_2_eq_2 nat_0_iff not_less lessI of_nat_1 of_nat_le_iff)
    have "(of_int (2 ^ nat (bitlen k - 1)) :: rat) \<le> of_int k" "(of_int k :: rat) < of_int (2 ^ nat (bitlen k))"
      using b by (simp_all only: of_int_le_iff of_int_less_iff)
    then show "2 powi (bitlen k - 1) \<le> (of_int k :: rat)" "(of_int k :: rat) < 2 powi bitlen k"
      using b(3) by (simp_all add: power_int_def)
  qed
  let ?e = "bitlen n - bitlen d"
  have "2 powi (?e - 1) = (2 powi (bitlen n - 1) :: rat) / 2 powi bitlen d"
    by (simp add: power_int_diff)
  also have "\<dots> \<le> of_int n / of_int d"
    using bits [OF n] bits [OF d] d n by (intro frac_le) (auto intro: less_imp_le)
  finally have lower: "2 powi (?e - 1) \<le> x" by (simp add: x)
  have "x < (2 powi bitlen n) / 2 powi (bitlen d - 1)"
    unfolding x using bits [OF n] bits [OF d] d n by (intro frac_less) auto
  also have "\<dots> = 2 powi (?e + 1)"
    by (simp add: power_int_diff power_int_add)
  finally have upper: "x < 2 powi (?e + 1)" .
  show "2 powi ilog x \<le> x" "x < 2 powi (ilog x + 1)"
    using lower upper by (auto simp: ilog_def q Let_def)
qed

lemma round_even_int [simp]: "round_even (of_int k) = k"
  by (simp add: round_even_def)

lemma round_even_mono: "x \<le> y \<Longrightarrow> round_even x \<le> round_even y"
proof -
  assume le: "x \<le> y"
  consider "\<lfloor>x\<rfloor> = \<lfloor>y\<rfloor>" | "\<lfloor>x\<rfloor> + 1 \<le> \<lfloor>y\<rfloor>" using floor_mono [OF le] by linarith
  then show ?thesis
  proof cases
    case 1
    with le show ?thesis by (auto simp: round_even_def Let_def)
  next
    case 2
    have "round_even x \<le> \<lfloor>x\<rfloor> + 1" "\<lfloor>y\<rfloor> \<le> round_even y"
      by (auto simp: round_even_def Let_def)
    with 2 show ?thesis by linarith
  qed
qed

lemma round_even_le: "x \<le> of_int k \<Longrightarrow> round_even x \<le> k"
  using round_even_mono [of x "of_int k"] by simp

lemma round_even_ge: "of_int k \<le> x \<Longrightarrow> k \<le> round_even x"
  using round_even_mono [of "of_int k" x] by simp

lemma powi_int: "q \<le> e \<Longrightarrow> \<exists>k. (2 powi e :: rat) / 2 powi q = of_int k"
proof -
  assume "q \<le> e"
  then have "(2 powi (e - q) :: rat) = of_int (2 ^ nat (e - q))"
    by (simp add: power_int_def)
  moreover have "(2 powi e :: rat) / 2 powi q = 2 powi (e - q)"
    by (simp add: power_int_diff)
  ultimately have "(2 powi e :: rat) / 2 powi q = of_int (2 ^ nat (e - q))" by simp
  then show ?thesis by blast
qed

lemma round_pos_fixed:
  assumes "v = of_int m * 2 powi ulp_exponent v"
  shows "round_pos v = v"
proof -
  have "v / 2 powi ulp_exponent v = of_int m"
    by (subst assms) simp
  with assms show ?thesis by (simp add: round_pos_def)
qed

lemma ilog_less: "0 < x \<Longrightarrow> 0 < y \<Longrightarrow> ilog x < ilog y \<Longrightarrow> x < 2 powi ilog y"
proof -
  assume a: "0 < x" "0 < y" "ilog x < ilog y"
  have "(2 powi (ilog x + 1) :: rat) \<le> 2 powi ilog y"
    using a(3) by (intro power_int_increasing) auto
  with ilog_bounds(2) [OF a(1)] show ?thesis by linarith
qed

lemma ilog_mono: "0 < x \<Longrightarrow> x \<le> y \<Longrightarrow> ilog x \<le> ilog y"
proof (rule ccontr)
  assume a: "0 < x" "x \<le> y" "\<not> ilog x \<le> ilog y"
  then have "y < 2 powi ilog x" by (intro ilog_less) auto
  with ilog_bounds(1) [OF a(1)] a(2) show False by linarith
qed

lemma round_pos_mono:
  assumes "0 < x" "x \<le> y"
  shows "round_pos x \<le> round_pos y"
proof (cases "ulp_exponent x = ulp_exponent y")
  case True
  then show ?thesis using assms
    by (simp add: round_pos_def round_even_mono divide_right_mono mult_right_mono)
next
  case False
  have y: "0 < y" using assms by linarith
  have "ilog x \<noteq> ilog y" using False by (auto simp: ulp_exponent_def)
  with ilog_mono [OF assms] have less: "ilog x < ilog y" by linarith
  have q: "ulp_exponent x < ulp_exponent y" "ulp_exponent y = ilog y - 52"
    using False less by (auto simp: ulp_exponent_def)
  let ?b = "2 powi ilog y :: rat"
  obtain k where k: "?b / 2 powi ulp_exponent x = of_int k" using powi_int [of "ulp_exponent x" "ilog y"] q by auto
  obtain l where l: "?b / 2 powi ulp_exponent y = of_int l" using powi_int [of "ulp_exponent y" "ilog y"] q by auto
  have "x / 2 powi ulp_exponent x \<le> ?b / 2 powi ulp_exponent x"
    using ilog_less [OF assms(1) y less] by (intro divide_right_mono) auto
  then have "round_even (x / 2 powi ulp_exponent x) \<le> k"
    unfolding k by (rule round_even_le)
  then have "round_pos x \<le> of_int k * 2 powi ulp_exponent x"
    unfolding round_pos_def by (intro mult_right_mono) auto
  also have "\<dots> = ?b" using k by (simp add: field_simps)
  also have "\<dots> = of_int l * 2 powi ulp_exponent y" using l by (simp add: field_simps)
  also have "\<dots> \<le> round_pos y"
  proof -
    have "?b / 2 powi ulp_exponent y \<le> y / 2 powi ulp_exponent y"
      using ilog_bounds(1) [OF y] by (intro divide_right_mono) auto
    then have "l \<le> round_even (y / 2 powi ulp_exponent y)"
      unfolding l by (rule round_even_ge)
    then show ?thesis unfolding round_pos_def by (intro mult_right_mono) auto
  qed
  finally show ?thesis .
qed

text \<open>A value with at most 53 significant bits above the smallest exponent is represented exactly.\<close>

lemma representable_fixed:
  assumes v: "v = of_int m * 2 powi q" and m: "0 < m" "m \<le> 2 ^ 53" and q: "- 1074 \<le> q"
  shows "round_pos v = v"
proof -
  have pos: "0 < v" using v m by simp
  have "v \<le> 2 ^ 53 * 2 powi q"
    unfolding v using m(2) by (intro mult_right_mono) (metis of_int_le_iff of_int_numeral of_int_power, simp)
  also have "\<dots> = 2 powi (53 + q)" by (simp add: power_int_add)
  finally have top: "v \<le> 2 powi (53 + q)" .
  have le: "ilog v \<le> 53 + q"
  proof (rule ccontr)
    assume "\<not> ilog v \<le> 53 + q"
    then have "(2 powi (53 + q) :: rat) < 2 powi ilog v" by (intro power_int_strict_increasing) auto
    with ilog_bounds(1) [OF pos] top show False by linarith
  qed
  show ?thesis
  proof (cases "ulp_exponent v \<le> q")
    case True
    obtain k where "(2 powi q :: rat) / 2 powi ulp_exponent v = of_int k" using powi_int [OF True] by auto
    then have "v = of_int (m * k) * 2 powi ulp_exponent v" unfolding v by (simp add: field_simps)
    then show ?thesis by (rule round_pos_fixed)
  next
    case False
    with le q have u: "ulp_exponent v = q + 1" "ilog v = 53 + q" by (auto simp: ulp_exponent_def)
    with ilog_bounds(1) [OF pos] top have "v = 2 powi (53 + q)" by simp
    also have "\<dots> = of_int (2 ^ 52) * 2 powi ulp_exponent v"
      unfolding u(1) by (simp add: power_int_add)
    finally show ?thesis by (rule round_pos_fixed)
  qed
qed

lemma round_pos_significand:
  assumes "0 < x"
  shows "0 \<le> round_even (x / 2 powi ulp_exponent x)" and "round_even (x / 2 powi ulp_exponent x) \<le> 2 ^ 53"
proof -
  show "0 \<le> round_even (x / 2 powi ulp_exponent x)"
    using assms by (intro round_even_ge) simp
  have "x \<le> 2 powi (53 + ulp_exponent x)"
  proof -
    have "(2 powi (ilog x + 1) :: rat) \<le> 2 powi (53 + ulp_exponent x)"
      by (intro power_int_increasing) (auto simp: ulp_exponent_def)
    with ilog_bounds(2) [OF assms] show ?thesis by linarith
  qed
  then have "x / 2 powi ulp_exponent x \<le> of_int (2 ^ 53)"
    by (simp add: power_int_add divide_simps)
  then show "round_even (x / 2 powi ulp_exponent x) \<le> 2 ^ 53" by (rule round_even_le)
qed

lemma round_pos_idem:
  assumes "0 < x" "0 < round_pos x"
  shows "round_pos (round_pos x) = round_pos x"
proof (rule representable_fixed)
  let ?m = "round_even (x / 2 powi ulp_exponent x)"
  show "round_pos x = of_int ?m * 2 powi ulp_exponent x" by (simp add: round_pos_def)
  have "\<not> 2 powi ulp_exponent x < (0 :: rat)" by (simp add: not_less)
  then show "0 < ?m" using assms(2) by (simp add: round_pos_def zero_less_mult_iff)
  show "?m \<le> 2 ^ 53" by (rule round_pos_significand(2) [OF assms(1)])
  show "- 1074 \<le> ulp_exponent x" by (simp add: ulp_exponent_def)
qed

lemma round_pos_nonneg: "0 < x \<Longrightarrow> 0 \<le> round_pos x"
  using round_pos_significand(1) by (simp add: round_pos_def)

lemma round_pos_int: "0 < k \<Longrightarrow> k \<le> 2 ^ 53 \<Longrightarrow> round_pos (of_int k) = of_int k"
  by (rule representable_fixed [where q = 0 and m = k]) auto

section \<open>Values and operations\<close>

datatype float64 = NaN | Inf bool | Fin rat  \<comment> \<open>\<open>Inf True\<close> is negative infinity\<close>

definition round64 :: "rat \<Rightarrow> float64" where
  "round64 x =
     (if x = 0 then Fin 0
      else let r = round_pos \<bar>x\<bar>
           in if 2 ^ 1024 \<le> r then Inf (x < 0) else Fin (if x < 0 then - r else r))"

definition fl_of_int :: "int \<Rightarrow> float64" where
  "fl_of_int n = round64 (of_int n)"

fun fl_mul :: "float64 \<Rightarrow> float64 \<Rightarrow> float64" where
  "fl_mul NaN b = NaN"
| "fl_mul a NaN = NaN"
| "fl_mul (Fin x) (Fin y) = round64 (x * y)"
| "fl_mul (Inf s) (Inf t) = Inf (s \<noteq> t)"
| "fl_mul (Inf s) (Fin y) = (if y = 0 then NaN else Inf (s \<noteq> (y < 0)))"
| "fl_mul (Fin x) (Inf t) = (if x = 0 then NaN else Inf ((x < 0) \<noteq> t))"

fun fl_add :: "float64 \<Rightarrow> float64 \<Rightarrow> float64" where
  "fl_add NaN b = NaN"
| "fl_add a NaN = NaN"
| "fl_add (Fin x) (Fin y) = round64 (x + y)"
| "fl_add (Inf s) (Inf t) = (if s = t then Inf s else NaN)"
| "fl_add (Inf s) (Fin y) = Inf s"
| "fl_add (Fin x) (Inf t) = Inf t"

fun fl_le :: "float64 \<Rightarrow> float64 \<Rightarrow> bool" where
  "fl_le (Fin x) (Fin y) \<longleftrightarrow> x \<le> y"
| "fl_le (Inf s) (Inf t) \<longleftrightarrow> s \<or> \<not> t"
| "fl_le (Inf s) (Fin y) \<longleftrightarrow> s"
| "fl_le (Fin x) (Inf t) \<longleftrightarrow> \<not> t"
| "fl_le _ _ \<longleftrightarrow> False"

definition fl_lt :: "float64 \<Rightarrow> float64 \<Rightarrow> bool" where
  "fl_lt a b \<longleftrightarrow> fl_le a b \<and> \<not> fl_le b a"

text \<open>\<open>math.IsNaN\<close>, \<open>math.IsInf(f, 0)\<close>, \<open>math.IsInf(f, 1)\<close>, and the conversion of a float in the
  int64 range to an integer.\<close>

definition is_nan :: "float64 \<Rightarrow> bool" where
  "is_nan a \<longleftrightarrow> a = NaN"

definition is_inf :: "float64 \<Rightarrow> bool" where
  "is_inf a \<longleftrightarrow> (case a of Inf _ \<Rightarrow> True | _ \<Rightarrow> False)"

fun fl_trunc :: "float64 \<Rightarrow> int" where
  "fl_trunc (Fin x) = (if 0 \<le> x then \<lfloor>x\<rfloor> else \<lceil>x\<rceil>)"
| "fl_trunc _ = 0"

text \<open>A finite value an operation can produce.\<close>

definition representable :: "float64 \<Rightarrow> bool" where
  "representable a \<longleftrightarrow> (case a of Fin x \<Rightarrow> round64 x = Fin x | _ \<Rightarrow> True)"

lemma round64_representable: "representable (round64 x)"
proof (cases "x = 0 \<or> 2 ^ 1024 \<le> round_pos \<bar>x\<bar>")
  case True
  then show ?thesis by (auto simp: representable_def round64_def Let_def)
next
  case False
  then have x: "0 < \<bar>x\<bar>" "\<not> 2 ^ 1024 \<le> round_pos \<bar>x\<bar>" "x \<noteq> 0" by auto
  show ?thesis
  proof (cases "round_pos \<bar>x\<bar> = 0")
    case True
    with x show ?thesis by (auto simp: representable_def round64_def Let_def)
  next
    case zero: False
    with round_pos_nonneg [OF x(1)] have pos: "0 < round_pos \<bar>x\<bar>" by linarith
    with x round_pos_idem [OF x(1) pos] show ?thesis
      by (auto simp: representable_def round64_def Let_def)
  qed
qed

lemma fl_mul_representable: "representable (fl_mul a b)"
  by (cases "(a, b)" rule: fl_mul.cases) (auto simp: round64_representable, auto simp: representable_def)

lemma fl_add_representable: "representable (fl_add a b)"
  by (cases "(a, b)" rule: fl_add.cases) (auto simp: round64_representable, auto simp: representable_def)

text \<open>
  A representable value below the float of an integer is below the integer itself, even where
  converting the integer rounded it up.
\<close>

lemma below_fl_of_int:
  assumes "representable (Fin v)" "0 < v" "0 < n" "\<not> fl_le (fl_of_int n) (Fin v)"
  shows "v \<le> of_int n"
proof (rule ccontr)
  assume "\<not> v \<le> of_int n"
  then have gt: "of_int n \<le> v" by linarith
  have n: "0 < (of_int n :: rat)" using assms(3) by simp
  have fixed: "round_pos v = v" "v < 2 ^ 1024"
    using assms(1,2) by (auto simp: representable_def round64_def Let_def split: if_splits)
  have "round_pos (of_int n) \<le> v" using round_pos_mono [OF n gt] fixed(1) by simp
  with assms(4) fixed(2) n show False
    by (auto simp: fl_of_int_def round64_def Let_def split: if_splits)
qed

lemma fl_of_int_exact: "0 \<le> k \<Longrightarrow> k \<le> 2 ^ 53 \<Longrightarrow> fl_of_int k = Fin (of_int k)"
proof (cases "k = 0")
  case False
  assume k: "0 \<le> k" "k \<le> 2 ^ 53"
  have "(of_int k :: rat) \<le> 2 ^ 53" using k(2) by (metis of_int_le_iff of_int_numeral of_int_power)
  also have "\<dots> < 2 ^ 1024" by (rule power_strict_increasing) auto
  finally show ?thesis using k False by (simp add: fl_of_int_def round64_def Let_def round_pos_int)
qed (simp add: fl_of_int_def round64_def)

lemma fl_le_trans: "fl_le a b \<Longrightarrow> fl_le b c \<Longrightarrow> fl_le a c"
  by (cases a; cases b; cases c) auto

lemma fl_of_int_top: "0 < n \<Longrightarrow> fl_le (fl_of_int n) (Inf False)"
  by (auto simp: fl_of_int_def round64_def Let_def)

lemma fl_of_int_mono:
  assumes "0 < m" "m \<le> n"
  shows "fl_le (fl_of_int m) (fl_of_int n)"
proof -
  have "round_pos (of_int m) \<le> round_pos (of_int n)"
    using assms by (intro round_pos_mono) auto
  then show ?thesis using assms by (auto simp: fl_of_int_def round64_def Let_def)
qed

text \<open>Rounding stays between integers that are exact.\<close>

lemma round64_between:
  assumes "of_int a \<le> x" "x \<le> of_int b" "- (2 ^ 53) \<le> a" "b \<le> 2 ^ 53"
  obtains v where "round64 x = Fin v" "of_int a \<le> v" "v \<le> of_int b"
proof -
  have pos: "\<exists>v. round64 y = Fin v \<and> 0 \<le> v \<and> v \<le> of_int n \<and> (\<forall>m. 0 < m \<longrightarrow> of_int m \<le> y \<longrightarrow> of_int m \<le> v)"
    if "0 < y" "y \<le> of_int n" "n \<le> 2 ^ 53" for y n
  proof -
    have n: "0 < n" using that(1,2) by (metis le_less_trans less_le_not_le not_less of_int_le_0_iff)
    have top: "round_pos y \<le> of_int n" using round_pos_mono [OF that(1,2)] round_pos_int [OF n that(3)] by simp
    have "(of_int n :: rat) \<le> 2 ^ 53" using that(3) by (metis of_int_le_iff of_int_numeral of_int_power)
    also have "\<dots> < 2 ^ 1024" by (rule power_strict_increasing) auto
    finally have "round64 y = Fin (round_pos y)" using that(1) top by (simp add: round64_def Let_def)
    moreover have "of_int m \<le> round_pos y" if "0 < m" "of_int m \<le> y" for m
    proof -
      have "m \<le> n" using that(2) \<open>y \<le> of_int n\<close> by (metis of_int_le_iff order_trans)
      then have "round_pos (of_int m) = of_int m" using that(1) \<open>n \<le> 2 ^ 53\<close> by (intro round_pos_int) linarith+
      with round_pos_mono [of "of_int m" y] that show ?thesis by simp
    qed
    ultimately show ?thesis using top round_pos_nonneg [OF that(1)] by blast
  qed
  consider "x = 0" | "0 < x" | "x < 0" by linarith
  then show thesis
  proof cases
    case 1
    with assms show ?thesis by (intro that [of 0]) (simp_all add: round64_def)
  next
    case 2
    from pos [OF 2 assms(2,4)] obtain v where v: "round64 x = Fin v" "0 \<le> v" "v \<le> of_int b"
      "\<forall>m. 0 < m \<longrightarrow> of_int m \<le> x \<longrightarrow> of_int m \<le> v" by blast
    have "of_int a \<le> v"
    proof (cases "0 < a")
      case False
      then have "(of_int a :: rat) \<le> 0" by simp
      with v(2) show ?thesis by linarith
    qed (use v(4) assms(1) in blast)
    with v show ?thesis by (intro that)
  next
    case 3
    have neg: "0 < - x" "- x \<le> of_int (- a)" "- a \<le> 2 ^ 53" using 3 assms(1,3) by simp_all
    from pos [OF neg] obtain v where v: "round64 (- x) = Fin v" "0 \<le> v" "v \<le> of_int (- a)"
      "\<forall>m. 0 < m \<longrightarrow> of_int m \<le> - x \<longrightarrow> of_int m \<le> v" by blast
    have "round64 x = Fin (- v)" using v(1) 3 by (auto simp: round64_def Let_def split: if_splits)
    moreover have "- v \<le> of_int b"
    proof (cases "0 < - b")
      case False
      then have "(0 :: rat) \<le> of_int b" by simp
      with v(2) show ?thesis by linarith
    next
      case True
      have "of_int (- b) \<le> - x" using assms(2) by simp
      with v(4) True have "of_int (- b) \<le> v" by blast
      then show ?thesis by simp
    qed
    ultimately show ?thesis using v(3) by (intro that) simp_all
  qed
qed

end
