(* ===== verification/Go_Http.thy ===== *)
theory Go_Http
  imports Go_Runtime
begin

text \<open>
  The vocabulary of \<open>net/http\<close>, \<open>net/url\<close> and \<open>net/textproto\<close> the HTTP package computes with:
  header maps and canonical keys, method validation, URLs with their host/port split, requests and
  responses.
\<close>

section \<open>Header maps\<close>

text \<open>An \<open>http.Header\<close> that is not nil: its entries, one per key, in the order a range visits them.\<close>

type_synonym header = "(string \<times> string list) list"

definition http_token_byte :: "char \<Rightarrow> bool" where
  "http_token_byte c \<longleftrightarrow>
     97 \<le> byte c \<and> byte c \<le> 122 \<or> 65 \<le> byte c \<and> byte c \<le> 90 \<or> 48 \<le> byte c \<and> byte c \<le> 57 \<or>
     byte c \<in> {33, 35, 36, 37, 38, 39, 42, 43, 45, 46, 94, 95, 96, 124, 126}"

text \<open>\<open>textproto.CanonicalMIMEHeaderKey\<close>: a key with a byte outside the token set is unchanged.\<close>

definition byte_char :: "nat \<Rightarrow> char" where
  "byte_char n = char_of n"

fun canonical_bytes :: "bool \<Rightarrow> string \<Rightarrow> string" where
  "canonical_bytes up [] = []"
| "canonical_bytes up (c # cs) =
     byte_char (if up then ascii_upper (byte c) else ascii_lower (byte c))
     # canonical_bytes (c = CHR ''-'') cs"

definition canonical_key :: "string \<Rightarrow> string" where
  "canonical_key s = (if list_all http_token_byte s then canonical_bytes True s else s)"

definition header_values :: "header \<Rightarrow> string \<Rightarrow> string list" where
  "header_values h k = (case map_of h (canonical_key k) of None \<Rightarrow> [] | Some vs \<Rightarrow> vs)"

definition header_delete :: "string \<Rightarrow> header \<Rightarrow> header" where
  "header_delete k h = filter (\<lambda>e. fst e \<noteq> k) h"

fun header_put :: "string \<Rightarrow> string list \<Rightarrow> header \<Rightarrow> header" where
  "header_put k vs [] = [(k, vs)]"
| "header_put k vs (e # h) = (if fst e = k then (k, vs) # h else e # header_put k vs h)"

definition header_set :: "string \<Rightarrow> string \<Rightarrow> header \<Rightarrow> header" where
  "header_set k v h = header_put (canonical_key k) [v] h"

lemma byte_byte_char: "n < 256 \<Longrightarrow> byte (byte_char n) = n"
  by (simp add: byte_char_def)

lemma byte_char_byte [simp]: "byte_char (byte c) = c"
  by (simp add: byte_char_def)

lemma byte_less: "byte c < 256"
  by (rule nat_of_char_less_256)

lemma ascii_case_idem:
  "ascii_upper (ascii_upper n) = ascii_upper n" "ascii_lower (ascii_lower n) = ascii_lower n"
  by (auto simp: ascii_upper_def ascii_lower_def)

lemma ascii_case_less: "n < 256 \<Longrightarrow> ascii_upper n < 256 \<and> ascii_lower n < 256"
  by (auto simp: ascii_upper_def ascii_lower_def)

lemma ascii_case_dash: "ascii_upper n = 45 \<longleftrightarrow> n = 45" "ascii_lower n = 45 \<longleftrightarrow> n = 45"
  by (auto simp: ascii_upper_def ascii_lower_def)

lemma dash_byte: "c = CHR ''-'' \<longleftrightarrow> byte c = 45"
  using of_char_eq_iff [of c "CHR ''-''", where 'a = nat] by simp

lemma canonical_bytes_idem:
  "canonical_bytes up (canonical_bytes up s) = canonical_bytes up s"
  by (induction s arbitrary: up)
     (auto simp: dash_byte byte_byte_char ascii_case_less byte_less ascii_case_idem ascii_case_dash)

lemma http_token_case:
  assumes "http_token_byte c"
  shows "http_token_byte (byte_char (ascii_upper (byte c)))"
    and "http_token_byte (byte_char (ascii_lower (byte c)))"
proof -
  show "http_token_byte (byte_char (ascii_upper (byte c)))"
  proof (cases "97 \<le> byte c \<and> byte c \<le> 122")
    case True
    then have "ascii_upper (byte c) = byte c - 32" by (simp add: ascii_upper_def)
    moreover have "byte (byte_char (byte c - 32)) = byte c - 32"
      using True byte_less [of c] by (intro byte_byte_char) linarith
    moreover have "65 \<le> byte c - 32 \<and> byte c - 32 \<le> 90" using True by linarith
    ultimately show ?thesis unfolding http_token_byte_def by metis
  next
    case False
    then have "ascii_upper (byte c) = byte c" by (auto simp: ascii_upper_def)
    with assms show ?thesis by simp
  qed
  show "http_token_byte (byte_char (ascii_lower (byte c)))"
  proof (cases "65 \<le> byte c \<and> byte c \<le> 90")
    case True
    then have "ascii_lower (byte c) = byte c + 32" by (simp add: ascii_lower_def)
    moreover have "byte (byte_char (byte c + 32)) = byte c + 32"
      using True by (intro byte_byte_char) linarith
    moreover have "97 \<le> byte c + 32 \<and> byte c + 32 \<le> 122" using True by linarith
    ultimately show ?thesis unfolding http_token_byte_def by metis
  next
    case False
    then have "ascii_lower (byte c) = byte c" by (auto simp: ascii_lower_def)
    with assms show ?thesis by simp
  qed
qed

lemma canonical_bytes_token: "list_all http_token_byte s \<Longrightarrow> list_all http_token_byte (canonical_bytes up s)"
  by (induction s arbitrary: up) (auto intro: http_token_case)

lemma canonical_key_idem: "canonical_key (canonical_key s) = canonical_key s"
  by (simp add: canonical_key_def canonical_bytes_token canonical_bytes_idem)

lemma map_of_header_put: "map_of (header_put k vs h) = (map_of h)(k \<mapsto> vs)"
  by (induction h) auto

lemma keys_header_put:
  "map fst (header_put k vs h) = (if k \<in> set (map fst h) then map fst h else map fst h @ [k])"
  by (induction h) auto

lemma header_values_set:
  "header_values (header_set k v h) k' =
     (if canonical_key k' = canonical_key k then [v] else header_values h k')"
  by (simp add: header_values_def header_set_def map_of_header_put)

section \<open>Methods and statuses\<close>

text \<open>
  \<open>http.NewRequest(method, "http://clientkit.invalid", nil)\<close> fails exactly when a non-empty method
  has a byte that is not a token byte; the URL is a constant that parses.
\<close>

definition new_request_ok :: "string \<Rightarrow> bool" where
  "new_request_ok method \<longleftrightarrow> method = [] \<or> list_all http_token_byte method"

section \<open>URLs\<close>

record URL =
  u_scheme :: string
  u_opaque :: string
  u_user :: "string option"
  u_host :: string
  u_path :: string
  u_raw_path :: string
  u_raw_query :: string
  u_force_query :: bool
  u_fragment :: string
  u_raw_fragment :: string

definition is_abs :: "URL \<Rightarrow> bool" where
  "is_abs u \<longleftrightarrow> u_scheme u \<noteq> []"

text \<open>\<open>URL.Hostname\<close> and \<open>URL.Port\<close>: a final \<open>:digits\<close> is the port, brackets are removed.\<close>

definition split_host_port :: "string \<Rightarrow> string \<times> string" where
  "split_host_port hp =
     (let tail = rev (takeWhile (\<lambda>c. c \<noteq> CHR '':'') (rev hp));
          has_colon = CHR '':'' \<in> set hp;
          (host, port) =
            (if has_colon \<and> list_all digit_byte tail
             then (take (length hp - length tail - 1) hp, tail) else (hp, []))
      in (if has_prefix host ''['' \<and> has_suffix host '']''
          then take (length host - 2) (drop 1 host) else host, port))"

definition Hostname :: "URL \<Rightarrow> string" where
  "Hostname u = fst (split_host_port (u_host u))"

definition Port :: "URL \<Rightarrow> string" where
  "Port u = snd (split_host_port (u_host u))"

section \<open>Requests and responses\<close>

text \<open>A body: nil, \<open>http.NoBody\<close>, or a stream that may also implement \<open>io.Writer\<close>.\<close>

datatype body = NilBody | NoBody | Stream (body_id: nat) (body_writer: bool)

definition has_stream :: "body \<Rightarrow> bool" where
  "has_stream b \<longleftrightarrow> (case b of Stream _ _ \<Rightarrow> True | _ \<Rightarrow> False)"

lemma has_stream_simps [simp]:
  "\<not> has_stream NilBody" "\<not> has_stream NoBody" "has_stream (Stream i w)"
  by (simp_all add: has_stream_def)

text \<open>What a context answers at one instant: its error and its deadline.\<close>

record ctx_view =
  cv_err :: "ctx_err option"
  cv_deadline :: "gotime option"

record Request =
  rq_method :: string
  rq_url :: "URL option"
  rq_host :: string
  rq_request_uri :: string
  rq_header :: "header option"
  rq_body :: body
  rq_get_body :: bool     \<comment> \<open>\<open>GetBody\<close> is not nil\<close>
  rq_close :: bool

record Response =
  rs_status :: int
  rs_proto_major :: int
  rs_proto_minor :: int
  rs_header :: header
  rs_body :: body
  rs_content_length :: int
  rs_close :: bool
  rs_request :: "(Request \<times> ctx_view) option"

end
