(* ===== verification/Http_Retry.thy ===== *)
theory Http_Retry
  imports Ck_Failure Go_Float Go_Http
begin

text \<open>
  The retry policy of the HTTP client: \<open>httpclient/retry.go\<close>, \<open>retry_safety.go\<close>,
  \<open>transport_retry.go\<close>, \<open>failure.go\<close> and the outcomes of \<open>result.go\<close>. Three independent gates (the
  configured methods and statuses, the transport-error mode, the repetition safety) decide whether an
  attempt may be repeated, and the delay before the next attempt is computed in float64.
\<close>

section \<open>Outcomes and failure stages\<close>

datatype Outcome =
  OutcomeSuccess | OutcomeResponseRejected | OutcomeTimeout | OutcomeCanceled | OutcomeExecutionError

definition outcome_string :: "Outcome \<Rightarrow> string" where
  "outcome_string o' = (case o' of
     OutcomeSuccess \<Rightarrow> ''success'' | OutcomeResponseRejected \<Rightarrow> ''response_rejected''
   | OutcomeTimeout \<Rightarrow> ''timeout'' | OutcomeCanceled \<Rightarrow> ''canceled''
   | OutcomeExecutionError \<Rightarrow> ''execution_error'')"

datatype failureStage =
  failureStageTransport | failureStageConfiguration | failureStagePolicy | failureStageRequest

text \<open>The errors the execution policy itself raises.\<close>

definition isRequestPolicyError :: "goerr option \<Rightarrow> bool" where
  "isRequestPolicyError err \<longleftrightarrow> list_ex (\<lambda>s. errors_is err (Sentinel s))
     [errRedirectLimitExceeded, errRedirectReplayNotAllowed, errRequestURLRequired,
      errRequestURLMustBeAbsolute, errRequestURLOpaque, errRequestURLUserInformation,
      errRequestURLFragment, errRequestURLScheme, errRequestURLHostname, errRequestURI,
      errRequestMethod, errRequestHostOverride, errRequestOriginMismatch]"

definition isOriginPolicyError :: "goerr option \<Rightarrow> bool" where
  "isOriginPolicyError err \<longleftrightarrow>
     errors_is err (Sentinel errRequestHostOverride) \<or> errors_is err (Sentinel errRequestOriginMismatch)"

definition isRedirectPolicyFailure :: "Response option \<Rightarrow> goerr option \<Rightarrow> bool" where
  "isRedirectPolicyFailure response err \<longleftrightarrow> response \<noteq> None \<and> err \<noteq> None"

definition classifyFailure :: "failureStage \<Rightarrow> Response option \<Rightarrow> goerr option \<Rightarrow> FailureClass" where
  "classifyFailure stage response err =
     (if stage = failureStageConfiguration then FailureConfiguration
      else if stage = failureStagePolicy then FailurePolicy
      else if stage = failureStageRequest then FailureRequest
      else if isRedirectPolicyFailure response err then FailurePolicy
      else if isRequestPolicyError err then FailurePolicy
      else if err \<noteq> None then Network err False
      else (case response of
              None \<Rightarrow> FailureTransport
            | Some r \<Rightarrow> if rs_status r < 200 \<or> 300 \<le> rs_status r then FailureRemoteResponse
                        else FailureNone))"

definition classifyOutcome :: "Response option \<Rightarrow> goerr option \<Rightarrow> Outcome" where
  "classifyOutcome response err =
     (if isRedirectPolicyFailure response err then OutcomeExecutionError
      else if err \<noteq> None then
        (if errors_is err ContextCanceled then OutcomeCanceled
         else if errors_is err ContextDeadlineExceeded then OutcomeTimeout
         else if net_timeout err then OutcomeTimeout
         else OutcomeExecutionError)
      else (case response of
              None \<Rightarrow> OutcomeExecutionError
            | Some r \<Rightarrow> if 200 \<le> rs_status r \<and> rs_status r < 300 then OutcomeSuccess
                        else OutcomeResponseRejected))"

definition classifyRequestPreparationFailure :: "goerr option \<Rightarrow> FailureClass" where
  "classifyRequestPreparationFailure err =
     (if errors_is err ContextCanceled \<or> errors_is err ContextDeadlineExceeded
      then classifyFailure failureStageTransport None err
      else classifyFailure failureStageRequest None err)"

text \<open>
  Outside policy failures the outcome and the failure class tell the same story of a transport
  error: cancellation and timeouts agree, and nothing else is classified as either.
\<close>

lemma outcome_class_agree:
  assumes "err \<noteq> None" "response = None" "\<not> isRequestPolicyError err"
  shows "classifyOutcome response err = OutcomeCanceled \<longleftrightarrow>
           classifyFailure failureStageTransport response err = FailureCanceled"
    and "classifyOutcome response err = OutcomeTimeout \<longleftrightarrow>
           classifyFailure failureStageTransport response err = FailureTimeout"
  using assms
  by (auto simp: classifyOutcome_def classifyFailure_def isRedirectPolicyFailure_def Network_def)

lemma classifyOutcome_err: "err \<noteq> None \<Longrightarrow> classifyOutcome r err \<in> {OutcomeTimeout, OutcomeCanceled, OutcomeExecutionError}"
  by (auto simp: classifyOutcome_def)

lemma classifyFailure_err:
  "err \<noteq> None \<Longrightarrow> classifyFailure failureStageTransport r err \<noteq> FailureNone \<and>
     classifyFailure failureStageTransport r err \<noteq> FailureRemoteResponse"
  by (simp add: classifyFailure_def Network_not)

lemma policy_error_ctx [simp]: "\<not> isRequestPolicyError (Some (err_of_ctx c))"
  by (simp add: isRequestPolicyError_def)

lemma policy_error_None [simp]: "\<not> isRequestPolicyError None"
  by (simp add: isRequestPolicyError_def)

lemma classify_ctx:
  "classifyOutcome None (Some (err_of_ctx c)) = (case c of Canceled \<Rightarrow> OutcomeCanceled | DeadlineExceeded \<Rightarrow> OutcomeTimeout)"
  "classifyFailure failureStageTransport None (Some (err_of_ctx c)) =
     (case c of Canceled \<Rightarrow> FailureCanceled | DeadlineExceeded \<Rightarrow> FailureTimeout)"
  by (auto simp: classifyOutcome_def classifyFailure_def isRedirectPolicyFailure_def
      split: ctx_err.split)

section \<open>Transport errors\<close>

datatype TransportRetryMode =
  TransportRetryNone | TransportRetryDefault | TransportRetryAll | TransportRetryOther string

definition validTransportRetryMode :: "TransportRetryMode \<Rightarrow> bool" where
  "validTransportRetryMode mode = (case mode of TransportRetryOther _ \<Rightarrow> False | _ \<Rightarrow> True)"

definition errHTTPTransportNoResponse :: goerr where
  "errHTTPTransportNoResponse = sentinel_error ErrInvalidTransportResult"

definition transport_allows :: "TransportRetryMode \<Rightarrow> FailureClass \<Rightarrow> goerr option \<Rightarrow> bool" where
  "transport_allows mode failureClass err = (case mode of
     TransportRetryNone \<Rightarrow> False
   | TransportRetryAll \<Rightarrow> True
   | TransportRetryOther _ \<Rightarrow> False
   | TransportRetryDefault \<Rightarrow>
       (if errors_is err (Sentinel ErrInvalidTransportResult) then False
        else (case failureClass of
                FailureTLS \<Rightarrow> False
              | FailureNameResolution \<Rightarrow>
                  (case as_dns err of None \<Rightarrow> True | Some isNotFound \<Rightarrow> \<not> isNotFound)
              | FailureConnectionRefused \<Rightarrow> True | FailureConnectionReset \<Rightarrow> True
              | FailureConnectionClosed \<Rightarrow> True | FailureTransport \<Rightarrow> True
              | _ \<Rightarrow> False)))"

section \<open>Repetition safety\<close>

datatype RetrySafety =
  RetrySafetyDefault | RetrySafetyNever | RetrySafetyIdempotent | RetrySafetyOther string

datatype retryAuthorization =
  retryAuthorizationMethod | retryAuthorizationExplicit | retryAuthorizationDenied
| retryAuthorizationDisabled

definition normalizedHTTPMethod :: "string \<Rightarrow> string" where
  "normalizedHTTPMethod method = (if method = '''' then ''GET'' else method)"

definition methodIsIdempotent :: "string \<Rightarrow> bool" where
  "methodIsIdempotent method \<longleftrightarrow> normalizedHTTPMethod method \<in>
     {''GET'', ''HEAD'', ''OPTIONS'', ''TRACE'', ''PUT'', ''DELETE''}"

datatype safety_error = InvalidRetrySafety RetrySafety

definition retryAuthorizationFor :: "string \<Rightarrow> RetrySafety \<Rightarrow> (safety_error, retryAuthorization) result" where
  "retryAuthorizationFor method safety = (case safety of
     RetrySafetyDefault \<Rightarrow>
       Inr (if methodIsIdempotent method then retryAuthorizationMethod else retryAuthorizationDenied)
   | RetrySafetyNever \<Rightarrow> Inr retryAuthorizationDisabled
   | RetrySafetyIdempotent \<Rightarrow> Inr retryAuthorizationExplicit
   | RetrySafetyOther _ \<Rightarrow> Inl (InvalidRetrySafety safety))"

definition validateRetrySafety :: "RetrySafety \<Rightarrow> safety_error option" where
  "validateRetrySafety safety = (case safety of
     RetrySafetyOther _ \<Rightarrow> Some (InvalidRetrySafety safety) | _ \<Rightarrow> None)"

definition authorization_allows :: "retryAuthorization \<Rightarrow> bool" where
  "authorization_allows a \<longleftrightarrow> a = retryAuthorizationMethod \<or> a = retryAuthorizationExplicit"

definition authorization_string :: "retryAuthorization \<Rightarrow> string" where
  "authorization_string a = (case a of
     retryAuthorizationMethod \<Rightarrow> ''method'' | retryAuthorizationExplicit \<Rightarrow> ''explicit''
   | retryAuthorizationDenied \<Rightarrow> ''denied'' | retryAuthorizationDisabled \<Rightarrow> ''disabled'')"

lemma retryAuthorizationFor_ok:
  "(\<exists>a. retryAuthorizationFor m s = Inr a) \<longleftrightarrow> validateRetrySafety s = None"
  by (cases s) (simp_all add: retryAuthorizationFor_def validateRetrySafety_def)

text \<open>Repetition is authorized exactly by an idempotent method or by the caller's assertion.\<close>

lemma authorized_iff:
  "retryAuthorizationFor m s = Inr a \<Longrightarrow>
   authorization_allows a \<longleftrightarrow> s = RetrySafetyIdempotent \<or> s = RetrySafetyDefault \<and> methodIsIdempotent m"
  by (cases s) (auto simp: retryAuthorizationFor_def authorization_allows_def split: if_splits)

section \<open>The retry configuration\<close>

text \<open>A slice field is nil (None) or its elements.\<close>

record RetryConfig =
  rc_max_attempts :: int
  rc_backoff :: duration
  rc_multiplier :: float64
  rc_max_backoff :: duration
  rc_jitter :: duration
  rc_status_codes :: "int list option"
  rc_methods :: "string list option"
  rc_transport_errors :: TransportRetryMode
  rc_retry_timeouts :: bool
  rc_respect_retry_after :: bool
  rc_max_retry_after :: duration

definition DefaultRetryConfig :: RetryConfig where
  "DefaultRetryConfig =
     \<lparr>rc_max_attempts = 3, rc_backoff = 200 * Millisecond, rc_multiplier = Fin 2,
      rc_max_backoff = 2 * Second, rc_jitter = 100 * Millisecond,
      rc_status_codes = Some [408, 429, 500, 502, 503, 504],
      rc_methods = Some [''GET'', ''HEAD'', ''OPTIONS'', ''PUT'', ''DELETE''],
      rc_transport_errors = TransportRetryDefault, rc_retry_timeouts = True,
      rc_respect_retry_after = True, rc_max_retry_after = 30 * Second\<rparr>"

definition zero_retry :: RetryConfig where
  "zero_retry =
     \<lparr>rc_max_attempts = 0, rc_backoff = 0, rc_multiplier = Fin 0, rc_max_backoff = 0, rc_jitter = 0,
      rc_status_codes = None, rc_methods = None, rc_transport_errors = TransportRetryNone,
      rc_retry_timeouts = False, rc_respect_retry_after = False, rc_max_retry_after = 0\<rparr>"

definition NoRetryConfig :: RetryConfig where
  "NoRetryConfig = zero_retry\<lparr>rc_max_attempts := 1, rc_respect_retry_after := True,
     rc_max_retry_after := 30 * Second\<rparr>"

text \<open>\<open>append([]T(nil), xs...)\<close> of an empty slice is nil.\<close>

definition clone_slice :: "'a list option \<Rightarrow> 'a list option" where
  "clone_slice xs = (case xs of Some (y # ys) \<Rightarrow> Some (y # ys) | _ \<Rightarrow> None)"

definition slice_items :: "'a list option \<Rightarrow> 'a list" where
  "slice_items xs = (case xs of None \<Rightarrow> [] | Some ys \<Rightarrow> ys)"

definition cloneRetryConfig :: "RetryConfig \<Rightarrow> RetryConfig" where
  "cloneRetryConfig cfg = cfg\<lparr>rc_status_codes := clone_slice (rc_status_codes cfg),
     rc_methods := clone_slice (rc_methods cfg)\<rparr>"

definition retryConfigIsZero :: "RetryConfig \<Rightarrow> bool" where
  "retryConfigIsZero cfg \<longleftrightarrow>
     rc_max_attempts cfg = 0 \<and> rc_backoff cfg = 0 \<and> rc_multiplier cfg = Fin 0 \<and>
     rc_max_backoff cfg = 0 \<and> rc_jitter cfg = 0 \<and> rc_status_codes cfg = None \<and>
     rc_methods cfg = None \<and> rc_transport_errors cfg = TransportRetryNone \<and>
     \<not> rc_retry_timeouts cfg \<and> \<not> rc_respect_retry_after cfg \<and> rc_max_retry_after cfg = 0"

definition normalizeRetryConfig :: "RetryConfig \<Rightarrow> RetryConfig" where
  "normalizeRetryConfig cfg =
     cloneRetryConfig (if retryConfigIsZero cfg then DefaultRetryConfig else cfg)"

datatype retry_error =
    RetryMaxAttempts | RetryBackoffNegative | RetryMultiplier | RetryMaxBackoffNegative
  | RetryJitterNegative | RetryMaxRetryAfterNegative | RetryMaxRetryAfterRequired
  | RetryMaxRetryAfterDisabled | RetryTransportMode | RetryStatusRange int
  | RetryStatusDuplicate int | RetryMethodEmpty | RetryMethodInvalid string
  | RetryMethodDuplicate string

text \<open>The loops over the two slices, \<open>seen\<close> being the set the map has collected.\<close>

fun check_statuses :: "int list \<Rightarrow> int list \<Rightarrow> retry_error option" where
  "check_statuses seen [] = None"
| "check_statuses seen (s # ss) =
     (if s < 100 \<or> 599 < s then Some (RetryStatusRange s)
      else if s \<in> set seen then Some (RetryStatusDuplicate s)
      else check_statuses (s # seen) ss)"

fun check_methods :: "string list \<Rightarrow> string list \<Rightarrow> retry_error option" where
  "check_methods seen [] = None"
| "check_methods seen (m # ms) =
     (if TrimSpace m = [] then Some RetryMethodEmpty
      else if \<not> new_request_ok m then Some (RetryMethodInvalid m)
      else if m \<in> set seen then Some (RetryMethodDuplicate m)
      else check_methods (m # seen) ms)"

definition validateRetryConfig :: "RetryConfig \<Rightarrow> retry_error option" where
  "validateRetryConfig cfg =
     (if rc_max_attempts cfg < 1 then Some RetryMaxAttempts
      else if rc_backoff cfg < 0 then Some RetryBackoffNegative
      else if is_nan (rc_multiplier cfg) \<or> is_inf (rc_multiplier cfg) \<or> fl_lt (rc_multiplier cfg) (Fin 0)
      then Some RetryMultiplier
      else if rc_max_backoff cfg < 0 then Some RetryMaxBackoffNegative
      else if rc_jitter cfg < 0 then Some RetryJitterNegative
      else if rc_max_retry_after cfg < 0 then Some RetryMaxRetryAfterNegative
      else if rc_respect_retry_after cfg \<and> rc_max_retry_after cfg \<le> 0
      then Some RetryMaxRetryAfterRequired
      else if \<not> rc_respect_retry_after cfg \<and> rc_max_retry_after cfg > 0
      then Some RetryMaxRetryAfterDisabled
      else if \<not> validTransportRetryMode (rc_transport_errors cfg) then Some RetryTransportMode
      else (case check_statuses [] (slice_items (rc_status_codes cfg)) of
              Some e \<Rightarrow> Some e
            | None \<Rightarrow> check_methods [] (slice_items (rc_methods cfg))))"

definition allowsMethod :: "RetryConfig \<Rightarrow> string \<Rightarrow> bool" where
  "allowsMethod cfg method \<longleftrightarrow> list_ex (\<lambda>m. method = m) (slice_items (rc_methods cfg))"

definition allowsStatusCode :: "RetryConfig \<Rightarrow> int \<Rightarrow> bool" where
  "allowsStatusCode cfg statusCode \<longleftrightarrow> list_ex (\<lambda>s. statusCode = s) (slice_items (rc_status_codes cfg))"

definition shouldRetry :: "RetryConfig \<Rightarrow> string \<Rightarrow> Outcome \<Rightarrow> FailureClass \<Rightarrow> int \<Rightarrow> goerr option \<Rightarrow> bool" where
  "shouldRetry cfg method outcome failureClass statusCode err =
     (if \<not> allowsMethod cfg method then False
      else (case outcome of
              OutcomeResponseRejected \<Rightarrow> allowsStatusCode cfg statusCode
            | OutcomeTimeout \<Rightarrow> rc_retry_timeouts cfg
            | OutcomeExecutionError \<Rightarrow> transport_allows (rc_transport_errors cfg) failureClass err
            | _ \<Rightarrow> False))"

section \<open>What validation guarantees\<close>

text \<open>The configuration a validated retry policy satisfies, as one predicate.\<close>

definition retry_ok :: "RetryConfig \<Rightarrow> bool" where
  "retry_ok cfg \<longleftrightarrow>
     1 \<le> rc_max_attempts cfg \<and> 0 \<le> rc_backoff cfg \<and> 0 \<le> rc_max_backoff cfg \<and> 0 \<le> rc_jitter cfg \<and>
     (\<exists>x. rc_multiplier cfg = Fin x \<and> 0 \<le> x) \<and> 0 \<le> rc_max_retry_after cfg \<and>
     (rc_respect_retry_after cfg \<longleftrightarrow> 0 < rc_max_retry_after cfg) \<and>
     validTransportRetryMode (rc_transport_errors cfg) \<and>
     distinct (slice_items (rc_status_codes cfg)) \<and>
     (\<forall>s \<in> set (slice_items (rc_status_codes cfg)). 100 \<le> s \<and> s \<le> 599) \<and>
     distinct (slice_items (rc_methods cfg)) \<and>
     (\<forall>m \<in> set (slice_items (rc_methods cfg)). TrimSpace m \<noteq> [] \<and> new_request_ok m)"

lemma check_statuses_None:
  "check_statuses seen ss = None \<longleftrightarrow>
     distinct ss \<and> set ss \<inter> set seen = {} \<and> (\<forall>s \<in> set ss. 100 \<le> s \<and> s \<le> 599)"
  by (induction seen ss rule: check_statuses.induct) auto

lemma check_methods_None:
  "check_methods seen ms = None \<longleftrightarrow>
     distinct ms \<and> set ms \<inter> set seen = {} \<and> (\<forall>m \<in> set ms. TrimSpace m \<noteq> [] \<and> new_request_ok m)"
  by (induction seen ms rule: check_methods.induct) auto

lemma multiplier_ok:
  "\<not> (is_nan m \<or> is_inf m \<or> fl_lt m (Fin 0)) \<longleftrightarrow> (\<exists>x. m = Fin x \<and> 0 \<le> x)"
  by (cases m) (auto simp: is_nan_def is_inf_def fl_lt_def)

lemma validateRetryConfig_iff: "validateRetryConfig cfg = None \<longleftrightarrow> retry_ok cfg"
proof -
  have guard: "(if c then Some e else k) = None \<longleftrightarrow> \<not> c \<and> k = None" for c and e :: retry_error and k
    by simp
  have last: "(case check_statuses [] ss of Some e \<Rightarrow> Some e | None \<Rightarrow> check_methods [] ms) = None \<longleftrightarrow>
      check_statuses [] ss = None \<and> check_methods [] ms = None" for ss ms
    by (simp split: option.split)
  show ?thesis
    unfolding validateRetryConfig_def guard last multiplier_ok check_statuses_None check_methods_None
      retry_ok_def by auto
qed

lemma slice_items_clone [simp]: "slice_items (clone_slice xs) = slice_items xs"
  by (auto simp: clone_slice_def slice_items_def split: option.split list.split)

lemma clone_slice_idem [simp]: "clone_slice (clone_slice xs) = clone_slice xs"
  by (auto simp: clone_slice_def split: option.split list.split)

lemma clone_retry_ok [simp]: "retry_ok (cloneRetryConfig cfg) = retry_ok cfg"
  by (simp add: retry_ok_def cloneRetryConfig_def)

lemma clone_idem [simp]: "cloneRetryConfig (cloneRetryConfig cfg) = cloneRetryConfig cfg"
  by (simp add: cloneRetryConfig_def)

text \<open>A clone behaves like the original in every decision.\<close>

lemma clone_decisions:
  "shouldRetry (cloneRetryConfig cfg) m out fc s e = shouldRetry cfg m out fc s e"
  by (simp add: shouldRetry_def allowsMethod_def allowsStatusCode_def cloneRetryConfig_def split: Outcome.split)

lemma default_retry_ok: "retry_ok DefaultRetryConfig"
proof -
  have "TrimSpace m = m" if "m \<in> {''GET'', ''HEAD'', ''OPTIONS'', ''PUT'', ''DELETE''}" for m
    using that by (intro TrimSpace_plain) (auto simp: plain_byte_def is_space_def)
  moreover have "new_request_ok m" if "m \<in> {''GET'', ''HEAD'', ''OPTIONS'', ''PUT'', ''DELETE''}" for m
    using that by (auto simp: new_request_ok_def http_token_byte_def)
  ultimately show ?thesis
    by (auto simp: retry_ok_def DefaultRetryConfig_def slice_items_def Millisecond_def Second_def
        validTransportRetryMode_def)
qed

lemma no_retry_ok: "retry_ok NoRetryConfig"
  by (simp add: retry_ok_def NoRetryConfig_def zero_retry_def slice_items_def Second_def
      validTransportRetryMode_def)

lemma zero_retry_iff: "retryConfigIsZero cfg \<longleftrightarrow> cfg = zero_retry"
  by (cases cfg) (auto simp: retryConfigIsZero_def zero_retry_def)

lemma retry_ok_not_zero: "retry_ok cfg \<Longrightarrow> \<not> retryConfigIsZero cfg"
  by (auto simp: retry_ok_def retryConfigIsZero_def)

lemma normalize_valid:
  "validateRetryConfig (normalizeRetryConfig cfg) = None \<longleftrightarrow> cfg = zero_retry \<or> retry_ok cfg"
  by (auto simp: normalizeRetryConfig_def validateRetryConfig_iff zero_retry_iff default_retry_ok)

lemma normalize_retry_idem:
  "retry_ok (normalizeRetryConfig cfg) \<Longrightarrow>
   normalizeRetryConfig (normalizeRetryConfig cfg) = normalizeRetryConfig cfg"
  using retry_ok_not_zero [of "normalizeRetryConfig cfg"]
  by (subst normalizeRetryConfig_def) (simp add: normalizeRetryConfig_def)

section \<open>What a retry decision implies\<close>

lemma shouldRetry_method: "shouldRetry cfg m out fc s e \<Longrightarrow> m \<in> set (slice_items (rc_methods cfg))"
  by (auto simp: shouldRetry_def allowsMethod_def list_ex_iff split: if_splits)

lemma shouldRetry_outcome:
  "shouldRetry cfg m out fc s e \<Longrightarrow> out \<in> {OutcomeResponseRejected, OutcomeTimeout, OutcomeExecutionError}"
  by (auto simp: shouldRetry_def split: if_splits Outcome.splits)

lemma shouldRetry_status:
  "shouldRetry cfg m OutcomeResponseRejected fc s e \<Longrightarrow> s \<in> set (slice_items (rc_status_codes cfg))"
  by (auto simp: shouldRetry_def allowsStatusCode_def list_ex_iff split: if_splits)

lemma transport_allows_mode:
  "transport_allows mode fc e \<Longrightarrow> mode = TransportRetryAll \<or> mode = TransportRetryDefault"
  by (cases mode) (simp_all add: transport_allows_def)

text \<open>The default mode never repeats a TLS failure, a name that does not exist, or an invalid
  transport result.\<close>

lemma transport_default_refuses:
  "transport_allows TransportRetryDefault fc e \<Longrightarrow>
   fc \<noteq> FailureTLS \<and> fc \<noteq> FailurePolicy \<and> \<not> (fc = FailureNameResolution \<and> as_dns e = Some True) \<and>
   \<not> errors_is e (Sentinel ErrInvalidTransportResult)"
  by (auto simp: transport_allows_def split: if_splits)

end
