(* ===== verification/Http_Classifier.thy ===== *)
theory Http_Classifier
  imports Ck_Prelude Go_Http
begin

text \<open>
  \<open>httpclient/response_classifier.go\<close>: the built-in status classifiers, their validating
  constructors, and the containment of caller-supplied classifiers. The built-in classifiers meet one
  contract (the locale \<open>status_classifier\<close>): the disposition depends on the status alone.
\<close>

datatype ResponseDisposition = ResponseAccepted | ResponseRejected | DispositionOther string

text \<open>
  The implementations of the interface: the function adapter (None is a nil function), the three
  status classifiers, the containing wrapper with its field, and a caller type.
\<close>

datatype ResponseClassifier =
    ResponseClassifierFunc "nat option"
  | ExactStatus int
  | StatusRange int int
  | AnyStatus "int list"
  | SafeClassifier "ResponseClassifier option"
  | UserClassifier nat

type_synonym safeResponseClassifier = "ResponseClassifier option"

datatype responseClassification =
    responseNotClassified | responseClassifiedAccepted | responseClassifiedRejected
  | responseClassificationInvalid

text \<open>What caller code answers for a response; it may panic.\<close>

type_synonym classify_code = "nat \<Rightarrow> Response option \<Rightarrow> ResponseDisposition call"

definition classification_of :: "ResponseDisposition call \<Rightarrow> responseClassification" where
  "classification_of c = (case c of
     Returned ResponseAccepted \<Rightarrow> responseClassifiedAccepted
   | Returned ResponseRejected \<Rightarrow> responseClassifiedRejected
   | _ \<Rightarrow> responseClassificationInvalid)"

definition disposition_if :: "bool \<Rightarrow> ResponseDisposition" where
  "disposition_if b = (if b then ResponseAccepted else ResponseRejected)"

definition status_in :: "(int \<Rightarrow> bool) \<Rightarrow> Response option \<Rightarrow> ResponseDisposition" where
  "status_in accepts response =
     disposition_if (case response of None \<Rightarrow> False | Some r \<Rightarrow> accepts (rs_status r))"

text \<open>
  \<open>Classify\<close> of every implementation. The wrapper's \<open>classify\<close> turns a nil function, a nil
  classifier, a panic and an unknown disposition into the invalid classification.
\<close>

fun Classify :: "classify_code \<Rightarrow> ResponseClassifier \<Rightarrow> Response option \<Rightarrow> ResponseDisposition call" where
  "Classify u (ResponseClassifierFunc fn) response =
     (case fn of None \<Rightarrow> Returned ResponseRejected | Some i \<Rightarrow> u i response)"
| "Classify u (ExactStatus s) response = Returned (status_in (\<lambda>x. x = s) response)"
| "Classify u (StatusRange lo hi) response = Returned (status_in (\<lambda>x. lo \<le> x \<and> x \<le> hi) response)"
| "Classify u (AnyStatus ss) response = Returned (status_in (\<lambda>x. list_ex (\<lambda>s. x = s) ss) response)"
| "Classify u (UserClassifier i) response = u i response"
| "Classify u (SafeClassifier c) response =
     Returned (disposition_if ((case c of
         None \<Rightarrow> responseClassificationInvalid
       | Some inner \<Rightarrow>
           if inner = ResponseClassifierFunc None then responseClassificationInvalid
           else classification_of (Classify u inner response)) = responseClassifiedAccepted))"

definition safe_classify :: "classify_code \<Rightarrow> safeResponseClassifier \<Rightarrow> Response option \<Rightarrow> responseClassification" where
  "safe_classify u c response = (case c of
     None \<Rightarrow> responseClassificationInvalid
   | Some inner \<Rightarrow>
       if inner = ResponseClassifierFunc None then responseClassificationInvalid
       else classification_of (Classify u inner response))"

text \<open>The exported method of the wrapper: an invalid answer rejects.\<close>

definition safe_Classify :: "classify_code \<Rightarrow> safeResponseClassifier \<Rightarrow> Response option \<Rightarrow> ResponseDisposition" where
  "safe_Classify u c response =
     (if safe_classify u c response = responseClassifiedAccepted then ResponseAccepted else ResponseRejected)"

definition DefaultResponseClassifier :: ResponseClassifier where
  "DefaultResponseClassifier = StatusRange 200 299"

definition normalizeResponseClassifier :: "ResponseClassifier option \<Rightarrow> safeResponseClassifier" where
  "normalizeResponseClassifier classifier = (case classifier of
     Some (SafeClassifier safe) \<Rightarrow> safe
   | None \<Rightarrow> Some DefaultResponseClassifier
   | Some c \<Rightarrow> Some c)"

definition SafeResponseClassifier :: "ResponseClassifier option \<Rightarrow> ResponseClassifier" where
  "SafeResponseClassifier classifier = SafeClassifier (normalizeResponseClassifier classifier)"

section \<open>Constructors\<close>

datatype classifier_error =
    StatusOutOfRange int | StatusClassOutOfRange int | StatusesRequired | StatusDuplicate int
  | RangeMinimum classifier_error | RangeMaximum classifier_error | RangeInverted

definition validateResponseStatus :: "int \<Rightarrow> classifier_error option" where
  "validateResponseStatus statusCode =
     (if statusCode < 100 \<or> 599 < statusCode then Some (StatusOutOfRange statusCode) else None)"

definition AcceptStatus :: "int \<Rightarrow> (classifier_error, ResponseClassifier) result" where
  "AcceptStatus statusCode = guard_error id (validateResponseStatus statusCode) (Inr (ExactStatus statusCode))"

definition AcceptStatusClass :: "int \<Rightarrow> (classifier_error, ResponseClassifier) result" where
  "AcceptStatusClass cls =
     (if cls < 1 \<or> 5 < cls then Inl (StatusClassOutOfRange cls)
      else Inr (StatusRange (cls * 100) (cls * 100 + 99)))"

fun check_status_set :: "int list \<Rightarrow> int list \<Rightarrow> classifier_error option" where
  "check_status_set seen [] = None"
| "check_status_set seen (s # ss) = (case validateResponseStatus s of
     Some e \<Rightarrow> Some e
   | None \<Rightarrow> if s \<in> set seen then Some (StatusDuplicate s) else check_status_set (s # seen) ss)"

definition AcceptAnyStatus :: "int list \<Rightarrow> (classifier_error, ResponseClassifier) result" where
  "AcceptAnyStatus statusCodes =
     (if statusCodes = [] then Inl StatusesRequired
      else guard_error id (check_status_set [] statusCodes) (Inr (AnyStatus statusCodes)))"

definition AcceptStatusRange :: "int \<Rightarrow> int \<Rightarrow> (classifier_error, ResponseClassifier) result" where
  "AcceptStatusRange minimum maximum =
     guard_error RangeMinimum (validateResponseStatus minimum)
       (guard_error RangeMaximum (validateResponseStatus maximum)
         (if maximum < minimum then Inl RangeInverted else Inr (StatusRange minimum maximum)))"

section \<open>The contract of status classifiers\<close>

locale status_classifier =
  fixes classifier :: ResponseClassifier
    and accepts :: "int \<Rightarrow> bool"
  assumes classify_some:
      "Classify u classifier (Some r) = Returned (disposition_if (accepts (rs_status r)))"
    and classify_none: "Classify u classifier None = Returned ResponseRejected"
    and not_nil: "classifier \<noteq> ResponseClassifierFunc None"
    and not_safe: "classifier \<noteq> SafeClassifier s"
begin

lemma never_panics: "Classify u classifier response \<noteq> Panicked"
  by (cases response) (simp_all add: classify_some classify_none)

lemma safe_classification:
  "safe_classify u (normalizeResponseClassifier (Some classifier)) (Some r) =
     (if accepts (rs_status r) then responseClassifiedAccepted else responseClassifiedRejected)"
proof -
  have n: "normalizeResponseClassifier (Some classifier) = Some classifier"
    using not_safe by (auto simp: normalizeResponseClassifier_def split: ResponseClassifier.split)
  have "safe_classify u (Some classifier) (Some r) = classification_of (Classify u classifier (Some r))"
    using not_nil by (simp add: safe_classify_def)
  then show ?thesis by (simp add: n classify_some disposition_if_def classification_of_def)
qed

lemma status_only: "rs_status r = rs_status r' \<Longrightarrow> Classify u classifier (Some r) = Classify u' classifier (Some r')"
  by (simp add: classify_some)

end

interpretation exact: status_classifier "ExactStatus s" "\<lambda>x. x = s" for s
  by unfold_locales (simp_all add: status_in_def disposition_if_def)

interpretation range: status_classifier "StatusRange lo hi" "\<lambda>x. lo \<le> x \<and> x \<le> hi" for lo hi
  by unfold_locales (simp_all add: status_in_def disposition_if_def)

interpretation any: status_classifier "AnyStatus ss" "\<lambda>x. x \<in> set ss" for ss
  by unfold_locales (auto simp: status_in_def disposition_if_def list_ex_iff)

text \<open>The set of statuses a constructed classifier accepts is the one asked for, inside 100..599.\<close>

lemma check_status_set_None:
  "check_status_set seen ss = None \<longleftrightarrow>
     distinct ss \<and> set ss \<inter> set seen = {} \<and> (\<forall>s \<in> set ss. 100 \<le> s \<and> s \<le> 599)"
  by (induction seen ss rule: check_status_set.induct) (auto simp: validateResponseStatus_def)

lemma AcceptAnyStatus_ok:
  "AcceptAnyStatus ss = Inr c \<longleftrightarrow>
     c = AnyStatus ss \<and> ss \<noteq> [] \<and> distinct ss \<and> (\<forall>s \<in> set ss. 100 \<le> s \<and> s \<le> 599)"
  by (auto simp: AcceptAnyStatus_def guard_error_Inr check_status_set_None)

lemma AcceptStatusRange_ok:
  "AcceptStatusRange lo hi = Inr c \<longleftrightarrow> c = StatusRange lo hi \<and> 100 \<le> lo \<and> lo \<le> hi \<and> hi \<le> 599"
  by (auto simp: AcceptStatusRange_def guard_error_Inr validateResponseStatus_def)

lemma AcceptStatus_ok: "AcceptStatus s = Inr c \<longleftrightarrow> c = ExactStatus s \<and> 100 \<le> s \<and> s \<le> 599"
  by (auto simp: AcceptStatus_def guard_error_Inr validateResponseStatus_def)

lemma AcceptStatusClass_ok:
  "AcceptStatusClass k = Inr c \<longleftrightarrow> c = StatusRange (k * 100) (k * 100 + 99) \<and> 1 \<le> k \<and> k \<le> 5"
  by (auto simp: AcceptStatusClass_def)

text \<open>A class accepts exactly the statuses whose hundreds digit it names.\<close>

lemma AcceptStatusClass_accepts:
  assumes "AcceptStatusClass k = Inr c"
  shows "safe_classify u (normalizeResponseClassifier (Some c)) (Some r) = responseClassifiedAccepted \<longleftrightarrow>
     rs_status r div 100 = k"
proof -
  have c: "c = StatusRange (k * 100) (k * 100 + 99)" using assms by (simp add: AcceptStatusClass_ok)
  have "k * 100 \<le> x \<and> x \<le> k * 100 + 99 \<longleftrightarrow> x div 100 = k" for x :: int
    using div_mult_mod_eq [of x 100] pos_mod_bound [of 100 x] pos_mod_sign [of 100 x]
    by (auto intro: int_div_pos_eq [of x 100 k "x - k * 100"])
  then show ?thesis unfolding c range.safe_classification by simp
qed

section \<open>Containment\<close>

lemma safe_never_panics: "Classify u (SafeClassifier c) response \<noteq> Panicked"
  by simp

lemma safe_disposition:
  "Classify u (SafeClassifier c) response = Returned d \<Longrightarrow> d = ResponseAccepted \<or> d = ResponseRejected"
  by (auto simp: disposition_if_def split: if_splits)

lemma classification_of_accepted:
  "classification_of c = responseClassifiedAccepted \<longleftrightarrow> c = Returned ResponseAccepted"
  by (auto simp: classification_of_def split: call.split ResponseDisposition.split)

lemma classification_of_classified [simp]: "classification_of c \<noteq> responseNotClassified"
  by (auto simp: classification_of_def split: call.split ResponseDisposition.split)

lemma safe_classify_classified: "safe_classify u c response \<noteq> responseNotClassified"
  by (simp add: safe_classify_def classification_of_classified split: option.split)

lemma Classify_safe:
  "Classify u (SafeClassifier c) response =
     Returned (disposition_if (safe_classify u c response = responseClassifiedAccepted))"
  by (simp add: safe_classify_def)

text \<open>Wrapping an already contained classifier changes nothing.\<close>

lemma SafeResponseClassifier_idem:
  "SafeResponseClassifier (Some (SafeResponseClassifier c)) = SafeResponseClassifier c"
  by (simp add: SafeResponseClassifier_def normalizeResponseClassifier_def)

text \<open>A panic or an unknown disposition of caller code is the invalid classification, never an
  acceptance.\<close>

lemma accepted_means_accepted:
  "safe_classify u (Some (UserClassifier i)) response = responseClassifiedAccepted \<longleftrightarrow>
     u i response = Returned ResponseAccepted"
  by (simp add: safe_classify_def classification_of_accepted)

lemma panic_is_invalid:
  "u i response = Panicked \<Longrightarrow>
   safe_classify u (Some (UserClassifier i)) response = responseClassificationInvalid"
  by (simp add: safe_classify_def classification_of_def)

end
