(* ===== verification/Http_Options.thy ===== *)
theory Http_Options
  imports Http_Retry Http_Classifier
begin

text \<open>
  \<open>httpclient/operation_name.go\<close> and \<open>execute_options.go\<close>: the operation name and the resolution of
  per-call retry and timeout policy against the client's.
\<close>

section \<open>Operation names\<close>

definition MaxOperationNameBytes :: nat where
  "MaxOperationNameBytes = 64"

definition OperationHTTPRequest :: string where
  "OperationHTTPRequest = ''request''"

datatype operation_name_error =
  OperationNameTooLong | OperationNameStart | OperationNameCharacter | OperationNameEnd

definition lower_byte :: "char \<Rightarrow> bool" where
  "lower_byte c \<longleftrightarrow> 97 \<le> byte c \<and> byte c \<le> 122"

definition operation_byte :: "char \<Rightarrow> bool" where
  "operation_byte c \<longleftrightarrow> lower_byte c \<or> digit_byte c \<or> c = CHR ''.'' \<or> c = CHR ''_'' \<or> c = CHR ''-''"

text \<open>The loop over the bytes, then the check of the last one.\<close>

fun check_operation_bytes :: "string \<Rightarrow> operation_name_error option" where
  "check_operation_bytes [] = None"
| "check_operation_bytes (c # cs) =
     (if operation_byte c then check_operation_bytes cs else Some OperationNameCharacter)"

definition validateOperationName :: "string \<Rightarrow> operation_name_error option" where
  "validateOperationName name =
     (if name = '''' then None
      else if length name > MaxOperationNameBytes then Some OperationNameTooLong
      else if \<not> lower_byte (hd name) then Some OperationNameStart
      else (case check_operation_bytes name of
              Some e \<Rightarrow> Some e
            | None \<Rightarrow>
                if \<not> lower_byte (last name) \<and> \<not> digit_byte (last name) then Some OperationNameEnd
                else None))"

definition resolveOperationName :: "string \<Rightarrow> (operation_name_error, string) result" where
  "resolveOperationName name = guard_error id (validateOperationName name)
     (Inr (if name = '''' then OperationHTTPRequest else name))"

lemma check_operation_bytes_None: "check_operation_bytes s = None \<longleftrightarrow> list_all operation_byte s"
  by (induction s) auto

definition operation_name_ok :: "string \<Rightarrow> bool" where
  "operation_name_ok s \<longleftrightarrow> s \<noteq> [] \<and> length s \<le> MaxOperationNameBytes \<and> lower_byte (hd s) \<and>
     list_all operation_byte s \<and> (lower_byte (last s) \<or> digit_byte (last s))"

lemma resolveOperationName_ok:
  "resolveOperationName name = Inr s \<longleftrightarrow>
     name = [] \<and> s = OperationHTTPRequest \<or> s = name \<and> operation_name_ok name"
  using check_operation_bytes_None [of name]
  by (cases "check_operation_bytes name")
     (auto simp: resolveOperationName_def guard_error_Inr validateOperationName_def operation_name_ok_def)

lemma operation_name_default: "operation_name_ok OperationHTTPRequest"
  by (simp add: operation_name_ok_def OperationHTTPRequest_def MaxOperationNameBytes_def
      operation_byte_def lower_byte_def)

text \<open>Whatever the caller passes, the name that reaches telemetry is in the bounded vocabulary.\<close>

lemma resolved_operation_name: "resolveOperationName name = Inr s \<Longrightarrow> operation_name_ok s"
  by (auto simp: resolveOperationName_ok operation_name_default)

section \<open>Per-call policy\<close>

record ExecutionRetry =
  er_config :: RetryConfig
  er_disable :: bool

record ExecutionTimeouts =
  et_timeout :: duration
  et_disable_timeout :: bool
  et_attempt_timeout :: duration
  et_disable_attempt_timeout :: bool

record ExecuteOptions =
  eo_operation :: string
  eo_classifier :: "ResponseClassifier option"
  eo_retry :: ExecutionRetry
  eo_retry_safety :: RetrySafety
  eo_timeouts :: ExecutionTimeouts

datatype retry_policy_source = RetryPolicySourceNone | RetryPolicySourceClient | RetryPolicySourceOperation

definition source_string :: "retry_policy_source \<Rightarrow> string" where
  "source_string s = (case s of
     RetryPolicySourceNone \<Rightarrow> '''' | RetryPolicySourceClient \<Rightarrow> ''client''
   | RetryPolicySourceOperation \<Rightarrow> ''operation'')"

record executionRetryPolicy =
  erp_config :: RetryConfig
  erp_source :: retry_policy_source

datatype execution_retry_error = RetrySetAndDisabled | RetryInvalid retry_error

definition resolveExecutionRetry ::
  "RetryConfig \<Rightarrow> ExecutionRetry \<Rightarrow> (execution_retry_error, executionRetryPolicy) result" where
  "resolveExecutionRetry clientPolicy override =
     (let hasCustomPolicy = \<not> retryConfigIsZero (er_config override)
      in if er_disable override \<and> hasCustomPolicy then Inl RetrySetAndDisabled
         else if er_disable override
         then Inr \<lparr>erp_config = cloneRetryConfig NoRetryConfig, erp_source = RetryPolicySourceOperation\<rparr>
         else if \<not> hasCustomPolicy
         then Inr \<lparr>erp_config = cloneRetryConfig clientPolicy, erp_source = RetryPolicySourceClient\<rparr>
         else
           (let config = normalizeRetryConfig (er_config override)
            in guard_error RetryInvalid (validateRetryConfig config)
                 (Inr \<lparr>erp_config = config, erp_source = RetryPolicySourceOperation\<rparr>)))"

record executionTimeoutPolicy =
  etp_timeout :: duration
  etp_attempt_timeout :: duration

definition resolveExecutionTimeouts ::
  "duration \<Rightarrow> duration \<Rightarrow> ExecutionTimeouts \<Rightarrow> (duration_error, executionTimeoutPolicy) result" where
  "resolveExecutionTimeouts clientTimeout clientAttemptTimeout overrides =
     bind_result (Duration ''operation timeout'' (et_timeout overrides) (et_disable_timeout overrides)
                    clientTimeout 0)
       (\<lambda>timeout. bind_result
          (Duration ''operation attempt timeout'' (et_attempt_timeout overrides)
             (et_disable_attempt_timeout overrides) clientAttemptTimeout 0)
          (\<lambda>attemptTimeout. Inr \<lparr>etp_timeout = timeout, etp_attempt_timeout = attemptTimeout\<rparr>))"

definition zero_options :: ExecuteOptions where
  "zero_options = \<lparr>eo_operation = '''', eo_classifier = None,
     eo_retry = \<lparr>er_config = zero_retry, er_disable = False\<rparr>, eo_retry_safety = RetrySafetyDefault,
     eo_timeouts = \<lparr>et_timeout = 0, et_disable_timeout = False, et_attempt_timeout = 0,
       et_disable_attempt_timeout = False\<rparr>\<rparr>"

text \<open>
  Whatever is resolved is a valid policy when the client's is; a disabled call makes one attempt; a
  zero override is the client's policy.
\<close>

lemma resolveExecutionRetry_valid:
  "retry_ok clientPolicy \<Longrightarrow> resolveExecutionRetry clientPolicy override = Inr p \<Longrightarrow> retry_ok (erp_config p)"
  by (auto simp: resolveExecutionRetry_def Let_def guard_error_Inr validateRetryConfig_iff no_retry_ok
      split: if_splits)

lemma resolveExecutionRetry_disabled:
  "er_disable override \<Longrightarrow> resolveExecutionRetry clientPolicy override = Inr p \<Longrightarrow>
   rc_max_attempts (erp_config p) = 1 \<and> erp_source p = RetryPolicySourceOperation"
  by (auto simp: resolveExecutionRetry_def Let_def NoRetryConfig_def cloneRetryConfig_def split: if_splits)

lemma resolveExecutionRetry_inherit:
  "resolveExecutionRetry clientPolicy \<lparr>er_config = zero_retry, er_disable = False\<rparr> =
     Inr \<lparr>erp_config = cloneRetryConfig clientPolicy, erp_source = RetryPolicySourceClient\<rparr>"
  by (simp add: resolveExecutionRetry_def zero_retry_iff)

lemma resolveExecutionRetry_error_iff:
  "(\<exists>e. resolveExecutionRetry clientPolicy override = Inl e) \<longleftrightarrow>
     er_config override \<noteq> zero_retry \<and> (er_disable override \<or> \<not> retry_ok (er_config override))"
proof -
  have "er_config override \<noteq> zero_retry \<Longrightarrow>
      validateRetryConfig (normalizeRetryConfig (er_config override)) = None \<longleftrightarrow> retry_ok (er_config override)"
    by (simp add: normalize_valid)
  then show ?thesis
    by (cases "validateRetryConfig (normalizeRetryConfig (er_config override))")
       (auto simp: resolveExecutionRetry_def zero_retry_iff Let_def)
qed

lemma resolveExecutionTimeouts_nonneg:
  "0 \<le> ct \<Longrightarrow> 0 \<le> ca \<Longrightarrow> resolveExecutionTimeouts ct ca ov = Inr p \<Longrightarrow>
   0 \<le> etp_timeout p \<and> 0 \<le> etp_attempt_timeout p"
  by (auto simp: resolveExecutionTimeouts_def bind_result_Inr dest!: dur.resolved_nonneg)

lemma resolveExecutionTimeouts_inherit:
  "resolveExecutionTimeouts ct ca (eo_timeouts zero_options) =
     Inr \<lparr>etp_timeout = ct, etp_attempt_timeout = ca\<rparr>"
  by (simp add: resolveExecutionTimeouts_def zero_options_def Duration_def)

end
