(* ===== verification/Http_Headers.thy ===== *)
theory Http_Headers
  imports Ck_Prelude Go_Http
begin

text \<open>
  Outbound header propagation: \<open>httpclient/context_headers.go\<close> and \<open>httpclient/propagation.go\<close>.
  Propagators are caller code behind an interface; the safe wrapper restores the header map after a
  panic. The built-in context propagator only ever writes validated values under its own names.
\<close>

section \<open>Bindings\<close>

definition DefaultContextHeaderMaxValueBytes :: int where
  "DefaultContextHeaderMaxValueBytes = 256"

definition DefaultRequestIDHeader :: string where
  "DefaultRequestIDHeader = ''X-Request-ID''"

definition DefaultCorrelationIDHeader :: string where
  "DefaultCorrelationIDHeader = ''X-Correlation-ID''"

datatype HeaderValueProvider = HeaderValueProviderFunc "nat option" | UserProvider nat

datatype ExistingHeaderPolicy =
  PreserveExistingHeader | OverwriteExistingHeader | ExistingPolicyOther string

record ContextHeaderBinding =
  chb_header :: string
  chb_provider :: "HeaderValueProvider option"
  chb_existing :: ExistingHeaderPolicy
  chb_max_value_bytes :: int
  chb_disable_limit :: bool

record RequestMetadataConfig =
  rmc_request_id :: "HeaderValueProvider option"
  rmc_request_id_header :: string
  rmc_correlation_id :: "HeaderValueProvider option"
  rmc_correlation_id_header :: string
  rmc_existing :: ExistingHeaderPolicy
  rmc_max_value_bytes :: int
  rmc_disable_limit :: bool

record normalizedContextHeaderBinding =
  nb_header :: string
  nb_provider :: HeaderValueProvider
  nb_existing :: ExistingHeaderPolicy
  nb_max_value_bytes :: int

datatype header_error =
    HeaderNameRequired | HeaderNameWhitespace string | HeaderNameInvalid string
  | HeaderProviderRequired string | HeaderPolicyInvalid ExistingHeaderPolicy
  | HeaderLimitNegative | HeaderLimitSetAndDisabled | HeaderDuplicate string
  | RequestIDRequiresProvider | CorrelationIDRequiresProvider

definition httpTokenByte :: "char \<Rightarrow> bool" where
  "httpTokenByte c \<longleftrightarrow>
     97 \<le> byte c \<and> byte c \<le> 122 \<or> 65 \<le> byte c \<and> byte c \<le> 90 \<or> 48 \<le> byte c \<and> byte c \<le> 57 \<or>
     byte c \<in> {33, 35, 36, 37, 38, 39, 42, 43, 45, 46, 94, 95, 96, 124, 126}"

definition validHTTPFieldName :: "string \<Rightarrow> bool" where
  "validHTTPFieldName name \<longleftrightarrow> name \<noteq> '''' \<and> list_all httpTokenByte name"

definition validateExistingHeaderPolicy :: "ExistingHeaderPolicy \<Rightarrow> header_error option" where
  "validateExistingHeaderPolicy policy = (case policy of
     ExistingPolicyOther _ \<Rightarrow> Some (HeaderPolicyInvalid policy) | _ \<Rightarrow> None)"

definition normalizeContextHeaderValueLimit :: "int \<Rightarrow> bool \<Rightarrow> (header_error, int) result" where
  "normalizeContextHeaderValueLimit maxValueBytes disabled =
     (if maxValueBytes < 0 then Inl HeaderLimitNegative
      else if disabled \<and> maxValueBytes > 0 then Inl HeaderLimitSetAndDisabled
      else if disabled then Inr 0
      else if maxValueBytes = 0 then Inr DefaultContextHeaderMaxValueBytes
      else Inr maxValueBytes)"

definition normalizeContextHeaderBinding ::
  "ContextHeaderBinding \<Rightarrow> (header_error, normalizedContextHeaderBinding) result" where
  "normalizeContextHeaderBinding b =
     (let header = TrimSpace (chb_header b)
      in if header = '''' then Inl HeaderNameRequired
         else if header \<noteq> chb_header b then Inl (HeaderNameWhitespace (chb_header b))
         else if \<not> validHTTPFieldName header then Inl (HeaderNameInvalid header)
         else
           (let header = canonical_key header
            in case chb_provider b of
                 None \<Rightarrow> Inl (HeaderProviderRequired header)
               | Some provider \<Rightarrow>
                   if provider = HeaderValueProviderFunc None then Inl (HeaderProviderRequired header)
                   else guard_error id (validateExistingHeaderPolicy (chb_existing b))
                     (bind_result (normalizeContextHeaderValueLimit (chb_max_value_bytes b) (chb_disable_limit b))
                       (\<lambda>maxValueBytes. Inr
                          \<lparr>nb_header = header, nb_provider = provider,
                           nb_existing = chb_existing b, nb_max_value_bytes = maxValueBytes\<rparr>))))"

text \<open>The loop of the constructor: \<open>seen\<close> is the map of canonical names, \<open>acc\<close> the bindings so far.\<close>

fun normalize_bindings ::
  "string list \<Rightarrow> normalizedContextHeaderBinding list \<Rightarrow> ContextHeaderBinding list
   \<Rightarrow> (header_error, normalizedContextHeaderBinding list) result" where
  "normalize_bindings seen acc [] = Inr acc"
| "normalize_bindings seen acc (b # bs) = (case normalizeContextHeaderBinding b of
     Inl e \<Rightarrow> Inl e
   | Inr n \<Rightarrow> if nb_header n \<in> set seen then Inl (HeaderDuplicate (nb_header n))
              else normalize_bindings (nb_header n # seen) (acc @ [n]) bs)"

section \<open>Propagators\<close>

datatype HeaderPropagator =
    HeaderPropagatorFunc "nat option"
  | NopHeaderPropagator
  | DefaultOpenTelemetry "nat option"
  | SafeHeader HeaderPropagator
  | MultiHeader "HeaderPropagator list"
  | ContextHeader "normalizedContextHeaderBinding list"
  | UserPropagator nat

definition NewContextHeaderPropagator :: "ContextHeaderBinding list \<Rightarrow> (header_error, HeaderPropagator) result" where
  "NewContextHeaderPropagator bindings =
     (if bindings = [] then Inr NopHeaderPropagator
      else bind_result (normalize_bindings [] [] bindings) (\<lambda>normalized. Inr (ContextHeader normalized)))"

definition metadata_binding ::
  "RequestMetadataConfig \<Rightarrow> string \<Rightarrow> string \<Rightarrow> HeaderValueProvider \<Rightarrow> ContextHeaderBinding" where
  "metadata_binding cfg header fallback provider =
     \<lparr>chb_header = (if header = '''' then fallback else header), chb_provider = Some provider,
      chb_existing = rmc_existing cfg, chb_max_value_bytes = rmc_max_value_bytes cfg,
      chb_disable_limit = rmc_disable_limit cfg\<rparr>"

definition NewRequestMetadataPropagator :: "RequestMetadataConfig \<Rightarrow> (header_error, HeaderPropagator) result" where
  "NewRequestMetadataPropagator cfg =
     (if rmc_request_id cfg = None \<and> rmc_request_id_header cfg \<noteq> '''' then Inl RequestIDRequiresProvider
      else if rmc_correlation_id cfg = None \<and> rmc_correlation_id_header cfg \<noteq> ''''
      then Inl CorrelationIDRequiresProvider
      else guard_error id (validateExistingHeaderPolicy (rmc_existing cfg))
        (bind_result (normalizeContextHeaderValueLimit (rmc_max_value_bytes cfg) (rmc_disable_limit cfg))
          (\<lambda>_. NewContextHeaderPropagator
             ((case rmc_request_id cfg of None \<Rightarrow> []
               | Some p \<Rightarrow> [metadata_binding cfg (rmc_request_id_header cfg) DefaultRequestIDHeader p]) @
              (case rmc_correlation_id cfg of None \<Rightarrow> []
               | Some p \<Rightarrow> [metadata_binding cfg (rmc_correlation_id_header cfg) DefaultCorrelationIDHeader p])))))"

text \<open>
  Caller code: what a provider answers for the context of this round trip, and the entries a
  propagator leaves in the header map (a nil map stays nil) before it returns or panics.
\<close>

record header_code =
  provide :: "nat \<Rightarrow> (string \<times> bool) call"
  propagate :: "nat \<Rightarrow> header option \<Rightarrow> header \<times> unit call"

definition contextHeaderValue :: "header_code \<Rightarrow> HeaderValueProvider \<Rightarrow> string \<times> bool" where
  "contextHeaderValue u provider = recovered ('''', False) (case provider of
     HeaderValueProviderFunc None \<Rightarrow> Returned ('''', False)
   | HeaderValueProviderFunc (Some i) \<Rightarrow> provide u i
   | UserProvider i \<Rightarrow> provide u i)"

definition header_value_byte :: "char \<Rightarrow> bool" where
  "header_value_byte c \<longleftrightarrow> byte c = 9 \<or> 32 \<le> byte c \<and> byte c \<noteq> 127"

definition validContextHeaderValue :: "string \<Rightarrow> int \<Rightarrow> bool" where
  "validContextHeaderValue value maxValueBytes \<longleftrightarrow>
     \<not> (value = '''' \<or> maxValueBytes > 0 \<and> int (length value) > maxValueBytes) \<and>
     list_all header_value_byte value"

definition headerIsPresent :: "(rune \<Rightarrow> rune) \<Rightarrow> header \<Rightarrow> string \<Rightarrow> bool" where
  "headerIsPresent ext headers name \<longleftrightarrow> list_ex (\<lambda>e. equal_fold ext (fst e) name) headers"

definition setContextHeader :: "(rune \<Rightarrow> rune) \<Rightarrow> string \<Rightarrow> string \<Rightarrow> header \<Rightarrow> header" where
  "setContextHeader ext name value headers =
     header_set name value (filter (\<lambda>e. \<not> (fst e \<noteq> name \<and> equal_fold ext (fst e) name)) headers)"

definition inject_binding ::
  "(rune \<Rightarrow> rune) \<Rightarrow> header_code \<Rightarrow> header \<Rightarrow> normalizedContextHeaderBinding \<Rightarrow> header" where
  "inject_binding ext u headers b =
     (let preserveExisting = nb_existing b = PreserveExistingHeader \<and> headerIsPresent ext headers (nb_header b);
          (value, ok) = contextHeaderValue u (nb_provider b)
      in if preserveExisting \<or> \<not> ok \<or> \<not> validContextHeaderValue value (nb_max_value_bytes b) then headers
         else setContextHeader ext (nb_header b) value headers)"

text \<open>Writing entries into an empty map, a later one replacing an earlier one with the same key.\<close>

definition write_entries :: "header \<Rightarrow> header" where
  "write_entries es = foldl (\<lambda>h (key, values). header_put key values h) [] es"

definition restoreHeaders :: "header option \<Rightarrow> header option \<Rightarrow> header option" where
  "restoreHeaders headers backup = (case headers of
     None \<Rightarrow> None
   | Some _ \<Rightarrow> Some (write_entries (case backup of None \<Rightarrow> [] | Some b \<Rightarrow> b)))"

definition injectHeaderSafely ::
  "(header option \<Rightarrow> header option \<times> unit call) \<Rightarrow> header option \<Rightarrow> header option" where
  "injectHeaderSafely inject headers =
     (case inject headers of
        (headers', Returned _) \<Rightarrow> headers'
      | (headers', Panicked) \<Rightarrow> restoreHeaders headers' headers)"

definition user_inject :: "header_code \<Rightarrow> nat \<Rightarrow> header option \<Rightarrow> header option \<times> unit call" where
  "user_inject u i headers = (let (h, c) = propagate u i headers
     in (case headers of None \<Rightarrow> None | Some _ \<Rightarrow> Some (write_entries h), c))"

fun Inject :: "(rune \<Rightarrow> rune) \<Rightarrow> header_code \<Rightarrow> HeaderPropagator \<Rightarrow> header option \<Rightarrow> header option \<times> unit call" where
  "Inject ext u (HeaderPropagatorFunc fn) headers =
     (case fn of None \<Rightarrow> (headers, Returned ()) | Some i \<Rightarrow> user_inject u i headers)"
| "Inject ext u NopHeaderPropagator headers = (headers, Returned ())"
| "Inject ext u (DefaultOpenTelemetry p) headers =
     (case p of None \<Rightarrow> (headers, Returned ())
      | Some i \<Rightarrow> if headers = None then (headers, Returned ()) else user_inject u i headers)"
| "Inject ext u (SafeHeader p) headers = (injectHeaderSafely (Inject ext u p) headers, Returned ())"
| "Inject ext u (MultiHeader ps) headers =
     (foldl (\<lambda>h inject. injectHeaderSafely inject h) headers (map (Inject ext u) ps), Returned ())"
| "Inject ext u (ContextHeader bs) headers =
     (map_option (\<lambda>h. foldl (inject_binding ext u) h bs) headers, Returned ())"
| "Inject ext u (UserPropagator i) headers = user_inject u i headers"

definition is_safe_propagator :: "HeaderPropagator \<Rightarrow> bool" where
  "is_safe_propagator p = (case p of
     NopHeaderPropagator \<Rightarrow> True | SafeHeader _ \<Rightarrow> True | MultiHeader _ \<Rightarrow> True | _ \<Rightarrow> False)"

definition SafeHeaderPropagator :: "HeaderPropagator option \<Rightarrow> HeaderPropagator" where
  "SafeHeaderPropagator propagator = (case propagator of
     None \<Rightarrow> NopHeaderPropagator
   | Some p \<Rightarrow> if is_safe_propagator p then p else SafeHeader p)"

definition MultiHeaderPropagator :: "HeaderPropagator option list \<Rightarrow> HeaderPropagator" where
  "MultiHeaderPropagator propagators =
     (case List.map_filter (\<lambda>p. p) propagators of
        [] \<Rightarrow> NopHeaderPropagator
      | [p] \<Rightarrow> SafeHeaderPropagator (Some p)
      | usable \<Rightarrow> MultiHeader usable)"

section \<open>The contract of a contained propagator\<close>

text \<open>
  A Go map has one entry per key. A contained propagator returns and leaves a well-formed map that
  is nil exactly when it was.
\<close>

definition wf_header :: "header option \<Rightarrow> bool" where
  "wf_header h \<longleftrightarrow> (case h of None \<Rightarrow> True | Some es \<Rightarrow> distinct (map fst es))"

lemma wf_header_simps [simp]:
  "wf_header None"
  "wf_header (Some es) = distinct (map fst es)"
  by (simp_all add: wf_header_def)

locale contained_propagator =
  fixes inject :: "header option \<Rightarrow> header option \<times> unit call"
  assumes returns: "snd (inject h) = Returned ()"
    and keeps_nil: "fst (inject h) = None \<longleftrightarrow> h = None"
    and keeps_wf: "wf_header h \<Longrightarrow> wf_header (fst (inject h))"
begin

lemma safely_same: "injectHeaderSafely inject h = fst (inject h)"
  using returns [of h] by (cases "inject h") (simp add: injectHeaderSafely_def)

end

lemma write_entries_wf: "distinct (map fst (write_entries es))"
proof -
  have "distinct (map fst h) \<Longrightarrow> distinct (map fst (foldl (\<lambda>h (key, values). header_put key values h) h es))" for h
  proof (induction es arbitrary: h)
    case (Cons e es)
    have "distinct (map fst (header_put (fst e) (snd e) h))"
      using Cons.prems by (auto simp: keys_header_put)
    with Cons.IH show ?case by (simp add: case_prod_unfold)
  qed simp
  then show ?thesis by (simp add: write_entries_def)
qed

lemma write_entries_id: "distinct (map fst b) \<Longrightarrow> write_entries b = b"
proof -
  assume d: "distinct (map fst b)"
  have absent: "header_put k vs h = h @ [(k, vs)]" if "k \<notin> set (map fst h)" for k vs h
    using that by (induction h) auto
  have "distinct (map fst (acc @ b)) \<Longrightarrow> foldl (\<lambda>h (key, values). header_put key values h) acc b = acc @ b" for acc
    by (induction b arbitrary: acc) (auto simp: absent)
  from this [of "[]"] d show ?thesis by (simp add: write_entries_def)
qed

text \<open>After a panic the map is what it was before.\<close>

lemma injectHeaderSafely_restores:
  assumes "wf_header h" "snd (inject h) = Panicked" "fst (inject h) = None \<longleftrightarrow> h = None"
  shows "injectHeaderSafely inject h = h"
  using assms
  by (cases "inject h"; cases h) (auto simp: injectHeaderSafely_def restoreHeaders_def write_entries_id)

lemma injectHeaderSafely_returned:
  "snd (inject h) = Returned () \<Longrightarrow> injectHeaderSafely inject h = fst (inject h)"
  by (cases "inject h") (simp add: injectHeaderSafely_def)

lemma injectHeaderSafely_nil:
  "(fst (inject h) = None \<longleftrightarrow> h = None) \<Longrightarrow> injectHeaderSafely inject h = None \<longleftrightarrow> h = None"
  by (cases "inject h"; cases "snd (inject h)") (auto simp: injectHeaderSafely_def restoreHeaders_def split: option.split)

lemma injectHeaderSafely_wf:
  "wf_header (fst (inject h)) \<Longrightarrow> wf_header (injectHeaderSafely inject h)"
  by (cases "inject h"; cases "snd (inject h)")
     (auto simp: injectHeaderSafely_def restoreHeaders_def write_entries_wf split: option.split)

lemma header_put_wf: "distinct (map fst h) \<Longrightarrow> distinct (map fst (header_put k vs h))"
  by (auto simp: keys_header_put)

lemma inject_binding_wf: "distinct (map fst h) \<Longrightarrow> distinct (map fst (inject_binding ext u h b))"
  by (auto simp: inject_binding_def Let_def setContextHeader_def header_set_def case_prod_unfold
      intro!: header_put_wf distinct_map_filter)

lemma inject_bindings_wf:
  "distinct (map fst h) \<Longrightarrow> distinct (map fst (foldl (inject_binding ext u) h bs))"
  by (induction bs arbitrary: h) (simp_all add: inject_binding_wf)

lemma user_inject_contract:
  "fst (user_inject u i h) = None \<longleftrightarrow> h = None"
  "wf_header (fst (user_inject u i h))"
  by (auto simp: user_inject_def write_entries_wf wf_header_def case_prod_unfold Let_def split: option.split)

text \<open>Every propagator keeps nil maps nil and keys unique.\<close>

lemma Inject_nil: "fst (Inject ext u p h) = None \<longleftrightarrow> h = None"
proof (induction p arbitrary: h)
  case (MultiHeader ps)
  have "foldl (\<lambda>h inject. injectHeaderSafely inject h) h (map (Inject ext u) qs) = None \<longleftrightarrow> h = None"
    if "set qs \<subseteq> set ps" for qs
    using that by (induction qs arbitrary: h) (auto simp: injectHeaderSafely_nil MultiHeader)
  then show ?case by simp
qed (auto simp: user_inject_contract injectHeaderSafely_nil split: option.split)

lemma Inject_wf: "wf_header h \<Longrightarrow> wf_header (fst (Inject ext u p h))"
proof (induction p arbitrary: h)
  case (MultiHeader ps)
  have "wf_header h \<Longrightarrow> wf_header (foldl (\<lambda>h inject. injectHeaderSafely inject h) h (map (Inject ext u) qs))"
    if "set qs \<subseteq> set ps" for qs
    using that by (induction qs arbitrary: h) (auto intro!: injectHeaderSafely_wf MultiHeader)
  with MultiHeader.prems show ?case by simp
next
  case (ContextHeader bs)
  then show ?case by (cases h) (auto intro: inject_bindings_wf)
qed (auto simp: user_inject_contract injectHeaderSafely_wf split: option.split)

lemma safe_returns: "is_safe_propagator p \<Longrightarrow> snd (Inject ext u p h) = Returned ()"
  by (cases p) (simp_all add: is_safe_propagator_def)

lemma SafeHeaderPropagator_safe: "is_safe_propagator (SafeHeaderPropagator p)"
  by (auto simp: SafeHeaderPropagator_def is_safe_propagator_def split: option.split)

lemma MultiHeaderPropagator_safe: "is_safe_propagator (MultiHeaderPropagator ps)"
  by (auto simp: MultiHeaderPropagator_def SafeHeaderPropagator_safe split: list.split)
     (simp_all add: is_safe_propagator_def)

lemma SafeHeaderPropagator_fixed: "is_safe_propagator p \<Longrightarrow> SafeHeaderPropagator (Some p) = p"
  by (simp add: SafeHeaderPropagator_def)

interpretation safe_header: contained_propagator "Inject ext u (SafeHeaderPropagator p)" for ext u p
  by unfold_locales (simp_all add: safe_returns SafeHeaderPropagator_safe Inject_nil Inject_wf)

interpretation multi_header: contained_propagator "Inject ext u (MultiHeaderPropagator ps)" for ext u ps
  by unfold_locales (simp_all add: safe_returns MultiHeaderPropagator_safe Inject_nil Inject_wf)

interpretation context_header: contained_propagator "Inject ext u (ContextHeader bs)" for ext u bs
  by unfold_locales (simp_all add: Inject_nil Inject_wf del: Inject.simps(6), simp)

section \<open>What the context propagator writes\<close>

lemma runes_ascii: "list_all (\<lambda>c. byte c < 128) s \<Longrightarrow> runes s = map byte s"
proof (induction s)
  case Nil
  then show ?case by simp
next
  case (Cons c s)
  then show ?case by (subst runes.simps) simp
qed

lemma equal_fold_ascii:
  "list_all (\<lambda>c. byte c < 128) s \<Longrightarrow> list_all (\<lambda>c. byte c < 128) t \<Longrightarrow>
   equal_fold ext s t \<longleftrightarrow> map (\<lambda>c. ascii_lower (byte c)) s = map (\<lambda>c. ascii_lower (byte c)) t"
proof -
  have fold: "list_all (\<lambda>c. byte c < 128) s \<Longrightarrow> map (fold_rune ext) (runes s) = map (\<lambda>c. ascii_lower (byte c)) s" for s
    by (simp add: runes_ascii fold_rune_def list_all_iff)
  then show "list_all (\<lambda>c. byte c < 128) s \<Longrightarrow> list_all (\<lambda>c. byte c < 128) t \<Longrightarrow> ?thesis"
    by (simp add: equal_fold_def)
qed

lemma token_ascii: "http_token_byte c \<Longrightarrow> byte c < 128"
  by (auto simp: http_token_byte_def)

text \<open>Two field names are equal under case folding exactly when their canonical keys agree.\<close>

lemma canonical_bytes_lower:
  "map (\<lambda>c. ascii_lower (byte c)) s = map (\<lambda>c. ascii_lower (byte c)) t \<Longrightarrow>
   canonical_bytes up s = canonical_bytes up t"
proof (induction s arbitrary: t up)
  case (Cons c s)
  then obtain d t' where t: "t = d # t'" by (cases t) auto
  with Cons.prems have d: "ascii_lower (byte c) = ascii_lower (byte d)" by simp
  have up: "ascii_upper (byte c) = ascii_upper (byte d)"
    using d by (auto simp: ascii_lower_def ascii_upper_def split: if_splits)
  have dash: "c = CHR ''-'' \<longleftrightarrow> d = CHR ''-''"
    using d by (metis ascii_case_dash(2) dash_byte)
  show ?case using Cons t d up dash by simp
qed simp

lemma lower_canonical_bytes:
  "list_all http_token_byte s \<Longrightarrow>
   map (\<lambda>c. ascii_lower (byte c)) (canonical_bytes up s) = map (\<lambda>c. ascii_lower (byte c)) s"
proof (induction s arbitrary: up)
  case (Cons c s)
  have "ascii_lower (ascii_upper (byte c)) = ascii_lower (byte c)"
    by (auto simp: ascii_lower_def ascii_upper_def)
  with Cons show ?case by (simp add: byte_byte_char ascii_case_less byte_less ascii_case_idem)
qed simp

lemma equal_fold_canonical:
  assumes "list_all http_token_byte s" "list_all http_token_byte t"
  shows "equal_fold ext s t \<longleftrightarrow> canonical_key s = canonical_key t"
proof -
  have a: "list_all (\<lambda>c. byte c < 128) s" "list_all (\<lambda>c. byte c < 128) t"
    using assms by (auto simp: list_all_iff token_ascii)
  show ?thesis
  proof
    assume "equal_fold ext s t"
    then show "canonical_key s = canonical_key t"
      using assms canonical_bytes_lower [of s t True] unfolding equal_fold_ascii [OF a] canonical_key_def
      by simp
  next
    assume "canonical_key s = canonical_key t"
    then have "canonical_bytes True s = canonical_bytes True t" using assms by (simp add: canonical_key_def)
    then show "equal_fold ext s t"
      unfolding equal_fold_ascii [OF a]
      using lower_canonical_bytes [OF assms(1), of True] lower_canonical_bytes [OF assms(2), of True] by simp
  qed
qed

text \<open>A normalized binding names a valid field in canonical form and carries a usable limit.\<close>

definition binding_ok :: "normalizedContextHeaderBinding \<Rightarrow> bool" where
  "binding_ok b \<longleftrightarrow> validHTTPFieldName (nb_header b) \<and> canonical_key (nb_header b) = nb_header b \<and>
     nb_provider b \<noteq> HeaderValueProviderFunc None \<and> 0 \<le> nb_max_value_bytes b \<and>
     nb_existing b \<in> {PreserveExistingHeader, OverwriteExistingHeader}"

lemma httpTokenByte_eq: "httpTokenByte = http_token_byte"
  by (rule ext) (simp add: httpTokenByte_def http_token_byte_def)

lemma canonical_bytes_Nil [simp]: "canonical_bytes up s = [] \<longleftrightarrow> s = []"
  by (cases s) auto

lemma canonical_field: "validHTTPFieldName s \<Longrightarrow> validHTTPFieldName (canonical_key s)"
  by (simp add: validHTTPFieldName_def httpTokenByte_eq canonical_key_def canonical_bytes_token)

lemma normalizeContextHeaderBinding_ok:
  "normalizeContextHeaderBinding b = Inr n \<Longrightarrow> binding_ok n"
  by (auto simp: normalizeContextHeaderBinding_def Let_def guard_error_Inr bind_result_Inr binding_ok_def
      canonical_key_idem canonical_field validateExistingHeaderPolicy_def
      normalizeContextHeaderValueLimit_def DefaultContextHeaderMaxValueBytes_def
      split: if_splits option.splits ExistingHeaderPolicy.splits)

lemma normalize_bindings_ok:
  "normalize_bindings seen acc bs = Inr ns \<Longrightarrow> set (map nb_header acc) \<subseteq> set seen \<Longrightarrow>
   distinct (map nb_header acc) \<Longrightarrow> list_all binding_ok acc \<Longrightarrow>
   list_all binding_ok ns \<and> distinct (map nb_header ns) \<and> length ns = length acc + length bs"
  by (induction seen acc bs rule: normalize_bindings.induct)
     (auto simp: list_all_iff split: if_splits sum.splits dest: normalizeContextHeaderBinding_ok)

lemma NewContextHeaderPropagator_ok:
  assumes "NewContextHeaderPropagator bs = Inr p"
  shows "p = NopHeaderPropagator \<and> bs = [] \<or>
     (\<exists>ns. p = ContextHeader ns \<and> list_all binding_ok ns \<and> distinct (map nb_header ns) \<and> length ns = length bs)"
  using assms normalize_bindings_ok [of "[]" "[]" bs]
  by (auto simp: NewContextHeaderPropagator_def bind_result_Inr split: if_splits)

text \<open>
  Every entry of the resulting map is an entry of the original or one validated value under the name
  of a binding: no control byte can be injected through a context value.
\<close>

lemma set_header_put: "e \<in> set (header_put k vs h) \<Longrightarrow> e = (k, vs) \<or> e \<in> set h"
  by (induction h) (auto split: if_splits)

lemma inject_binding_values:
  assumes "binding_ok b" "e \<in> set (inject_binding ext u h b)"
  shows "e \<in> set h \<or> (\<exists>v. e = (nb_header b, [v]) \<and> validContextHeaderValue v (nb_max_value_bytes b))"
  using assms
  by (auto simp: inject_binding_def setContextHeader_def header_set_def binding_ok_def
      split: if_splits prod.splits dest!: set_header_put)

lemma inject_bindings_values:
  assumes "list_all binding_ok bs" "e \<in> set (foldl (inject_binding ext u) h bs)"
  shows "e \<in> set h \<or> (\<exists>b \<in> set bs. \<exists>v. e = (nb_header b, [v]) \<and> validContextHeaderValue v (nb_max_value_bytes b))"
  using assms
proof (induction bs arbitrary: h)
  case (Cons b bs)
  then consider "e \<in> set (inject_binding ext u h b)"
    | "\<exists>b \<in> set bs. \<exists>v. e = (nb_header b, [v]) \<and> validContextHeaderValue v (nb_max_value_bytes b)"
    by fastforce
  then show ?case
    using inject_binding_values [of b e ext u h] Cons.prems(1) by cases auto
qed simp

text \<open>Headers whose names fold to no binding are left alone.\<close>

lemma map_of_filter_key: "P k \<Longrightarrow> map_of (filter (\<lambda>e. P (fst e)) h) k = map_of h k"
  by (induction h) auto

lemma inject_binding_other:
  assumes "binding_ok b" "\<not> equal_fold ext k (nb_header b)"
  shows "map_of (inject_binding ext u h b) k = map_of h k"
proof -
  have ne: "k \<noteq> nb_header b" using assms(2) by auto
  have "map_of (setContextHeader ext (nb_header b) v h) k = map_of h k" for v
    using assms ne map_of_filter_key [of "\<lambda>n. \<not> (n \<noteq> nb_header b \<and> equal_fold ext n (nb_header b))" k h]
    by (simp add: setContextHeader_def header_set_def map_of_header_put binding_ok_def)
  then show ?thesis by (simp add: inject_binding_def Let_def case_prod_unfold)
qed

lemma inject_bindings_other:
  "list_all binding_ok bs \<Longrightarrow> (\<forall>b \<in> set bs. \<not> equal_fold ext k (nb_header b)) \<Longrightarrow>
   map_of (foldl (inject_binding ext u) h bs) k = map_of h k"
  by (induction bs arbitrary: h) (auto simp: inject_binding_other)

text \<open>An explicitly present header survives under the default policy, and a written one is the only
  spelling of its name.\<close>

lemma inject_binding_preserves:
  "nb_existing b = PreserveExistingHeader \<Longrightarrow> headerIsPresent ext h (nb_header b) \<Longrightarrow>
   inject_binding ext u h b = h"
  by (simp add: inject_binding_def case_prod_unfold)

lemma inject_binding_writes:
  assumes "binding_ok b" "contextHeaderValue u (nb_provider b) = (v, True)"
    and "validContextHeaderValue v (nb_max_value_bytes b)"
    and "nb_existing b = OverwriteExistingHeader \<or> \<not> headerIsPresent ext h (nb_header b)"
  shows "map_of (inject_binding ext u h b) (nb_header b) = Some [v]"
    and "(k, vs) \<in> set (inject_binding ext u h b) \<Longrightarrow> equal_fold ext k (nb_header b) \<Longrightarrow> k = nb_header b"
  using assms
  by (auto simp: inject_binding_def setContextHeader_def header_set_def binding_ok_def map_of_header_put
      dest!: set_header_put)

section \<open>The context propagator against its bindings\<close>

text \<open>What the configuration of a binding promises: the value its provider gives, which values are clean, and
  which one reaches a header map.\<close>

definition provided_value :: "header_code \<Rightarrow> ContextHeaderBinding \<Rightarrow> string option" where
  "provided_value u b =
     (let answer = (\<lambda>i. case provide u i of Returned (v, True) \<Rightarrow> Some v | _ \<Rightarrow> None)
      in case chb_provider b of
           Some (HeaderValueProviderFunc (Some i)) \<Rightarrow> answer i
         | Some (UserProvider i) \<Rightarrow> answer i
         | _ \<Rightarrow> None)"

definition clean_value :: "ContextHeaderBinding \<Rightarrow> string \<Rightarrow> bool" where
  "clean_value b v \<longleftrightarrow> v \<noteq> '''' \<and> (\<forall>c \<in> set v. byte c \<noteq> 127 \<and> (32 \<le> byte c \<or> byte c = 9)) \<and>
     (chb_disable_limit b \<or> int (length v) \<le> (if chb_max_value_bytes b = 0 then 256 else chb_max_value_bytes b))"

definition injected_value :: "(rune \<Rightarrow> rune) \<Rightarrow> header_code \<Rightarrow> header \<Rightarrow> ContextHeaderBinding \<Rightarrow> string option" where
  "injected_value ext u h b =
     (if chb_existing b = PreserveExistingHeader \<and> (\<exists>e \<in> set h. equal_fold ext (fst e) (chb_header b)) then None
      else (case provided_value u b of None \<Rightarrow> None | Some v \<Rightarrow> if clean_value b v then Some v else None))"

text \<open>The normalized binding keeps what the caller configured.\<close>

lemma normalizeContextHeaderBinding_keeps:
  assumes "normalizeContextHeaderBinding b = Inr n"
  shows "nb_header n = canonical_key (chb_header b)" "Some (nb_provider n) = chb_provider b" "nb_existing n = chb_existing b"
    and "nb_max_value_bytes n =
      (if chb_disable_limit b then 0 else if chb_max_value_bytes b = 0 then 256 else chb_max_value_bytes b)"
    and "0 \<le> chb_max_value_bytes b" "list_all http_token_byte (chb_header b)"
  using assms
  by (auto simp: normalizeContextHeaderBinding_def Let_def guard_error_Inr bind_result_Inr
      normalizeContextHeaderValueLimit_def DefaultContextHeaderMaxValueBytes_def validHTTPFieldName_def httpTokenByte_eq
      split: if_splits option.splits)

lemma normalize_bindings_keep:
  "normalize_bindings seen acc bs = Inr ns \<Longrightarrow>
   \<exists>ms. ns = acc @ ms \<and> list_all2 (\<lambda>b n. normalizeContextHeaderBinding b = Inr n) bs ms"
  by (induction seen acc bs arbitrary: ns rule: normalize_bindings.induct) (fastforce split: if_splits sum.splits)+

lemma folds_canonical:
  assumes "normalizeContextHeaderBinding b = Inr n"
  shows "equal_fold ext k (nb_header n) \<longleftrightarrow> equal_fold ext k (chb_header b)"
proof -
  note n = normalizeContextHeaderBinding_keeps [OF assms]
  have "list_all http_token_byte (canonical_key (chb_header b))" using n(6) by (simp add: canonical_key_def canonical_bytes_token)
  with n(6) have "equal_fold ext (canonical_key (chb_header b)) (chb_header b)"
    by (simp add: equal_fold_canonical canonical_key_idem)
  then show ?thesis unfolding n(1) using equal_fold_trans equal_fold_sym by metis
qed

text \<open>What one normalized binding writes, as a function of the map it meets.\<close>

definition written_value :: "(rune \<Rightarrow> rune) \<Rightarrow> header_code \<Rightarrow> header \<Rightarrow> normalizedContextHeaderBinding \<Rightarrow> string option" where
  "written_value ext u h n =
     (if nb_existing n = PreserveExistingHeader \<and> headerIsPresent ext h (nb_header n) then None
      else (case contextHeaderValue u (nb_provider n) of
        (v, ok) \<Rightarrow> if ok \<and> validContextHeaderValue v (nb_max_value_bytes n) then Some v else None))"

lemma written_injected:
  assumes "normalizeContextHeaderBinding b = Inr n"
  shows "written_value ext u h n = injected_value ext u h b"
proof -
  note n = normalizeContextHeaderBinding_keeps [OF assms]
  have v: "validContextHeaderValue v (nb_max_value_bytes n) \<longleftrightarrow> clean_value b v" for v
    using n(5) unfolding n(4)
    by (auto simp: validContextHeaderValue_def clean_value_def header_value_byte_def list_all_iff)
  have p: "headerIsPresent ext h (nb_header n) \<longleftrightarrow> (\<exists>e \<in> set h. equal_fold ext (fst e) (chb_header b))"
    by (simp add: headerIsPresent_def list_ex_iff folds_canonical [OF assms])
  have "provided_value u b = (case contextHeaderValue u (nb_provider n) of (v, ok) \<Rightarrow> if ok then Some v else None)"
    unfolding provided_value_def n(2) [symmetric]
    by (auto simp: contextHeaderValue_def Let_def split: HeaderValueProvider.split option.split call.split prod.split)
  then show ?thesis
    by (auto simp: written_value_def injected_value_def p v n(3) split: prod.split)
qed

lemma inject_binding_written:
  assumes "binding_ok n" "equal_fold ext k (nb_header n)"
  shows "map_of (inject_binding ext u h n) k =
     (case written_value ext u h n of None \<Rightarrow> map_of h k | Some v \<Rightarrow> if k = nb_header n then Some [v] else None)"
proof -
  have gone: "map_of (filter (\<lambda>e. \<not> (fst e \<noteq> nb_header n \<and> equal_fold ext (fst e) (nb_header n))) h) k = None"
    if "k \<noteq> nb_header n"
    using assms(2) that by (auto simp: map_of_eq_None_iff)
  show ?thesis
    using assms(1) gone
    by (auto simp: inject_binding_def written_value_def setContextHeader_def header_set_def binding_ok_def map_of_header_put
        Let_def split: prod.split)
qed

text \<open>Bindings of different names do not see each other.\<close>

lemma names_apart:
  assumes "binding_ok m" "binding_ok n" "nb_header m \<noteq> nb_header n" "equal_fold ext k (nb_header n)"
  shows "\<not> equal_fold ext k (nb_header m)"
proof
  assume "equal_fold ext k (nb_header m)"
  then have "equal_fold ext (nb_header m) (nb_header n)" using assms(4) equal_fold_trans equal_fold_sym by metis
  with assms(1-3) show False
    by (simp add: equal_fold_canonical binding_ok_def validHTTPFieldName_def httpTokenByte_eq)
qed

lemma present_iff: "headerIsPresent ext h name \<longleftrightarrow> (\<exists>k. map_of h k \<noteq> None \<and> equal_fold ext k name)"
proof -
  have "(\<exists>k. map_of h k \<noteq> None \<and> equal_fold ext k name) \<longleftrightarrow> (\<exists>k \<in> fst ` set h. equal_fold ext k name)"
    by (metis map_of_eq_None_iff)
  then show ?thesis by (simp add: headerIsPresent_def list_ex_iff)
qed

lemma written_value_cong:
  assumes "\<And>k. equal_fold ext k (nb_header n) \<Longrightarrow> map_of h' k = map_of h k"
  shows "written_value ext u h' n = written_value ext u h n"
  using assms unfolding written_value_def present_iff by metis

lemma inject_bindings_written:
  assumes "list_all binding_ok ns" "distinct (map nb_header ns)" "n \<in> set ns" "equal_fold ext k (nb_header n)"
  shows "map_of (foldl (inject_binding ext u) h ns) k =
     (case written_value ext u h n of None \<Rightarrow> map_of h k | Some v \<Rightarrow> if k = nb_header n then Some [v] else None)"
  using assms
proof (induction ns arbitrary: h)
  case (Cons m ns)
  have ok: "binding_ok m" "list_all binding_ok ns" using Cons.prems(1) by simp_all
  show ?case
  proof (cases "n = m")
    case True
    have "\<not> equal_fold ext k (nb_header b)" if "b \<in> set ns" for b
    proof (rule names_apart [OF _ ok(1) _ Cons.prems(4) [unfolded True]])
      show "binding_ok b" using ok(2) that by (simp add: list_all_iff)
      show "nb_header b \<noteq> nb_header m" using Cons.prems(2) imageI [OF that, of nb_header] by auto
    qed
    then have "\<forall>b \<in> set ns. \<not> equal_fold ext k (nb_header b)" by blast
    then have "map_of (foldl (inject_binding ext u) (inject_binding ext u h m) ns) k = map_of (inject_binding ext u h m) k"
      by (rule inject_bindings_other [OF ok(2)])
    then show ?thesis using inject_binding_written [OF ok(1), of ext k] Cons.prems(4) unfolding True by simp
  next
    case False
    with Cons.prems(3) have n: "n \<in> set ns" by simp
    have same: "map_of (inject_binding ext u h m) j = map_of h j" if "equal_fold ext j (nb_header n)" for j
    proof (rule inject_binding_other [OF ok(1)])
      have "nb_header m \<noteq> nb_header n" using Cons.prems(2) n by auto
      with n ok that show "\<not> equal_fold ext j (nb_header m)" by (intro names_apart) (auto simp: list_all_iff)
    qed
    have "written_value ext u (inject_binding ext u h m) n = written_value ext u h n" by (rule written_value_cong [OF same])
    with Cons.IH [OF ok(2) _ n Cons.prems(4), of "inject_binding ext u h m"] Cons.prems(2,4) same [OF Cons.prems(4)]
    show ?thesis by (simp split: option.split)
  qed
qed simp

lemma NewContextHeaderPropagator_keeps:
  assumes "NewContextHeaderPropagator bs = Inr p"
  obtains ns where "list_all2 (\<lambda>b n. normalizeContextHeaderBinding b = Inr n) bs ns" "list_all binding_ok ns"
    "distinct (map nb_header ns)" "\<And>ext u h. Inject ext u p (Some h) = (Some (foldl (inject_binding ext u) h ns), Returned ())"
proof (cases "bs = []")
  case True
  with assms show ?thesis by (intro that [of "[]"]) (auto simp: NewContextHeaderPropagator_def)
next
  case False
  with assms obtain ns where ns: "normalize_bindings [] [] bs = Inr ns" "p = ContextHeader ns"
    by (auto simp: NewContextHeaderPropagator_def bind_result_Inr)
  with normalize_bindings_keep [OF ns(1)] normalize_bindings_ok [OF ns(1)] show ?thesis by (intro that [of ns]) auto
qed

lemma context_propagator_writes:
  assumes "NewContextHeaderPropagator bs = Inr p"
  shows "distinct (map (\<lambda>b. canonical_key (chb_header b)) bs)"
    and "\<exists>es. Inject ext u p (Some h) = (Some es, Returned ()) \<and> (distinct (map fst h) \<longrightarrow> distinct (map fst es)) \<and>
      (\<forall>k. (\<forall>b \<in> set bs. \<not> equal_fold ext k (chb_header b)) \<longrightarrow> map_of es k = map_of h k) \<and>
      (\<forall>b \<in> set bs. \<forall>k. equal_fold ext k (chb_header b) \<longrightarrow> map_of es k =
         (case injected_value ext u h b of None \<Rightarrow> map_of h k
          | Some v \<Rightarrow> if k = canonical_key (chb_header b) then Some [v] else None))"
proof -
  obtain ns where ns: "list_all2 (\<lambda>b n. normalizeContextHeaderBinding b = Inr n) bs ns" "list_all binding_ok ns"
    "distinct (map nb_header ns)" "\<And>ext u h. Inject ext u p (Some h) = (Some (foldl (inject_binding ext u) h ns), Returned ())"
    using NewContextHeaderPropagator_keeps [OF assms] by blast
  have "map nb_header ns = map (\<lambda>b. canonical_key (chb_header b)) bs"
    using ns(1) by (induction rule: list_all2_induct) (auto dest: normalizeContextHeaderBinding_keeps(1))
  with ns(3) show "distinct (map (\<lambda>b. canonical_key (chb_header b)) bs)" by simp
  have other: "map_of (foldl (inject_binding ext u) h ns) k = map_of h k" if "\<forall>b \<in> set bs. \<not> equal_fold ext k (chb_header b)" for k
  proof (rule inject_bindings_other [OF ns(2)])
    show "\<forall>n \<in> set ns. \<not> equal_fold ext k (nb_header n)"
      using that ns(1) unfolding list_all2_conv_all_nth by (metis folds_canonical in_set_conv_nth)
  qed
  have own: "map_of (foldl (inject_binding ext u) h ns) k = (case injected_value ext u h b of None \<Rightarrow> map_of h k
      | Some v \<Rightarrow> if k = canonical_key (chb_header b) then Some [v] else None)"
    if b: "b \<in> set bs" "equal_fold ext k (chb_header b)" for b k
  proof -
    obtain n where n: "n \<in> set ns" "normalizeContextHeaderBinding b = Inr n"
      using b(1) ns(1) unfolding list_all2_conv_all_nth by (metis in_set_conv_nth)
    from inject_bindings_written [OF ns(2,3) n(1), of ext k u h] folds_canonical [OF n(2)] b(2)
    show ?thesis
      by (simp add: written_injected [OF n(2)] normalizeContextHeaderBinding_keeps(1) [OF n(2)] split: option.split)
  qed
  from other own inject_bindings_wf show "\<exists>es. Inject ext u p (Some h) = (Some es, Returned ()) \<and>
      (distinct (map fst h) \<longrightarrow> distinct (map fst es)) \<and>
      (\<forall>k. (\<forall>b \<in> set bs. \<not> equal_fold ext k (chb_header b)) \<longrightarrow> map_of es k = map_of h k) \<and>
      (\<forall>b \<in> set bs. \<forall>k. equal_fold ext k (chb_header b) \<longrightarrow> map_of es k =
         (case injected_value ext u h b of None \<Rightarrow> map_of h k
          | Some v \<Rightarrow> if k = canonical_key (chb_header b) then Some [v] else None))"
    unfolding ns(4) by blast
qed

end
