(* ===== verification/Http_Config.thy ===== *)
theory Http_Config
  imports Ck_Client Http_Options Http_Headers
begin

text \<open>
  Construction of the HTTP client: \<open>httpclient/config.go\<close>, \<open>defaults.go\<close>, the configuration half of
  \<open>check.go\<close>, \<open>client.go\<close> (New and the accessors) and \<open>request.go\<close>. The parser of \<open>net/url\<close> and the
  construction of the OpenTelemetry defaults are parameters.
\<close>

section \<open>Defaults\<close>

definition DefaultTimeout :: duration where
  "DefaultTimeout = 30 * Second"

definition DefaultAttemptTimeout :: duration where
  "DefaultAttemptTimeout = 10 * Second"

definition DefaultCheckTimeout :: duration where
  "DefaultCheckTimeout = 5 * Second"

definition DefaultCheckStaleAfter :: duration where
  "DefaultCheckStaleAfter = 90 * Second"

definition DefaultCheckMethod :: string where
  "DefaultCheckMethod = ''GET''"

definition DefaultCheckStatus :: int where
  "DefaultCheckStatus = 200"

definition ProtocolHTTP :: string where
  "ProtocolHTTP = ''http''"

text \<open>
  \<open>net/url\<close>: \<open>url.Parse\<close> (None is its error), \<open>EscapedPath\<close>, \<open>ResolveReference\<close> and \<open>String\<close>.
\<close>

record url_code =
  parse_url :: "string \<Rightarrow> URL option"
  escaped_path :: "URL \<Rightarrow> string"
  resolve_reference :: "URL \<Rightarrow> URL \<Rightarrow> URL"
  url_string :: "URL \<Rightarrow> string"

section \<open>Health-check configuration\<close>

record CheckConfig =
  cc_enabled :: bool
  cc_method :: string
  cc_path :: string
  cc_timeout :: duration
  cc_disable_timeout :: bool
  cc_stale_after :: duration
  cc_disable_stale_after :: bool
  cc_classifier :: "ResponseClassifier option"
  cc_retry :: RetryConfig
  cc_retry_safety :: RetrySafety

record normalizedCheckConfig =
  nc_enabled :: bool
  nc_method :: string
  nc_path :: string
  nc_timeout :: duration
  nc_stale_after :: duration
  nc_classifier :: safeResponseClassifier
  nc_retry :: RetryConfig
  nc_retry_safety :: RetrySafety

definition DefaultCheckConfig :: "string \<Rightarrow> CheckConfig" where
  "DefaultCheckConfig path = \<lparr>cc_enabled = True, cc_method = '''', cc_path = path, cc_timeout = 0,
     cc_disable_timeout = False, cc_stale_after = 0, cc_disable_stale_after = False,
     cc_classifier = None, cc_retry = zero_retry, cc_retry_safety = RetrySafetyDefault\<rparr>"

definition zero_check :: normalizedCheckConfig where
  "zero_check = \<lparr>nc_enabled = False, nc_method = '''', nc_path = '''', nc_timeout = 0,
     nc_stale_after = 0, nc_classifier = None, nc_retry = zero_retry,
     nc_retry_safety = RetrySafetyDefault\<rparr>"

datatype check_error =
    CheckRequiresEnabled | CheckMethodEmpty | CheckMethodInvalid string | CheckPathRequired
  | CheckPathInvalid | CheckPathNotRelative | CheckPathFragment | CheckDuration duration_error
  | CheckRetry retry_error | CheckRetrySafety safety_error

definition checkConfigHasValues :: "CheckConfig \<Rightarrow> bool" where
  "checkConfigHasValues cfg \<longleftrightarrow>
     cc_method cfg \<noteq> '''' \<or> cc_path cfg \<noteq> '''' \<or> cc_timeout cfg \<noteq> 0 \<or> cc_disable_timeout cfg \<or>
     cc_stale_after cfg \<noteq> 0 \<or> cc_disable_stale_after cfg \<or> cc_classifier cfg \<noteq> None \<or>
     \<not> retryConfigIsZero (cc_retry cfg) \<or> cc_retry_safety cfg \<noteq> RetrySafetyDefault"

definition normalizeCheckRetryConfig :: "RetryConfig \<Rightarrow> RetryConfig" where
  "normalizeCheckRetryConfig cfg =
     (if retryConfigIsZero cfg then cloneRetryConfig NoRetryConfig else cloneRetryConfig cfg)"

definition to_upper :: "(rune \<Rightarrow> rune) \<Rightarrow> string \<Rightarrow> string" where
  "to_upper ext s = map_string (\<lambda>r. Some (if r < 128 then ascii_upper r else ext r)) s"

definition standard_methods :: "string list" where
  "standard_methods = [''GET'', ''HEAD'', ''POST'', ''PUT'', ''PATCH'', ''DELETE'', ''CONNECT'',
     ''OPTIONS'', ''TRACE'']"

definition normalizeCheckMethod :: "(rune \<Rightarrow> rune) \<Rightarrow> string \<Rightarrow> (check_error, string) result" where
  "normalizeCheckMethod ext method =
     (if method = '''' then Inr DefaultCheckMethod
      else
        (let trimmed = TrimSpace method
         in if trimmed = '''' then Inl CheckMethodEmpty
            else
              (let upper = to_upper ext trimmed;
                   trimmed = (if upper \<in> set standard_methods then upper else trimmed)
               in if \<not> new_request_ok trimmed then Inl (CheckMethodInvalid trimmed) else Inr trimmed)))"

definition normalizeCheckConfig ::
  "(rune \<Rightarrow> rune) \<Rightarrow> url_code \<Rightarrow> CheckConfig \<Rightarrow> (check_error, normalizedCheckConfig) result" where
  "normalizeCheckConfig ext uc cfg =
     (if \<not> cc_enabled cfg then
        (if checkConfigHasValues cfg then Inl CheckRequiresEnabled else Inr zero_check)
      else bind_result (normalizeCheckMethod ext (cc_method cfg)) (\<lambda>method.
        if TrimSpace (cc_path cfg) = '''' then Inl CheckPathRequired
        else (case parse_url uc (cc_path cfg) of
          None \<Rightarrow> Inl CheckPathInvalid
        | Some reference \<Rightarrow>
            if is_abs reference \<or> u_host reference \<noteq> '''' \<or> u_opaque reference \<noteq> ''''
            then Inl CheckPathNotRelative
            else if u_fragment reference \<noteq> '''' \<or> u_raw_fragment reference \<noteq> ''''
            then Inl CheckPathFragment
            else
              bind_result (map_error CheckDuration (Duration ''HTTP health check timeout''
                (cc_timeout cfg) (cc_disable_timeout cfg) DefaultCheckTimeout 0)) (\<lambda>timeout.
              bind_result (map_error CheckDuration (Duration ''HTTP health check stale-after duration''
                (cc_stale_after cfg) (cc_disable_stale_after cfg) DefaultCheckStaleAfter 0)) (\<lambda>staleAfter.
              (let classifier = (case cc_classifier cfg of
                     None \<Rightarrow> ExactStatus DefaultCheckStatus | Some c \<Rightarrow> c);
                   retry = normalizeCheckRetryConfig (cc_retry cfg)
               in guard_error CheckRetry (validateRetryConfig retry)
                    (guard_error CheckRetrySafety (validateRetrySafety (cc_retry_safety cfg))
                      (Inr \<lparr>nc_enabled = True, nc_method = method, nc_path = cc_path cfg,
                        nc_timeout = timeout, nc_stale_after = staleAfter,
                        nc_classifier = normalizeResponseClassifier (Some classifier),
                        nc_retry = retry, nc_retry_safety = cc_retry_safety cfg\<rparr>))))))))"

text \<open>What a check configuration that was accepted satisfies.\<close>

definition check_inv :: "normalizedCheckConfig \<Rightarrow> bool" where
  "check_inv nc \<longleftrightarrow> (if nc_enabled nc then
     nc_method nc \<noteq> [] \<and> new_request_ok (nc_method nc) \<and> 0 \<le> nc_timeout nc \<and> 0 \<le> nc_stale_after nc \<and>
     retry_ok (nc_retry nc) \<and> validateRetrySafety (nc_retry_safety nc) = None
   else nc = zero_check)"

lemma normalizeCheckMethod_ok:
  "normalizeCheckMethod ext m = Inr m' \<Longrightarrow> m' \<noteq> [] \<and> new_request_ok m'"
  by (auto simp: normalizeCheckMethod_def Let_def DefaultCheckMethod_def new_request_ok_def
      http_token_byte_def standard_methods_def split: if_splits)

lemma normalizeCheckRetry_ok:
  "retry_ok (normalizeCheckRetryConfig cfg) \<longleftrightarrow> cfg = zero_retry \<or> retry_ok cfg"
  using retry_ok_not_zero [of cfg]
  by (auto simp: normalizeCheckRetryConfig_def zero_retry_iff no_retry_ok)

text \<open>A zero retry policy means one attempt for a health check.\<close>

lemma normalizeCheckRetry_default: "rc_max_attempts (normalizeCheckRetryConfig zero_retry) = 1"
  by (simp add: normalizeCheckRetryConfig_def zero_retry_iff cloneRetryConfig_def NoRetryConfig_def)

lemma normalizeCheckConfig_ok:
  "normalizeCheckConfig ext uc cfg = Inr nc \<Longrightarrow> check_inv nc \<and> nc_enabled nc = cc_enabled cfg"
  by (auto simp: normalizeCheckConfig_def bind_result_Inr guard_error_Inr Let_def check_inv_def zero_check_def
      validateRetryConfig_iff DefaultCheckTimeout_def DefaultCheckStaleAfter_def
      Second_def
      split: if_splits option.splits dest: normalizeCheckMethod_ok dest!: dur.resolved_nonneg)

section \<open>Client configuration\<close>

text \<open>
  A transport: the package's default, one of the caller, or the instrumented wrapper of
  \<open>internal/httpotel\<close> with the propagator it injects through; None is a nil \<open>http.RoundTripper\<close>. A
  \<open>CheckRedirect\<close> of the caller is a number, its answers part of the execution script.
\<close>

datatype transport = DefaultTransport | CallerTransport nat | Instrumented "transport option" HeaderPropagator

record HTTPClient =
  ht_transport :: "transport option"
  ht_check_redirect :: "nat option"

text \<open>What \<open>DefaultTransport\<close> configures of a new \<open>http.Transport\<close>, which stays otherwise zero.\<close>

record transport_settings =
  ts_proxy_from_environment :: bool
  ts_dial_timeout :: duration
  ts_dial_keep_alive :: duration
  ts_force_http2 :: bool
  ts_max_idle_conns :: nat
  ts_max_idle_conns_per_host :: nat
  ts_max_conns_per_host :: nat
  ts_idle_conn_timeout :: duration
  ts_tls_handshake_timeout :: duration
  ts_response_header_timeout :: duration
  ts_expect_continue_timeout :: duration

definition DefaultTransportSettings :: transport_settings where
  "DefaultTransportSettings =
     \<lparr>ts_proxy_from_environment = True, ts_dial_timeout = 5 * Second, ts_dial_keep_alive = 30 * Second,
      ts_force_http2 = True, ts_max_idle_conns = 100, ts_max_idle_conns_per_host = 20,
      ts_max_conns_per_host = 100, ts_idle_conn_timeout = 90 * Second, ts_tls_handshake_timeout = 10 * Second,
      ts_response_header_timeout = 10 * Second, ts_expect_continue_timeout = Second\<rparr>"

definition DefaultHTTPClient :: HTTPClient where
  "DefaultHTTPClient = \<lparr>ht_transport = Some DefaultTransport, ht_check_redirect = None\<rparr>"

record HttpConfig =
  hcfg_config :: Config
  hcfg_base_url :: string
  hcfg_http_client :: "HTTPClient option"
  hcfg_propagator :: "HeaderPropagator option"
  hcfg_allow_cross_origin :: bool
  hcfg_allow_host_override :: bool
  hcfg_classifier :: "ResponseClassifier option"
  hcfg_timeout :: duration
  hcfg_disable_timeout :: bool
  hcfg_attempt_timeout :: duration
  hcfg_disable_attempt_timeout :: bool
  hcfg_check :: CheckConfig
  hcfg_retry :: RetryConfig

record HttpClient =
  hc_core :: "Client option"
  hc_base_url :: "URL option"
  hc_http_client :: "HTTPClient option"
  hc_timeout :: duration
  hc_attempt_timeout :: duration
  hc_check :: normalizedCheckConfig
  hc_retry :: RetryConfig
  hc_propagator :: "HeaderPropagator option"
  hc_classifier :: safeResponseClassifier
  hc_allow_cross_origin :: bool
  hc_allow_host_override :: bool
  hc_transport_injects :: bool

datatype http_config_error =
    HttpConfigInvalid config_error | HttpDuration duration_error | HttpRetry retry_error
  | HttpCheck check_error | HttpReadinessRequiresCheck | BaseURLRequired | BaseURLInvalid
  | BaseURLSchemeHost | BaseURLPort | BaseURLUser | BaseURLFragment | BaseURLQuery
  | HttpObserver | HttpCore config_error | HttpInstrumentation

text \<open>
  The OpenTelemetry defaults: the observer \<open>otel.New\<close> builds (None is its error), the global text-map
  propagator, and whether the transport's instruments could be created.
\<close>

record otel_defaults =
  od_observer :: "observer option"
  od_propagator :: "nat option"
  od_instruments_ok :: bool

text \<open>The checks of the parsed base URL and its normalised path.\<close>

definition check_base_url :: "URL \<Rightarrow> http_config_error option" where
  "check_base_url u =
     (if u_scheme u \<noteq> ''http'' \<and> u_scheme u \<noteq> ''https'' \<or> Hostname u = '''' then Some BaseURLSchemeHost
      else if Port u \<noteq> '''' \<and> (case Atoi (Port u) of None \<Rightarrow> True | Some p \<Rightarrow> p < 1 \<or> 65535 < p)
      then Some BaseURLPort
      else if u_user u \<noteq> None then Some BaseURLUser
      else if u_fragment u \<noteq> '''' then Some BaseURLFragment
      else if u_raw_query u \<noteq> '''' \<or> u_force_query u then Some BaseURLQuery
      else None)"

definition normalize_base_path :: "url_code \<Rightarrow> URL \<Rightarrow> URL" where
  "normalize_base_path uc u =
     (if u_path u = '''' then u\<lparr>u_path := ''/''\<rparr>
      else if \<not> has_suffix (escaped_path uc u) ''/'' then
        u\<lparr>u_path := u_path u @ ''/'',
          u_raw_path := (if u_raw_path u \<noteq> '''' then u_raw_path u @ ''/'' else u_raw_path u)\<rparr>
      else u)"

definition resolve_base_url :: "url_code \<Rightarrow> string \<Rightarrow> (http_config_error, URL) result" where
  "resolve_base_url uc value =
     (let value = TrimSpace value
      in if value = '''' then Inl BaseURLRequired
         else (case parse_url uc value of
                 None \<Rightarrow> Inl BaseURLInvalid
               | Some u \<Rightarrow> guard_error id (check_base_url u) (Inr (normalize_base_path uc u))))"

text \<open>The shared client, with the OpenTelemetry observer where the caller gave none.\<close>

definition build_core :: "otel_defaults \<Rightarrow> Config \<Rightarrow> (http_config_error, Client) result" where
  "build_core od cfg =
     (case c_observer cfg of
        Some _ \<Rightarrow> map_error HttpCore (new_client cfg)
      | None \<Rightarrow> (case od_observer od of
                   None \<Rightarrow> Inl HttpObserver
                 | Some telemetry \<Rightarrow> map_error HttpCore (new_client (cfg\<lparr>c_observer := Some telemetry\<rparr>))))"

definition New :: "(rune \<Rightarrow> rune) \<Rightarrow> url_code \<Rightarrow> otel_defaults \<Rightarrow> HttpConfig \<Rightarrow> (http_config_error, HttpClient) result" where
  "New ext uc od cfg =
     guard_error HttpConfigInvalid (Validate (hcfg_config cfg))
     (bind_result (map_error HttpDuration (Duration ''timeout'' (hcfg_timeout cfg)
        (hcfg_disable_timeout cfg) DefaultTimeout 0)) (\<lambda>timeout.
      bind_result (map_error HttpDuration (Duration ''attempt timeout'' (hcfg_attempt_timeout cfg)
        (hcfg_disable_attempt_timeout cfg) DefaultAttemptTimeout 0)) (\<lambda>attemptTimeout.
      (let retry = normalizeRetryConfig (hcfg_retry cfg) in
       guard_error HttpRetry (validateRetryConfig retry)
       (bind_result (map_error HttpCheck (normalizeCheckConfig ext uc (hcfg_check cfg))) (\<lambda>check.
        if BlocksReadiness (c_policy (hcfg_config cfg)) \<and> \<not> nc_enabled check
        then Inl HttpReadinessRequiresCheck
        else bind_result (resolve_base_url uc (hcfg_base_url cfg)) (\<lambda>baseURL.
          (let usesOwnedHTTPClient = hcfg_http_client cfg = None;
               usesDefaultObserver = c_observer (hcfg_config cfg) = None;
               httpClient = (case hcfg_http_client cfg of None \<Rightarrow> DefaultHTTPClient | Some h \<Rightarrow> h)
           in bind_result (build_core od (hcfg_config cfg)) (\<lambda>client.
             (let propagator = SafeHeaderPropagator (Some (case hcfg_propagator cfg of
                     None \<Rightarrow> DefaultOpenTelemetry (od_propagator od) | Some p \<Rightarrow> p));
                  transportInjects = (usesOwnedHTTPClient \<and> usesDefaultObserver)
              in if transportInjects \<and> \<not> od_instruments_ok od then Inl HttpInstrumentation
                 else Inr
                   \<lparr>hc_core = Some client, hc_base_url = Some baseURL,
                    hc_http_client = Some
                      (if transportInjects
                       then httpClient\<lparr>ht_transport := Some (Instrumented (ht_transport httpClient) propagator)\<rparr>
                       else httpClient),
                    hc_timeout = timeout, hc_attempt_timeout = attemptTimeout, hc_check = check,
                    hc_retry = retry, hc_propagator = Some propagator,
                    hc_classifier = normalizeResponseClassifier (hcfg_classifier cfg),
                    hc_allow_cross_origin = hcfg_allow_cross_origin cfg,
                    hc_allow_host_override = hcfg_allow_host_override cfg,
                    hc_transport_injects = transportInjects\<rparr>))))))))))"

section \<open>Accessors\<close>

text \<open>A nil \<open>*Client\<close> is None; a zero one has no core.\<close>

definition core_of :: "HttpClient option \<Rightarrow> Client option" where
  "core_of c = (case c of None \<Rightarrow> None | Some c \<Rightarrow> hc_core c)"

definition http_name :: "HttpClient option \<Rightarrow> string" where
  "http_name c = (case core_of c of None \<Rightarrow> '''' | Some core \<Rightarrow> cl_name core)"

definition http_protocol :: "HttpClient option \<Rightarrow> string" where
  "http_protocol c = (case core_of c of None \<Rightarrow> '''' | Some core \<Rightarrow> ProtocolHTTP)"

definition http_readiness :: "HttpClient option \<Rightarrow> ReadinessPolicy" where
  "http_readiness c = (case core_of c of None \<Rightarrow> ReadinessOptional | Some core \<Rightarrow> cl_policy core)"

definition http_observer :: "HttpClient option \<Rightarrow> observer" where
  "http_observer c = (case core_of c of None \<Rightarrow> NopObserver | Some core \<Rightarrow> client_observer (Some core))"

definition http_propagator :: "HttpClient option \<Rightarrow> HeaderPropagator" where
  "http_propagator c = (case c of
     None \<Rightarrow> NopHeaderPropagator
   | Some c \<Rightarrow> if is_nil (hc_core c) then NopHeaderPropagator
              else (case hc_propagator c of None \<Rightarrow> NopHeaderPropagator | Some p \<Rightarrow> p))"

definition http_classifier :: "HttpClient option \<Rightarrow> safeResponseClassifier" where
  "http_classifier c = (case c of
     None \<Rightarrow> normalizeResponseClassifier None
   | Some c \<Rightarrow> if is_nil (hc_core c) \<or> hc_classifier c = None then normalizeResponseClassifier None
              else hc_classifier c)"

definition HealthCheckEnabled :: "HttpClient option \<Rightarrow> bool" where
  "HealthCheckEnabled c \<longleftrightarrow> (case c of None \<Rightarrow> False | Some c \<Rightarrow> \<not> is_nil (hc_core c) \<and> nc_enabled (hc_check c))"

text \<open>\<open>Health\<close>: the cached value, projected by age where checks are enabled; \<open>now\<close> is the clock.\<close>

definition http_health :: "HttpClient option \<Rightarrow> gotime \<Rightarrow> Health" where
  "http_health c now = (case c of
     None \<Rightarrow> health_of HealthUnknown FailureNone ''HTTP client health is unavailable''
   | Some c \<Rightarrow> (case hc_core c of
        None \<Rightarrow> health_of HealthUnknown FailureNone ''HTTP client health is unavailable''
      | Some core \<Rightarrow>
          if \<not> nc_enabled (hc_check c) then cl_health core
          else ProjectStaleness (cl_health core) (nc_stale_after (hc_check c)) ''HTTP health check'' now))"

definition http_snapshot :: "HttpClient option \<Rightarrow> gotime \<Rightarrow> ClientSnapshot" where
  "http_snapshot c now = \<lparr>cs_name = http_name c, cs_protocol = http_protocol c,
     cs_policy = http_readiness c, cs_health = http_health c now\<rparr>"

text \<open>\<open>CloseIdleConnections\<close>: the \<open>http.Client\<close> it is forwarded to.\<close>

definition http_CloseIdleConnections :: "HttpClient option \<Rightarrow> HTTPClient option" where
  "http_CloseIdleConnections c = (case c of None \<Rightarrow> None | Some c \<Rightarrow> hc_http_client c)"

lemmas [accessors] = core_of_def http_name_def http_protocol_def http_readiness_def HealthCheckEnabled_def

section \<open>What construction guarantees\<close>

definition base_url_ok :: "URL \<Rightarrow> bool" where
  "base_url_ok u \<longleftrightarrow> (u_scheme u = ''http'' \<or> u_scheme u = ''https'') \<and> Hostname u \<noteq> '''' \<and>
     (Port u = '''' \<or> (\<exists>p. Atoi (Port u) = Some p \<and> 1 \<le> p \<and> p \<le> 65535)) \<and>
     u_user u = None \<and> u_fragment u = '''' \<and> u_raw_query u = '''' \<and> \<not> u_force_query u \<and> u_path u \<noteq> ''''"

definition http_inv :: "HttpClient \<Rightarrow> bool" where
  "http_inv c \<longleftrightarrow>
     (\<exists>core. hc_core c = Some core \<and> client_inv core \<and>
        (BlocksReadiness (cl_policy core) \<longrightarrow> nc_enabled (hc_check c))) \<and>
     (\<exists>u. hc_base_url c = Some u \<and> base_url_ok u) \<and>
     (\<exists>h. hc_http_client c = Some h \<and>
        (hc_transport_injects c \<longrightarrow> (\<exists>t p. ht_transport h = Some (Instrumented t p) \<and> hc_propagator c = Some p))) \<and>
     0 \<le> hc_timeout c \<and> 0 \<le> hc_attempt_timeout c \<and> check_inv (hc_check c) \<and> retry_ok (hc_retry c) \<and>
     (\<exists>p. hc_propagator c = Some p \<and> is_safe_propagator p)"

lemma Atoi_port: "\<not> (case Atoi s of None \<Rightarrow> True | Some p \<Rightarrow> p < 1 \<or> 65535 < p) \<longleftrightarrow>
    (\<exists>p. Atoi s = Some p \<and> 1 \<le> p \<and> p \<le> 65535)"
  by (auto split: option.split)

lemma check_base_url_None:
  "check_base_url u = None \<longleftrightarrow> base_url_ok (u\<lparr>u_path := ''/''\<rparr>)"
  using Atoi_port [of "Port u"]
  by (simp add: check_base_url_def base_url_ok_def Hostname_def Port_def) blast

lemma normalize_base_path_ok:
  "base_url_ok (u\<lparr>u_path := ''/''\<rparr>) \<Longrightarrow> base_url_ok (normalize_base_path uc u)"
  by (auto simp: normalize_base_path_def base_url_ok_def Hostname_def Port_def)

lemma resolve_base_url_ok: "resolve_base_url uc v = Inr u \<Longrightarrow> base_url_ok u"
  by (auto simp: resolve_base_url_def Let_def guard_error_Inr check_base_url_None normalize_base_path_ok
      split: if_splits option.splits)

lemma build_core_ok:
  assumes "build_core od cfg = Inr c"
  shows "client_inv c" and "cl_policy c = normalizeReadinessPolicy (c_policy cfg)"
proof -
  obtain cfg' where n: "new_client cfg' = Inr c" and p: "c_policy cfg' = c_policy cfg"
    using assms by (auto simp: build_core_def split: option.splits)
  show "client_inv c" by (rule new_client_inv [OF n])
  show "cl_policy c = normalizeReadinessPolicy (c_policy cfg)"
    using n p by (auto simp: new_client_def guard_error_Inr)
qed

lemma BlocksReadiness_normalized: "BlocksReadiness (normalizeReadinessPolicy p) = BlocksReadiness p"
  by (simp add: BlocksReadiness_def normalizeReadinessPolicy_def split: ReadinessPolicy.split)

lemma New_parts:
  assumes "New ext uc od cfg = Inr c"
  obtains core baseURL propagator where
    "Duration ''timeout'' (hcfg_timeout cfg) (hcfg_disable_timeout cfg) DefaultTimeout 0 = Inr (hc_timeout c)"
    "Duration ''attempt timeout'' (hcfg_attempt_timeout cfg) (hcfg_disable_attempt_timeout cfg)
       DefaultAttemptTimeout 0 = Inr (hc_attempt_timeout c)"
    "hc_retry c = normalizeRetryConfig (hcfg_retry cfg)" "validateRetryConfig (hc_retry c) = None"
    "normalizeCheckConfig ext uc (hcfg_check cfg) = Inr (hc_check c)"
    "BlocksReadiness (c_policy (hcfg_config cfg)) \<longrightarrow> nc_enabled (hc_check c)"
    "resolve_base_url uc (hcfg_base_url cfg) = Inr baseURL" "hc_base_url c = Some baseURL"
    "build_core od (hcfg_config cfg) = Inr core" "hc_core c = Some core"
    "is_safe_propagator propagator" "hc_propagator c = Some propagator"
    "hc_transport_injects c \<longleftrightarrow> hcfg_http_client cfg = None \<and> c_observer (hcfg_config cfg) = None"
    "hc_http_client c = Some (if hc_transport_injects c
       then DefaultHTTPClient\<lparr>ht_transport := Some (Instrumented (Some DefaultTransport) propagator)\<rparr>
       else (case hcfg_http_client cfg of None \<Rightarrow> DefaultHTTPClient | Some h \<Rightarrow> h))"
proof -
  have guard: "(if P then Inl e else k) = Inr y \<longleftrightarrow> \<not> P \<and> k = Inr y" for P e k and y :: HttpClient
    by simp
  have owned: "(case x of None \<Rightarrow> a | Some h \<Rightarrow> h) = a" if "x = None" for x :: "HTTPClient option" and a
    using that by simp
  have *: "New ext uc od cfg = Inr c" by (rule assms)
  show thesis
    using * unfolding New_def guard_error_Inr bind_result_Inr map_error_Inr Let_def guard
    apply (elim exE conjE)
    subgoal for timeout attemptTimeout check baseURL core
      by (rule that [of baseURL core]) (auto simp: SafeHeaderPropagator_safe DefaultHTTPClient_def)
    done
qed

lemma New_inv:
  assumes "New ext uc od cfg = Inr c"
  shows "http_inv c"
proof -
  from assms obtain core baseURL propagator where n:
    "Duration ''timeout'' (hcfg_timeout cfg) (hcfg_disable_timeout cfg) DefaultTimeout 0 = Inr (hc_timeout c)"
    "Duration ''attempt timeout'' (hcfg_attempt_timeout cfg) (hcfg_disable_attempt_timeout cfg)
       DefaultAttemptTimeout 0 = Inr (hc_attempt_timeout c)"
    "validateRetryConfig (hc_retry c) = None"
    "normalizeCheckConfig ext uc (hcfg_check cfg) = Inr (hc_check c)"
    "BlocksReadiness (c_policy (hcfg_config cfg)) \<longrightarrow> nc_enabled (hc_check c)"
    "resolve_base_url uc (hcfg_base_url cfg) = Inr baseURL" "hc_base_url c = Some baseURL"
    "build_core od (hcfg_config cfg) = Inr core" "hc_core c = Some core"
    "is_safe_propagator propagator" "hc_propagator c = Some propagator"
    "hc_http_client c = Some (if hc_transport_injects c
       then DefaultHTTPClient\<lparr>ht_transport := Some (Instrumented (Some DefaultTransport) propagator)\<rparr>
       else (case hcfg_http_client cfg of None \<Rightarrow> DefaultHTTPClient | Some h \<Rightarrow> h))"
    by (elim New_parts) (rule that; assumption)
  have "0 \<le> hc_timeout c" "0 \<le> hc_attempt_timeout c"
    using dur.resolved_nonneg [OF n(1)] dur.resolved_nonneg [OF n(2)]
    by (simp_all add: DefaultTimeout_def DefaultAttemptTimeout_def Second_def)
  moreover have "check_inv (hc_check c)" using normalizeCheckConfig_ok [OF n(4)] by simp
  moreover have "retry_ok (hc_retry c)" using n(3) by (simp add: validateRetryConfig_iff)
  moreover have "client_inv core" "BlocksReadiness (cl_policy core) \<longrightarrow> nc_enabled (hc_check c)"
    using build_core_ok [OF n(8)] n(5) by (simp_all add: BlocksReadiness_normalized)
  moreover have "base_url_ok baseURL" by (rule resolve_base_url_ok [OF n(6)])
  ultimately show ?thesis
    using n(7) n(9-12) by (auto simp: http_inv_def)
qed

text \<open>Instrumentation is installed exactly when the caller supplied neither an HTTP client nor an
  observer.\<close>

lemma New_injects:
  "New ext uc od cfg = Inr c \<Longrightarrow>
   hc_transport_injects c \<longleftrightarrow> hcfg_http_client cfg = None \<and> c_observer (hcfg_config cfg) = None"
  by (elim New_parts)

text \<open>The caller's HTTP client is copied: its redirect callback is kept, and without instrumentation
  its transport.\<close>

lemma New_copies:
  "New ext uc od cfg = Inr c \<Longrightarrow> hcfg_http_client cfg = Some h \<Longrightarrow> hc_http_client c = Some h"
  by (elim New_parts) simp

section \<open>Requests\<close>

datatype new_request_error =
    ClientNotConfigured | ContextRequired | RequestPathInvalid | RequestPathNotRelative
  | RequestPathFragment | RequestCreateFailed

text \<open>\<open>removeEmptyPort\<close> of \<open>net/http\<close>: a trailing colon after the host is dropped.\<close>

definition remove_empty_port :: "string \<Rightarrow> string" where
  "remove_empty_port host =
     (if host \<noteq> [] \<and> last host = CHR '':'' then butlast host else host)"

text \<open>
  \<open>Client.NewRequest\<close>. The body is what \<open>http.NewRequestWithContext\<close> makes of the reader: the body
  and whether \<open>GetBody\<close> was set.
\<close>

definition NewRequest ::
  "url_code \<Rightarrow> HttpClient option \<Rightarrow> bool \<Rightarrow> string \<Rightarrow> string \<Rightarrow> body \<times> bool
   \<Rightarrow> (new_request_error, Request) result" where
  "NewRequest uc c has_ctx method path reader =
     (case (case c of None \<Rightarrow> None | Some c \<Rightarrow> hc_base_url c) of
        None \<Rightarrow> Inl ClientNotConfigured
      | Some baseURL \<Rightarrow>
          if \<not> has_ctx then Inl ContextRequired
          else (case parse_url uc path of
            None \<Rightarrow> Inl RequestPathInvalid
          | Some reference \<Rightarrow>
              if is_abs reference \<or> u_host reference \<noteq> '''' then Inl RequestPathNotRelative
              else if u_fragment reference \<noteq> '''' \<or> u_raw_fragment reference \<noteq> '''' then Inl RequestPathFragment
              else
                (let target = resolve_reference uc baseURL reference
                 in if \<not> new_request_ok method then Inl RequestCreateFailed
                    else (case parse_url uc (url_string uc target) of
                      None \<Rightarrow> Inl RequestCreateFailed
                    | Some u \<Rightarrow> Inr
                        \<lparr>rq_method = (if method = '''' then ''GET'' else method),
                         rq_url = Some (u\<lparr>u_host := remove_empty_port (u_host u)\<rparr>),
                         rq_host = remove_empty_port (u_host u), rq_request_uri = '''',
                         rq_header = Some [], rq_body = fst reader, rq_get_body = snd reader,
                         rq_close = False\<rparr>))))"

lemma NewRequest_ok:
  "NewRequest uc c has_ctx method path reader = Inr rq \<Longrightarrow>
   new_request_ok (rq_method rq) \<and> rq_method rq \<noteq> [] \<and> rq_request_uri rq = [] \<and>
   rq_body rq = fst reader \<and> rq_get_body rq = snd reader \<and>
   (\<exists>u. rq_url rq = Some u \<and> rq_host rq = u_host u)"
  by (auto simp: NewRequest_def Let_def new_request_ok_def http_token_byte_def split: option.splits if_splits)

end
