(* ===== verification/Http_Policy.thy ===== *)
theory Http_Policy
  imports Http_Config
begin

text \<open>
  The request policy of \<open>httpclient/do.go\<close>: origin and shape of a request, redirects, body replay,
  the request of one attempt, and the round tripper of \<open>propagation.go\<close> that injects headers.
\<close>

section \<open>Origin\<close>

definition effectiveURLPort :: "(rune \<Rightarrow> rune) \<Rightarrow> string \<Rightarrow> string \<Rightarrow> string" where
  "effectiveURLPort ext scheme explicitPort =
     (if explicitPort \<noteq> '''' then explicitPort
      else if to_lower ext scheme = ''http'' then ''80''
      else if to_lower ext scheme = ''https'' then ''443''
      else '''')"

definition validateRequestOrigin :: "(rune \<Rightarrow> rune) \<Rightarrow> HttpClient option \<Rightarrow> Request option \<Rightarrow> goerr option" where
  "validateRequestOrigin ext c request =
     (case (case c of None \<Rightarrow> None | Some cl \<Rightarrow> map_option (Pair cl) (hc_base_url cl)) of
        None \<Rightarrow> Some (errors_new ''clientkit: HTTP client is not configured'')
      | Some (cl, base) \<Rightarrow>
          (case (case request of None \<Rightarrow> None | Some rq \<Rightarrow> map_option (Pair rq) (rq_url rq)) of
             None \<Rightarrow> Some (sentinel_error errRequestURLRequired)
           | Some (rq, u) \<Rightarrow>
               if rq_request_uri rq \<noteq> '''' then Some (sentinel_error errRequestURI)
               else if rq_method rq \<noteq> '''' \<and> \<not> new_request_ok (rq_method rq)
               then Some (sentinel_error errRequestMethod)
               else if \<not> is_abs u \<or> u_host u = '''' then Some (sentinel_error errRequestURLMustBeAbsolute)
               else if u_scheme u \<noteq> ''http'' \<and> u_scheme u \<noteq> ''https''
               then Some (sentinel_error errRequestURLScheme)
               else if Hostname u = '''' then Some (sentinel_error errRequestURLHostname)
               else if u_opaque u \<noteq> '''' then Some (sentinel_error errRequestURLOpaque)
               else if u_user u \<noteq> None then Some (sentinel_error errRequestURLUserInformation)
               else if u_fragment u \<noteq> '''' \<or> u_raw_fragment u \<noteq> ''''
               then Some (sentinel_error errRequestURLFragment)
               else if \<not> hc_allow_host_override cl \<and> rq_host rq \<noteq> '''' \<and>
                       \<not> equal_fold ext (rq_host rq) (u_host u)
               then Some (sentinel_error errRequestHostOverride)
               else if hc_allow_cross_origin cl then None
               else if \<not> equal_fold ext (u_scheme u) (u_scheme base) \<or>
                       \<not> equal_fold ext (Hostname u) (Hostname base) \<or>
                       effectiveURLPort ext (u_scheme u) (Port u) \<noteq> effectiveURLPort ext (u_scheme base) (Port base)
               then Some (sentinel_error errRequestOriginMismatch)
               else None))"

text \<open>The origin of a URL: case-folded scheme and host, and the port in effect.\<close>

definition origin :: "(rune \<Rightarrow> rune) \<Rightarrow> URL \<Rightarrow> rune list \<times> rune list \<times> string" where
  "origin ext u = (map (fold_rune ext) (runes (u_scheme u)), map (fold_rune ext) (runes (Hostname u)),
     effectiveURLPort ext (u_scheme u) (Port u))"

definition request_shape_ok :: "Request \<Rightarrow> URL \<Rightarrow> bool" where
  "request_shape_ok rq u \<longleftrightarrow>
     rq_url rq = Some u \<and> rq_request_uri rq = '''' \<and> new_request_ok (rq_method rq) \<and>
     (u_scheme u = ''http'' \<or> u_scheme u = ''https'') \<and> Hostname u \<noteq> '''' \<and> u_opaque u = '''' \<and>
     u_user u = None \<and> u_fragment u = '''' \<and> u_raw_fragment u = ''''"

lemma Hostname_nonempty_host: "Hostname u \<noteq> [] \<Longrightarrow> u_host u \<noteq> []"
  by (auto simp: Hostname_def split_host_port_def Let_def)

text \<open>The request policy accepts exactly the well-shaped requests to the configured origin.\<close>

lemma validateRequestOrigin_iff:
  assumes "hc_base_url c = Some base"
  shows "validateRequestOrigin ext (Some c) (Some rq) = None \<longleftrightarrow>
     (\<exists>u. request_shape_ok rq u \<and>
        (hc_allow_host_override c \<or> rq_host rq = '''' \<or> equal_fold ext (rq_host rq) (u_host u)) \<and>
        (hc_allow_cross_origin c \<or> origin ext u = origin ext base))"
proof (cases "rq_url rq")
  case None
  then show ?thesis using assms by (simp add: validateRequestOrigin_def request_shape_ok_def)
next
  case (Some u)
  have guard: "(if P then Some e else k) = None \<longleftrightarrow> \<not> P \<and> k = None" for P and e :: goerr and k
    by simp
  have cross: "(if P then None else k) = None \<longleftrightarrow> P \<or> k = None" for P and k :: "goerr option"
    by simp
  have u: "u_scheme u = ''http'' \<or> u_scheme u = ''https'' \<Longrightarrow> is_abs u" by (auto simp: is_abs_def)
  show ?thesis
    using assms Some Hostname_nonempty_host [of u] u
    by (auto simp: validateRequestOrigin_def guard cross request_shape_ok_def origin_def equal_fold_def
        new_request_ok_def simp del: not_None_eq)
qed

lemma validateRequestOrigin_policy:
  assumes "hc_base_url c = Some base" "validateRequestOrigin ext (Some c) rq = Some e"
  shows "isRequestPolicyError (Some e)"
  using assms
  by (auto simp: validateRequestOrigin_def isRequestPolicyError_def split: option.splits if_splits)

section \<open>Redirects\<close>

definition validateRedirectReplay :: "Request option \<Rightarrow> int \<Rightarrow> RetrySafety \<Rightarrow> goerr option" where
  "validateRedirectReplay request redirectStatus safety = (case request of
     None \<Rightarrow> None
   | Some rq \<Rightarrow>
       if redirectStatus \<noteq> 307 \<and> redirectStatus \<noteq> 308 then None
       else (case retryAuthorizationFor (rq_method rq) safety of
               Inl _ \<Rightarrow> Some (errors_new ''clientkit: invalid HTTP retry safety'')
             | Inr authorization \<Rightarrow>
                 if \<not> authorization_allows authorization
                 then Some (sentinel_error errRedirectReplayNotAllowed) else None))"

text \<open>
  One redirect \<open>net/http\<close> proposes: the request (as the caller's callback leaves it), the status of
  the response that caused it, what the callback and the context answer.
\<close>

record hop =
  hop_request :: Request
  hop_status :: "int option"
  hop_callback :: "goerr option"
  hop_ctx :: "ctx_err option"

text \<open>The \<open>CheckRedirect\<close> of the execution client; \<open>via\<close> is the number of requests made so far.\<close>

definition CheckRedirect ::
  "(rune \<Rightarrow> rune) \<Rightarrow> HttpClient \<Rightarrow> HTTPClient \<Rightarrow> RetrySafety \<Rightarrow> nat \<Rightarrow> hop \<Rightarrow> goerr option" where
  "CheckRedirect ext c h safety via hop =
     (let redirectStatus = (case hop_status hop of None \<Rightarrow> 0 | Some s \<Rightarrow> s);
          configured = (case ht_check_redirect h of
             Some _ \<Rightarrow> hop_callback hop
           | None \<Rightarrow> if 10 \<le> via then Some (sentinel_error errRedirectLimitExceeded) else None)
      in case configured of Some e \<Rightarrow> Some e
         | None \<Rightarrow> (case hop_ctx hop of Some e \<Rightarrow> Some (err_of_ctx e)
             | None \<Rightarrow> (case validateRequestOrigin ext (Some c) (Some (hop_request hop)) of
                 Some e \<Rightarrow> Some e
               | None \<Rightarrow> validateRedirectReplay (Some (hop_request hop)) redirectStatus safety)))"

text \<open>Following proposed redirects until one is refused: the requests made and the refusal.\<close>

fun follow_redirects ::
  "(rune \<Rightarrow> rune) \<Rightarrow> HttpClient \<Rightarrow> HTTPClient \<Rightarrow> RetrySafety \<Rightarrow> nat \<Rightarrow> hop list \<Rightarrow> hop list \<times> goerr option" where
  "follow_redirects ext c h safety via [] = ([], None)"
| "follow_redirects ext c h safety via (hop # hops) =
     (case CheckRedirect ext c h safety via hop of
        Some e \<Rightarrow> ([], Some e)
      | None \<Rightarrow> (let (made, e) = follow_redirects ext c h safety (Suc via) hops in (hop # made, e)))"

lemma CheckRedirect_None:
  "CheckRedirect ext c h safety via hop = None \<Longrightarrow>
   validateRequestOrigin ext (Some c) (Some (hop_request hop)) = None \<and>
   (ht_check_redirect h = None \<longrightarrow> via < 10) \<and> hop_ctx hop = None \<and>
   (hop_status hop \<in> {Some 307, Some 308} \<longrightarrow>
      (\<exists>a. retryAuthorizationFor (rq_method (hop_request hop)) safety = Inr a \<and> authorization_allows a))"
  by (auto simp: CheckRedirect_def validateRedirectReplay_def Let_def split: option.splits if_splits sum.splits)

lemma followed_hops:
  "follow_redirects ext c h safety via hops = (made, e) \<Longrightarrow> hop \<in> set made \<Longrightarrow>
   validateRequestOrigin ext (Some c) (Some (hop_request hop)) = None \<and> hop_ctx hop = None \<and>
   (hop_status hop \<in> {Some 307, Some 308} \<longrightarrow>
      (\<exists>a. retryAuthorizationFor (rq_method (hop_request hop)) safety = Inr a \<and> authorization_allows a))"
proof (induction hops arbitrary: via made)
  case (Cons x hops)
  from Cons.prems(1,2) obtain made' where c: "CheckRedirect ext c h safety via x = None"
    and f: "follow_redirects ext c h safety (Suc via) hops = (made', e)" and m: "made = x # made'"
    by (auto split: option.splits prod.splits)
  show ?case
  proof (cases "hop = x")
    case True
    with CheckRedirect_None [OF c] show ?thesis by simp
  next
    case False
    with Cons.prems(2) m have "hop \<in> set made'" by simp
    then show ?thesis by (rule Cons.IH [OF f])
  qed
qed simp

lemma followed_count:
  "follow_redirects ext c h safety via hops = (made, e) \<Longrightarrow> ht_check_redirect h = None \<Longrightarrow>
   made = [] \<or> via + length made \<le> 10"
proof (induction hops arbitrary: via made)
  case (Cons x hops)
  show ?case
  proof (cases "CheckRedirect ext c h safety via x")
    case None
    with Cons.prems(1) obtain made' where f: "follow_redirects ext c h safety (Suc via) hops = (made', e)"
      and m: "made = x # made'" by (auto split: prod.splits)
    have "via < 10" using CheckRedirect_None [OF None] Cons.prems(2) by simp
    with Cons.IH [OF f Cons.prems(2)] m show ?thesis by auto
  qed (use Cons.prems(1) in simp)
qed simp

section \<open>Bodies and the request of one attempt\<close>

definition requestBodyIsReplayable :: "Request option \<Rightarrow> bool" where
  "requestBodyIsReplayable request = (case request of
     None \<Rightarrow> True
   | Some rq \<Rightarrow> if rq_body rq = NilBody \<or> rq_body rq = NoBody then True else rq_get_body rq)"

text \<open>The bodies a step closes; nil and \<open>NoBody\<close> are skipped.\<close>

definition closeRequestBody :: "Request option \<Rightarrow> body list" where
  "closeRequestBody request = (case request of
     None \<Rightarrow> []
   | Some rq \<Rightarrow> if rq_body rq = NilBody \<or> rq_body rq = NoBody then [] else [rq_body rq])"

definition close_if_open :: "body \<Rightarrow> body list" where
  "close_if_open b = (if b = NilBody then [] else [b])"

text \<open>What preparing an attempt meets: the context before and after \<open>GetBody\<close>, and its result.\<close>

record prep_env =
  pe_ctx :: "ctx_err option"
  pe_body :: body
  pe_body_err :: "goerr option"
  pe_ctx_after :: "ctx_err option"

definition requestForAttempt ::
  "prep_env \<Rightarrow> Request option \<Rightarrow> bool \<Rightarrow> int \<Rightarrow> (goerr, Request) result \<times> body list" where
  "requestForAttempt pe request has_ctx attemptNumber =
     (case request of
        None \<Rightarrow> (Inl (errors_new ''clientkit: request is required''), [])
      | Some rq \<Rightarrow>
          if \<not> has_ctx then (Inl (errors_new ''clientkit: context is required''), [])
          else if attemptNumber < 1
          then (Inl (errors_new ''clientkit: attempt number must be at least 1''), [])
          else (case pe_ctx pe of
            Some e \<Rightarrow> (Inl (err_of_ctx e), [])
          | None \<Rightarrow>
              if attemptNumber = 1 \<or> rq_body rq = NilBody \<or> rq_body rq = NoBody then (Inr rq, [])
              else if \<not> rq_get_body rq
              then (Inl (errors_new ''clientkit: request body cannot be replayed for retry''), [])
              else (case pe_ctx_after pe of
                Some e \<Rightarrow> (Inl (err_of_ctx e), close_if_open (pe_body pe))
              | None \<Rightarrow> (case pe_body_err pe of
                  Some e \<Rightarrow> (Inl (errorf ''clientkit: recreate request body'' e), close_if_open (pe_body pe))
                | None \<Rightarrow>
                    if pe_body pe = NilBody
                    then (Inl (errors_new ''clientkit: recreate request body: GetBody returned nil''), [])
                    else (Inr (rq\<lparr>rq_body := pe_body pe\<rparr>), [])))))"

text \<open>
  A recreated body is either handed to the attempt or closed: the open bodies a preparation leaves
  behind are none.
\<close>

lemma requestForAttempt_ok:
  "requestForAttempt pe (Some rq) True n = (Inr rq', shut) \<Longrightarrow>
   shut = [] \<and> pe_ctx pe = None \<and> 1 \<le> n \<and>
   (rq' = rq \<and> (n = 1 \<or> \<not> has_stream (rq_body rq)) \<or>
    (\<exists>b. rq' = rq\<lparr>rq_body := b\<rparr> \<and> b = pe_body pe \<and> b \<noteq> NilBody \<and> 1 < n \<and> rq_get_body rq))"
  by (auto simp: requestForAttempt_def has_stream_def split: option.splits if_splits)

lemma requestForAttempt_error_closes:
  "requestForAttempt pe (Some rq) True n = (Inl e, shut) \<Longrightarrow> 1 < n \<Longrightarrow>
   has_stream (rq_body rq) \<Longrightarrow> rq_get_body rq \<Longrightarrow> pe_ctx pe = None \<Longrightarrow> pe_body pe \<noteq> NilBody \<Longrightarrow>
   shut = [pe_body pe]"
  by (auto simp: requestForAttempt_def close_if_open_def has_stream_def split: option.splits if_splits)

text \<open>What the origin policy admits does not depend on the body or the headers of a request.\<close>

lemma origin_ignores [simp]:
  "validateRequestOrigin ext c (Some (rq\<lparr>rq_body := b\<rparr>)) = validateRequestOrigin ext c (Some rq)"
  "validateRequestOrigin ext c (Some (rq\<lparr>rq_header := h\<rparr>)) = validateRequestOrigin ext c (Some rq)"
  by (simp_all add: validateRequestOrigin_def split: option.split)

section \<open>The propagating round tripper\<close>

datatype rt_effect =
    CloseBody body
  | BaseRoundTrip "header option"
  | CloseResponseBody Response

record rt_env =
  rt_ctx :: "ctx_err option"
  rt_response :: "Response option"
  rt_err :: "goerr option"
  rt_ctx_after :: "ctx_err option"

definition closeResponse :: "Response option \<Rightarrow> rt_effect list" where
  "closeResponse response = (case response of
     None \<Rightarrow> [] | Some r \<Rightarrow> if rs_body r = NilBody then [] else [CloseResponseBody r])"

definition RoundTrip ::
  "(rune \<Rightarrow> rune) \<Rightarrow> header_code \<Rightarrow> HeaderPropagator \<Rightarrow> rt_env \<Rightarrow> Request
   \<Rightarrow> (Response option \<times> goerr option) \<times> rt_effect list" where
  "RoundTrip ext u propagator env request =
     (let headers = fst (Inject ext u (SafeHeaderPropagator (Some propagator)) (rq_header request))
      in case rt_ctx env of
           Some e \<Rightarrow> ((None, Some (err_of_ctx e)), map CloseBody (closeRequestBody (Some request)))
         | None \<Rightarrow>
             (let effects = [BaseRoundTrip headers]
              in case rt_ctx_after env of
                   Some e \<Rightarrow> ((None, Some (err_of_ctx e)), effects @ closeResponse (rt_response env))
                 | None \<Rightarrow>
                     (case rt_err env of
                        Some e \<Rightarrow> ((None, Some e),
                          effects @ (if rt_response env = None then [] else closeResponse (rt_response env)))
                      | None \<Rightarrow> (case rt_response env of
                          None \<Rightarrow> ((None, Some errHTTPTransportNoResponse), effects)
                        | Some r \<Rightarrow> ((Some r, None), effects)))))"

text \<open>
  The contract of an \<open>http.RoundTripper\<close>: a response or an error, never both and never neither; and a
  response that is not returned has been closed.
\<close>

locale round_tripper =
  fixes trip :: "rt_env \<Rightarrow> Request \<Rightarrow> (Response option \<times> goerr option) \<times> rt_effect list"
  assumes one_result: "trip env rq = ((r, e), fx) \<Longrightarrow> r = None \<longleftrightarrow> e \<noteq> None"
    and closes_dropped: "trip env rq = ((None, e), fx) \<Longrightarrow> BaseRoundTrip h \<in> set fx \<Longrightarrow>
      rt_response env = Some resp \<Longrightarrow> rs_body resp \<noteq> NilBody \<Longrightarrow> CloseResponseBody resp \<in> set fx"
begin

lemma error_or_response: "(\<exists>r fx. trip env rq = ((Some r, None), fx)) \<or> (\<exists>e fx. trip env rq = ((None, Some e), fx))"
  using one_result [of env rq] by (cases "trip env rq") (metis option.exhaust prod.exhaust)

end

interpretation propagating: round_tripper "RoundTrip ext u p" for ext u p
  by unfold_locales
     (auto simp: RoundTrip_def closeResponse_def Let_def eq_commute [of "Some _" "rt_response _"]
       split: option.splits if_splits)

text \<open>The wrapped transport is called at most once, and not at all once the context is done.\<close>

lemma RoundTrip_calls:
  "RoundTrip ext u p env rq = (res, fx) \<Longrightarrow>
   length (filter (\<lambda>e. case e of BaseRoundTrip _ \<Rightarrow> True | _ \<Rightarrow> False) fx) = (if rt_ctx env = None then 1 else 0)"
  by (auto simp: RoundTrip_def closeResponse_def closeRequestBody_def Let_def split: option.splits if_splits)

end
