(* ===== verification/Http_Delay.thy ===== *)
theory Http_Delay
  imports Http_Retry
begin

text \<open>
  Retry delays of \<open>httpclient/retry.go\<close>: exponential backoff with jitter in float64, and the
  server-directed delay of a \<open>Retry-After\<close> header. \<open>math.Pow\<close>, the random draw and \<open>http.ParseTime\<close>
  are parameters: nothing but their results is used, so the bounds hold whatever they return.
\<close>

type_synonym pow_function = "float64 \<Rightarrow> float64 \<Rightarrow> float64"

definition baseRetryDelay :: "pow_function \<Rightarrow> RetryConfig \<Rightarrow> int \<Rightarrow> duration" where
  "baseRetryDelay pow cfg retryNumber =
     (if retryNumber \<le> 0 \<or> rc_backoff cfg \<le> 0 then 0
      else
        (let delay = fl_mul (fl_of_int (rc_backoff cfg)) (pow (rc_multiplier cfg) (fl_of_int (retryNumber - 1)))
         in if is_nan delay \<or> fl_le delay (Fin 0) then 0
            else if rc_max_backoff cfg > 0 \<and> fl_le (fl_of_int (rc_max_backoff cfg)) delay
            then rc_max_backoff cfg
            else if delay = Inf False \<or> fl_le (fl_of_int max_duration) delay then max_duration
            else fl_trunc delay))"

definition retryDelay :: "pow_function \<Rightarrow> float64 \<Rightarrow> RetryConfig \<Rightarrow> int \<Rightarrow> duration" where
  "retryDelay pow draw cfg retryNumber =
     (let base = baseRetryDelay pow cfg retryNumber
      in if base \<le> 0 then 0
         else if rc_jitter cfg \<le> 0 then base
         else
           (let offset = fl_mul (fl_add (fl_mul draw (Fin 2)) (Fin (- 1))) (fl_of_int (rc_jitter cfg));
                delay = fl_add (fl_of_int base) offset
            in if is_nan delay \<or> fl_le delay (Fin 0) then 0
               else if rc_max_backoff cfg > 0 \<and> fl_le (fl_of_int (rc_max_backoff cfg)) delay
               then rc_max_backoff cfg
               else if delay = Inf False \<or> fl_le (fl_of_int max_duration) delay then max_duration
               else fl_trunc delay))"

text \<open>The clamp both functions end with, and its bounds.\<close>

definition clamp_delay :: "duration \<Rightarrow> float64 \<Rightarrow> duration" where
  "clamp_delay limit delay =
     (if is_nan delay \<or> fl_le delay (Fin 0) then 0
      else if limit > 0 \<and> fl_le (fl_of_int limit) delay then limit
      else if delay = Inf False \<or> fl_le (fl_of_int max_duration) delay then max_duration
      else fl_trunc delay)"

lemma clamp_cases:
  obtains (zero) "clamp_delay limit delay = 0"
  | (limit) "clamp_delay limit delay = limit" "0 < limit"
  | (huge) "clamp_delay limit delay = max_duration" "\<not> (0 < limit \<and> fl_le (fl_of_int limit) delay)"
      "delay = Inf False \<or> fl_le (fl_of_int max_duration) delay"
  | (fin) v where "clamp_delay limit delay = \<lfloor>v\<rfloor>" "delay = Fin v" "0 < v"
      "\<not> (0 < limit \<and> fl_le (fl_of_int limit) delay)" "\<not> fl_le (fl_of_int max_duration) delay"
proof (cases "is_nan delay \<or> fl_le delay (Fin 0)")
  case True
  then show ?thesis by (intro zero) (simp add: clamp_delay_def)
next
  case low: False
  show ?thesis
  proof (cases "0 < limit \<and> fl_le (fl_of_int limit) delay")
    case True
    with low show ?thesis by (intro limit) (simp_all add: clamp_delay_def)
  next
    case below: False
    show ?thesis
    proof (cases "delay = Inf False \<or> fl_le (fl_of_int max_duration) delay")
      case True
      with low below show ?thesis by (intro huge) (auto simp: clamp_delay_def)
    next
      case False
      with low obtain v where v: "delay = Fin v" "0 < v"
        by (cases delay) (auto simp: is_nan_def)
      with low below False show ?thesis by (intro fin [of v]) (auto simp: clamp_delay_def)
    qed
  qed
qed

lemma clamp_bounds:
  assumes "representable delay" "limit \<le> max_duration"
  shows "0 \<le> clamp_delay limit delay" and "clamp_delay limit delay \<le> max_duration"
    and "0 < limit \<Longrightarrow> clamp_delay limit delay \<le> limit"
proof -
  note c = clamp_cases [of limit delay]
  show "0 \<le> clamp_delay limit delay"
    by (cases rule: c) (auto simp: max_duration_def)
  have m: "0 < max_duration" by (simp add: max_duration_def)
  have below: "\<lfloor>v\<rfloor> \<le> n" if "delay = Fin v" "0 < v" "0 < n" "\<not> fl_le (fl_of_int n) delay" for v n
    using below_fl_of_int [of v n] assms(1) that by (simp add: floor_le_iff)
  show "clamp_delay limit delay \<le> max_duration"
    by (cases rule: c) (use assms(2) m below in auto)
  show "clamp_delay limit delay \<le> limit" if "0 < limit"
  proof (cases rule: c)
    case huge
    have "fl_le (fl_of_int limit) delay"
      using huge(3) fl_of_int_top [OF that] fl_le_trans [OF fl_of_int_mono [OF that assms(2)]] by blast
    with huge(2) that show ?thesis by blast
  qed (use that below in auto)
qed

section \<open>Bounds of the policy delay\<close>

definition backoff_product :: "pow_function \<Rightarrow> RetryConfig \<Rightarrow> int \<Rightarrow> float64" where
  "backoff_product pow cfg n =
     fl_mul (fl_of_int (rc_backoff cfg)) (pow (rc_multiplier cfg) (fl_of_int (n - 1)))"

definition jittered :: "float64 \<Rightarrow> duration \<Rightarrow> duration \<Rightarrow> float64" where
  "jittered draw jitter base = fl_add (fl_of_int base)
     (fl_mul (fl_add (fl_mul draw (Fin 2)) (Fin (- 1))) (fl_of_int jitter))"

lemma baseRetryDelay_clamp:
  "baseRetryDelay pow cfg n =
     (if n \<le> 0 \<or> rc_backoff cfg \<le> 0 then 0 else clamp_delay (rc_max_backoff cfg) (backoff_product pow cfg n))"
  by (simp add: baseRetryDelay_def clamp_delay_def backoff_product_def Let_def)

lemma retryDelay_clamp:
  "retryDelay pow draw cfg n =
     (let base = baseRetryDelay pow cfg n
      in if base \<le> 0 then 0 else if rc_jitter cfg \<le> 0 then base
         else clamp_delay (rc_max_backoff cfg) (jittered draw (rc_jitter cfg) base))"
  by (simp add: retryDelay_def clamp_delay_def jittered_def Let_def)

lemma representable_product: "representable (backoff_product pow cfg n)"
  by (simp add: backoff_product_def fl_mul_representable)

lemma representable_jittered: "representable (jittered draw j b)"
  by (simp add: jittered_def fl_add_representable)

lemmas delay_clamps = clamp_bounds [OF representable_product] clamp_bounds [OF representable_jittered]

lemma baseRetryDelay_bounds:
  assumes "rc_max_backoff cfg \<le> max_duration"
  shows "0 \<le> baseRetryDelay pow cfg n" and "baseRetryDelay pow cfg n \<le> max_duration"
    and "0 < rc_max_backoff cfg \<Longrightarrow> baseRetryDelay pow cfg n \<le> rc_max_backoff cfg"
  using assms by (auto simp: baseRetryDelay_clamp delay_clamps) (simp_all add: max_duration_def)

lemma retryDelay_bounds:
  assumes "rc_max_backoff cfg \<le> max_duration"
  shows "0 \<le> retryDelay pow draw cfg n" and "retryDelay pow draw cfg n \<le> max_duration"
    and "0 < rc_max_backoff cfg \<Longrightarrow> retryDelay pow draw cfg n \<le> rc_max_backoff cfg"
  using assms baseRetryDelay_bounds [OF assms, of pow n]
  by (auto simp: retryDelay_clamp Let_def delay_clamps)

lemma no_backoff_no_delay: "rc_backoff cfg \<le> 0 \<Longrightarrow> retryDelay pow draw cfg n = 0"
  by (simp add: retryDelay_clamp baseRetryDelay_clamp)

text \<open>
  Where every value is exact in float64, the backoff is the textbook one: doubled before each
  further attempt until the cap.
\<close>

lemma fl_beyond_exact: "\<not> fl_le (fl_of_int max_duration) (Fin (of_int b))" if "b \<le> 2 ^ 53" for b
proof
  assume a: "fl_le (fl_of_int max_duration) (Fin (of_int b))"
  have "fl_le (fl_of_int (2 ^ 53 + 2)) (fl_of_int max_duration)"
    by (rule fl_of_int_mono) (simp_all add: max_duration_def)
  moreover have "fl_of_int (2 ^ 53 + 2) = Fin (2 ^ 53 + 2)"
  proof -
    have v: "(2 ^ 53 + 2 :: rat) = of_int (2 ^ 52 + 1) * 2 powi 1" by simp
    have "round_pos (2 ^ 53 + 2) = 2 ^ 53 + 2" by (rule representable_fixed [OF v]) simp_all
    moreover have "(2 ^ 53 + 2 :: rat) < 2 ^ 1024"
    proof -
      have "(2 ^ 53 + 2 :: rat) < 2 ^ 54" by simp
      also have "\<dots> < 2 ^ 1024" by (rule power_strict_increasing) auto
      finally show ?thesis .
    qed
    ultimately show ?thesis by (simp add: fl_of_int_def round64_def Let_def)
  qed
  ultimately have "(2 ^ 53 + 2 :: rat) \<le> of_int b" using fl_le_trans [OF _ a] by fastforce
  then have "of_int (2 ^ 53 + 2) \<le> (of_int b :: rat)" by simp
  with that show False unfolding of_int_le_iff by simp
qed

lemma clamp_exact:
  assumes "0 < b" "b \<le> 2 ^ 53" "0 < limit" "limit \<le> 2 ^ 53"
  shows "clamp_delay limit (Fin (of_int b)) = min limit b"
proof -
  have "\<not> (of_int b :: rat) \<le> 0" using assms(1) by simp
  moreover have "fl_of_int limit = Fin (of_int limit)" using assms by (simp add: fl_of_int_exact)
  ultimately show ?thesis using assms fl_beyond_exact [OF assms(2)]
    by (auto simp: clamp_delay_def is_nan_def)
qed

lemma doubling_backoff:
  assumes pow: "pow (Fin 2) (Fin (of_nat k)) = Fin (2 ^ k)"
    and cfg: "rc_multiplier cfg = Fin 2" "0 < rc_backoff cfg" "rc_backoff cfg * 2 ^ k \<le> 2 ^ 53"
      "0 < rc_max_backoff cfg" "rc_max_backoff cfg \<le> 2 ^ 53" "int k \<le> 2 ^ 53"
  shows "baseRetryDelay pow cfg (int k + 1) = min (rc_max_backoff cfg) (rc_backoff cfg * 2 ^ k)"
proof -
  let ?b = "rc_backoff cfg"
  have "?b * 1 \<le> ?b * 2 ^ k" using cfg(2) by (intro mult_left_mono) auto
  then have b: "?b \<le> 2 ^ 53" using cfg(3) by linarith
  have p: "0 < ?b * 2 ^ k" using cfg(2) by simp
  have "fl_of_int (int k) = Fin (of_nat k)" using fl_of_int_exact [of "int k"] cfg(6) by simp
  then have "backoff_product pow cfg (int k + 1) = fl_mul (Fin (of_int ?b)) (Fin (2 ^ k))"
    using cfg b pow by (simp add: backoff_product_def fl_of_int_exact)
  also have "\<dots> = fl_of_int (?b * 2 ^ k)" by (simp add: fl_of_int_def)
  also have "\<dots> = Fin (of_int (?b * 2 ^ k))" using p cfg(3) by (intro fl_of_int_exact) auto
  finally show ?thesis
    using clamp_exact [OF p cfg(3,4,5)] cfg(2) by (simp add: baseRetryDelay_clamp)
qed

text \<open>With jitter, and a random draw between zero and one, the wait differs from the delay without it by
  at most the jitter.\<close>

lemma jittered_between:
  assumes "draw = Fin d" "0 \<le> d" "d \<le> 1" "0 \<le> base" "0 < jitter" "base + jitter \<le> 2 ^ 53"
  obtains v where "jittered draw jitter base = Fin v" "of_int (base - jitter) \<le> v" "v \<le> of_int (base + jitter)"
proof -
  obtain w where w: "fl_mul draw (Fin 2) = Fin w" "0 \<le> w" "w \<le> 2"
    using round64_between [of 0 "d * 2" 2] assms(1-3) by force
  obtain z where z: "fl_add (Fin w) (Fin (- 1)) = Fin z" "- 1 \<le> z" "z \<le> 1"
    using round64_between [of "- 1" "w + - 1" 1] w(2,3) by force
  have j: "fl_of_int jitter = Fin (of_int jitter)" "fl_of_int base = Fin (of_int base)"
    using assms(4-6) by (simp_all add: fl_of_int_exact)
  have J: "0 < (of_int jitter :: rat)" using assms(5) by simp
  have "- 1 * of_int jitter \<le> z * of_int jitter" "z * of_int jitter \<le> 1 * (of_int jitter :: rat)"
    using z(2,3) J by (intro mult_right_mono; simp)+
  then obtain off where off: "fl_mul (Fin z) (Fin (of_int jitter)) = Fin off" "- of_int jitter \<le> off" "off \<le> of_int jitter"
    using round64_between [of "- jitter" "z * of_int jitter" jitter] assms(4-6) by force
  have "of_int (base - jitter) \<le> of_int base + off" "of_int base + off \<le> of_int (base + jitter)" using off(2,3) by simp_all
  then obtain v where v: "fl_add (Fin (of_int base)) (Fin off) = Fin v" "of_int (base - jitter) \<le> v" "v \<le> of_int (base + jitter)"
    using round64_between [of "base - jitter" "of_int base + off" "base + jitter"] assms(4-6) by force
  show thesis by (rule that [OF _ v(2,3)]) (simp only: jittered_def w(1) z(1) j off(1) v(1))
qed

lemma jittered_delay:
  assumes "draw = Fin d" "0 \<le> d" "d \<le> 1" "0 \<le> base" "0 < jitter" "base + jitter \<le> 2 ^ 53"
    and "base \<le> limit" "limit \<le> 2 ^ 53"
  shows "\<bar>clamp_delay limit (jittered draw jitter base) - base\<bar> \<le> jitter"
proof -
  obtain v where v: "jittered draw jitter base = Fin v" "of_int (base - jitter) \<le> v" "v \<le> of_int (base + jitter)"
    using jittered_between [OF assms(1-6)] .
  have limit: "fl_of_int limit = Fin (of_int limit)" using assms(4,7,8) by (intro fl_of_int_exact) auto
  have huge: "\<not> fl_le (fl_of_int max_duration) (Fin v)"
  proof
    assume "fl_le (fl_of_int max_duration) (Fin v)"
    with v(3) have "fl_le (fl_of_int max_duration) (Fin (of_int (base + jitter)))" by (meson fl_le.simps(1) fl_le_trans)
    with fl_beyond_exact [OF assms(6)] show False by blast
  qed
  consider "v \<le> 0" | "0 < v" "0 < limit" "of_int limit \<le> v" | "0 < v" "\<not> (0 < limit \<and> of_int limit \<le> v)" by linarith
  then show ?thesis
  proof cases
    case 1
    then have "of_int (base - jitter) \<le> (0 :: rat)" using v(2) by linarith
    then have "base \<le> jitter" by (simp only: of_int_le_0_iff)
    with 1 assms(4) show ?thesis by (simp add: clamp_delay_def v(1) is_nan_def)
  next
    case 2
    then have "(of_int limit :: rat) \<le> of_int (base + jitter)" using v(3) by linarith
    then have "limit \<le> base + jitter" by (simp only: of_int_le_iff)
    with 2 assms(7) show ?thesis by (simp add: clamp_delay_def v(1) is_nan_def limit)
  next
    case 3
    have "base - jitter \<le> \<lfloor>v\<rfloor>" "\<lfloor>v\<rfloor> \<le> base + jitter" using v(2,3) by (simp_all only: le_floor_iff, metis floor_mono floor_of_int)
    with 3 huge show ?thesis by (auto simp: clamp_delay_def v(1) is_nan_def limit)
  qed
qed

section \<open>Retry-After\<close>

text \<open>\<open>parse_time\<close> is \<open>http.ParseTime\<close>.\<close>

definition parseRetryAfter :: "(string \<Rightarrow> gotime option) \<Rightarrow> string \<Rightarrow> gotime \<Rightarrow> duration option" where
  "parseRetryAfter parse_time value receivedAt =
     (let value = TrimSpace value
      in if value = '''' then None
         else if list_all (\<lambda>r. 48 \<le> r \<and> r \<le> 57) (runes value)
         then (case ParseUint64 value of
                 None \<Rightarrow> None
               | Some seconds \<Rightarrow>
                   if max_duration div Second < int seconds then None
                   else Some (int seconds * Second))
         else (case parse_time value of
                 None \<Rightarrow> None
               | Some retryAt \<Rightarrow>
                   if \<not> time_after retryAt receivedAt then Some 0
                   else if time_after retryAt (time_add receivedAt max_duration) then None
                   else Some (time_sub retryAt receivedAt)))"

text \<open>The first value of the header that parses.\<close>

fun first_retry_after :: "(string \<Rightarrow> gotime option) \<Rightarrow> gotime \<Rightarrow> string list \<Rightarrow> duration option" where
  "first_retry_after parse_time receivedAt [] = None"
| "first_retry_after parse_time receivedAt (v # vs) =
     (case parseRetryAfter parse_time v receivedAt of
        Some d \<Rightarrow> Some d | None \<Rightarrow> first_retry_after parse_time receivedAt vs)"

definition retryAfterDelay :: "(string \<Rightarrow> gotime option) \<Rightarrow> Response option \<Rightarrow> gotime \<Rightarrow> duration option" where
  "retryAfterDelay parse_time response receivedAt = (case response of
     None \<Rightarrow> None
   | Some r \<Rightarrow> first_retry_after parse_time receivedAt (header_values (rs_header r) ''Retry-After''))"

lemma parseRetryAfter_bounds:
  assumes "parseRetryAfter pt v t = Some d"
  shows "0 \<le> d \<and> d \<le> max_duration"
proof -
  have "int n * Second \<le> max_duration" if "int n \<le> max_duration div Second" for n
    using that by (simp add: max_duration_def Second_def)
  then show ?thesis
    using assms time_sub_bounds time_sub_nonneg
    by (auto simp: parseRetryAfter_def Let_def Second_def max_duration_def time_after_def not_less
        split: if_splits option.splits)
qed

lemma retryAfterDelay_bounds:
  "retryAfterDelay pt r t = Some d \<Longrightarrow> 0 \<le> d \<and> d \<le> max_duration"
proof -
  have "first_retry_after pt t vs = Some d \<Longrightarrow> 0 \<le> d \<and> d \<le> max_duration" for vs
    by (induction vs) (auto dest: parseRetryAfter_bounds split: option.splits)
  then show "retryAfterDelay pt r t = Some d \<Longrightarrow> 0 \<le> d \<and> d \<le> max_duration"
    by (auto simp: retryAfterDelay_def split: option.splits)
qed

text \<open>An HTTP date waits until exactly that instant.\<close>

lemma parseRetryAfter_date:
  assumes "TrimSpace v = v" "v \<noteq> []" "\<not> list_all (\<lambda>r. 48 \<le> r \<and> r \<le> 57) (runes v)"
    and "pt v = Some at'" "instant t < instant at'" "instant at' \<le> instant t + max_duration"
  shows "parseRetryAfter pt v t = Some (instant at' - instant t)"
  using assms
  by (auto simp: parseRetryAfter_def time_after_def time_add_def time_sub_def saturate_def
      max_duration_def min_duration_def)

section \<open>Waiting\<close>

text \<open>
  \<open>waitForRetryDelay\<close>: \<open>poll\<close> is what the context answers now and \<open>race\<close> what the select returns once
  the timer runs: the context error if the context is done first.
\<close>

definition waitForRetryDelay :: "ctx_err option \<Rightarrow> ctx_err option \<Rightarrow> duration \<Rightarrow> ctx_err option" where
  "waitForRetryDelay poll race delay = (if delay \<le> 0 then poll else race)"

end
