(* ===== verification/Ck_Steps.thy ===== *)
theory Ck_Steps
  imports Main
begin

text \<open>
  The interface of the step relations of the development: a system whose steps keep an invariant and
  use up a finite amount of work, and which is only out of steps in a final state. The lifecycle of a
  response body and the goroutines of \<open>CheckAll\<close> are instances.
\<close>

locale measured_system =
  fixes step :: "'s \<Rightarrow> 's \<Rightarrow> bool"
    and inv :: "'s \<Rightarrow> bool"
    and work :: "'s \<Rightarrow> nat"
    and final :: "'s \<Rightarrow> bool"
  assumes step_inv: "step s s' \<Longrightarrow> inv s \<Longrightarrow> inv s'"
    and step_work: "step s s' \<Longrightarrow> inv s \<Longrightarrow> work s' < work s"
    and step_exists: "inv s \<Longrightarrow> \<not> final s \<Longrightarrow> \<exists>s'. step s s'"
begin

lemma run_inv: "step\<^sup>*\<^sup>* s s' \<Longrightarrow> inv s \<Longrightarrow> inv s'"
  by (induction rule: rtranclp_induct) (auto intro: step_inv)

text \<open>No schedule takes more steps than there is work.\<close>

lemma run_length: "(step ^^ n) s s' \<Longrightarrow> inv s \<Longrightarrow> n + work s' \<le> work s"
proof (induction n arbitrary: s')
  case (Suc n)
  then obtain t where t: "(step ^^ n) s t" "step t s'" by auto
  have "inv t" using run_inv [of s t] t(1) Suc.prems(2) by (metis rtranclp_power)
  with Suc.IH [OF t(1) Suc.prems(2)] step_work [OF t(2)] show ?case by simp
qed simp

text \<open>A schedule that cannot go on has reached a final state, and there is one that does.\<close>

lemma stuck_final: "step\<^sup>*\<^sup>* s s' \<Longrightarrow> inv s \<Longrightarrow> (\<nexists>t. step s' t) \<Longrightarrow> final s'"
  using run_inv step_exists by blast

lemma completes: "inv s \<Longrightarrow> \<exists>s'. step\<^sup>*\<^sup>* s s' \<and> final s'"
proof (induction "work s" arbitrary: s rule: less_induct)
  case less
  show ?case
  proof (cases "final s")
    case False
    then obtain t where t: "step s t" using step_exists less.prems by blast
    from less.hyps [OF step_work [OF t less.prems] step_inv [OF t less.prems]] t show ?thesis
      by (meson converse_rtranclp_into_rtranclp)
  qed blast
qed

end

end
