(* ===== verification/Http_Cleanup.thy ===== *)
theory Http_Cleanup
  imports Go_Http Ck_Steps
begin

text \<open>
  Response bodies the HTTP client discards (\<open>httpclient/response_cleanup.go\<close>) and the wrapper around
  a final body (\<open>observedResponseBody\<close> in \<open>do.go\<close>), whose release runs exactly once whichever of a
  read error, a close and the end of the context comes first.
\<close>

section \<open>Draining a discarded response\<close>

definition maxDiscardedResponseBodyBytes :: nat where
  "maxDiscardedResponseBodyBytes = 65536"

definition shouldDrainDiscardedResponse :: "Response \<Rightarrow> bool" where
  "shouldDrainDiscardedResponse r =
     (if rs_proto_major r \<noteq> 1 \<or> rs_status r < 200 \<or> rs_body r = NoBody \<or> rs_content_length r = 0 \<or>
         rs_content_length r > int maxDiscardedResponseBodyBytes \<or> rs_close r then False
      else if (case rs_body r of Stream _ writer \<Rightarrow> writer | _ \<Rightarrow> False) then False
      else (case rs_request r of
              None \<Rightarrow> True
            | Some (rq, _) \<Rightarrow> rq_method rq \<noteq> ''HEAD'' \<and> \<not> rq_close rq))"

text \<open>The context that bounds the drain: none if either is done or neither has a deadline.\<close>

definition discardedResponseDrainContext :: "ctx_view option \<Rightarrow> Response \<Rightarrow> ctx_view option" where
  "discardedResponseDrainContext ctx r =
     (let requestCtx = map_option snd (rs_request r);
          err = (\<lambda>c. case c of None \<Rightarrow> None | Some v \<Rightarrow> cv_err v);
          deadline = (\<lambda>c. case c of None \<Rightarrow> None | Some v \<Rightarrow> cv_deadline v)
      in if err ctx \<noteq> None \<or> err requestCtx \<noteq> None then None
         else (case (deadline ctx, deadline requestCtx) of
                 (None, None) \<Rightarrow> None
               | (None, Some _) \<Rightarrow> requestCtx
               | (Some _, None) \<Rightarrow> ctx
               | (Some d, Some e) \<Rightarrow> if time_before e d then requestCtx else ctx))"

text \<open>
  One read of \<open>contextBoundReader\<close>: the context's answer, then the bytes the body delivers and
  whether it reports an error. \<open>io.CopyN\<close> into \<open>io.Discard\<close> reads until an error or the limit, 8192
  bytes at most at a time.
\<close>

record body_read =
  br_ctx :: "ctx_err option"
  br_bytes :: nat
  br_err :: bool

fun copy_discard :: "nat \<Rightarrow> body_read list \<Rightarrow> nat" where
  "copy_discard limit [] = 0"
| "copy_discard limit (r # rs) =
     (if limit = 0 \<or> br_ctx r \<noteq> None then 0
      else (let n = min (br_bytes r) (min limit 8192)
            in if br_err r then n else n + copy_discard (limit - n) rs))"

text \<open>The bytes read and whether the body is closed.\<close>

definition drainAndCloseResponse :: "ctx_view option \<Rightarrow> Response option \<Rightarrow> body_read list \<Rightarrow> nat \<times> bool" where
  "drainAndCloseResponse ctx response reads = (case response of
     None \<Rightarrow> (0, False)
   | Some r \<Rightarrow>
       if rs_body r = NilBody then (0, False)
       else if discardedResponseDrainContext ctx r = None \<or> \<not> shouldDrainDiscardedResponse r
       then (0, True)
       else (copy_discard (maxDiscardedResponseBodyBytes + 1) reads, True))"

lemma copy_discard_le: "copy_discard limit rs \<le> limit"
proof (induction limit rs rule: copy_discard.induct)
  case (2 limit r rs)
  let ?n = "min (br_bytes r) (min limit 8192)"
  have n: "?n \<le> limit" by simp
  show ?case
  proof (cases "limit = 0 \<or> br_ctx r \<noteq> None \<or> br_err r")
    case True
    with n show ?thesis by (auto simp: Let_def)
  next
    case False
    with 2 have "copy_discard (limit - ?n) rs \<le> limit - ?n" by simp
    moreover have "a + c \<le> b" if "c \<le> b - a" "a \<le> b" for a b c :: nat using that by linarith
    ultimately have "?n + copy_discard (limit - ?n) rs \<le> limit" using n by blast
    with False show ?thesis unfolding copy_discard.simps Let_def by simp
  qed
qed simp

lemma copy_discard_ctx:
  "rs = pre @ r # post \<Longrightarrow> br_ctx r \<noteq> None \<Longrightarrow> copy_discard limit rs = copy_discard limit (pre @ [r])"
  by (induction pre arbitrary: limit rs) (auto simp: Let_def)

lemma drain_bounded: "fst (drainAndCloseResponse ctx response reads) \<le> maxDiscardedResponseBodyBytes + 1"
  using copy_discard_le [of "maxDiscardedResponseBodyBytes + 1" reads]
  by (auto simp: drainAndCloseResponse_def split: option.split)

lemma drain_closes:
  "snd (drainAndCloseResponse ctx response reads) \<longleftrightarrow> (\<exists>r. response = Some r \<and> rs_body r \<noteq> NilBody)"
  by (auto simp: drainAndCloseResponse_def split: option.split)

text \<open>Nothing is read from a response of a done context, without a deadline, over HTTP/2, of an
  upgraded connection, or announced as larger than the limit.\<close>

lemma drain_only:
  assumes "0 < fst (drainAndCloseResponse ctx (Some r) reads)"
  shows "rs_proto_major r = 1" "200 \<le> rs_status r" "rs_content_length r \<le> int maxDiscardedResponseBodyBytes"
    "\<not> rs_close r" "\<exists>i. rs_body r = Stream i False"
    "\<exists>v d. (ctx = Some v \<or> (\<exists>rq. rs_request r = Some (rq, v))) \<and> cv_err v = None \<and> cv_deadline v = Some d"
proof -
  have s: "shouldDrainDiscardedResponse r" and c: "discardedResponseDrainContext ctx r \<noteq> None"
    and b: "rs_body r \<noteq> NilBody"
    using assms by (auto simp: drainAndCloseResponse_def split: if_splits)
  show "rs_proto_major r = 1" "200 \<le> rs_status r" "rs_content_length r \<le> int maxDiscardedResponseBodyBytes"
    "\<not> rs_close r" "\<exists>i. rs_body r = Stream i False"
    using s b by (auto simp: shouldDrainDiscardedResponse_def split: if_splits body.splits)
  show "\<exists>v d. (ctx = Some v \<or> (\<exists>rq. rs_request r = Some (rq, v))) \<and> cv_err v = None \<and> cv_deadline v = Some d"
    using c by (fastforce simp: discardedResponseDrainContext_def Let_def split: option.splits if_splits)
qed

text \<open>The earlier of two deadlines governs.\<close>

lemma drain_context_earliest:
  assumes "discardedResponseDrainContext (Some v) r = Some w" "cv_deadline v = Some d"
  shows "\<exists>e. cv_deadline w = Some e \<and> instant e \<le> instant d"
  using assms
  by (auto simp: discardedResponseDrainContext_def Let_def time_before_def split: option.splits if_splits)

section \<open>The lifecycle of a final body\<close>

text \<open>
  \<open>finish\<close> runs under a \<open>sync.Once\<close>; the goroutine of \<open>context.AfterFunc\<close> may run it before
  \<open>setStop\<close> has stored the stop function. The steps are those between lock operations: what made somebody
  call \<open>finish\<close> first, where \<open>finish\<close> stands, where \<open>setStop\<close> stands, the two fields the mutex guards, and
  how often the stop function and \<open>complete\<close> have been called.
\<close>

datatype trigger = ReadError | WriteError | BodyClosed | ContextDone

datatype finish_pc = FinishIdle | FinishMarked bool | FinishStopped | FinishDone
datatype stop_pc = StopBefore | StopRegistered | StopLate | StopSet

record body_state =
  bs_trigger :: "trigger option"
  bs_finish :: finish_pc
  bs_set :: stop_pc
  bs_finished :: bool
  bs_stop :: bool     \<comment> \<open>\<open>b.stop\<close> is not nil\<close>
  bs_stops :: nat
  bs_completes :: nat

definition body_start :: body_state where
  "body_start = \<lparr>bs_trigger = None, bs_finish = FinishIdle, bs_set = StopBefore, bs_finished = False, bs_stop = False,
     bs_stops = 0, bs_completes = 0\<rparr>"

text \<open>
  Until \<open>attachResponseLifecycle\<close> has returned, only the end of the context can call \<open>finish\<close>; afterwards the
  caller holds the body. Calls after the first wait at the \<open>sync.Once\<close> and do nothing, so one is recorded.
\<close>

inductive body_step :: "body_state \<Rightarrow> body_state \<Rightarrow> bool" where
  after_func: "bs_set s = StopBefore \<Longrightarrow> body_step s (s\<lparr>bs_set := StopRegistered\<rparr>)"
| set_stop: "bs_set s = StopRegistered \<Longrightarrow> \<not> bs_finished s \<Longrightarrow>
    body_step s (s\<lparr>bs_set := StopSet, bs_stop := True\<rparr>)"
| set_stop_late: "bs_set s = StopRegistered \<Longrightarrow> bs_finished s \<Longrightarrow> body_step s (s\<lparr>bs_set := StopLate\<rparr>)"
| stop_now: "bs_set s = StopLate \<Longrightarrow> body_step s (s\<lparr>bs_set := StopSet, bs_stops := Suc (bs_stops s)\<rparr>)"
| called: "bs_trigger s = None \<Longrightarrow> bs_set s \<noteq> StopBefore \<Longrightarrow> t = ContextDone \<or> bs_set s = StopSet \<Longrightarrow>
    body_step s (s\<lparr>bs_trigger := Some t\<rparr>)"
| mark: "bs_trigger s \<noteq> None \<Longrightarrow> bs_finish s = FinishIdle \<Longrightarrow>
    body_step s (s\<lparr>bs_finish := FinishMarked (bs_stop s), bs_finished := True, bs_stop := False\<rparr>)"
| call_stop: "bs_finish s = FinishMarked had \<Longrightarrow>
    body_step s (s\<lparr>bs_finish := FinishStopped, bs_stops := bs_stops s + (if had then 1 else 0)\<rparr>)"
| complete: "bs_finish s = FinishStopped \<Longrightarrow>
    body_step s (s\<lparr>bs_finish := FinishDone, bs_completes := Suc (bs_completes s)\<rparr>)"

inductive_cases body_stepE: "body_step s s'"

definition body_reachable :: "body_state \<Rightarrow> bool" where
  "body_reachable s \<longleftrightarrow> body_step\<^sup>*\<^sup>* body_start s"

text \<open>The stop function is accounted for: stored, in the hands of one of the two, or called.\<close>

definition body_inv :: "body_state \<Rightarrow> bool" where
  "body_inv s \<longleftrightarrow>
     (bs_trigger s = None \<longrightarrow> bs_finish s = FinishIdle) \<and>
     (bs_set s = StopBefore \<longrightarrow> bs_trigger s = None) \<and>
     (bs_finished s \<longleftrightarrow> bs_finish s \<noteq> FinishIdle) \<and>
     bs_completes s = (if bs_finish s = FinishDone then 1 else 0) \<and>
     (bs_set s \<noteq> StopSet \<longrightarrow> bs_stops s = 0 \<and> \<not> bs_stop s \<and> bs_finish s \<noteq> FinishMarked True) \<and>
     (bs_set s = StopBefore \<longrightarrow> bs_finish s = FinishIdle) \<and>
     (bs_set s = StopLate \<longrightarrow> bs_finished s) \<and>
     (bs_set s = StopSet \<longrightarrow>
        bs_stops s + (if bs_stop s then 1 else 0) + (if bs_finish s = FinishMarked True then 1 else 0) = 1) \<and>
     (bs_stop s \<longrightarrow> bs_finish s = FinishIdle) \<and>
     (bs_set s = StopSet \<and> bs_finish s = FinishIdle \<longrightarrow> bs_stop s)"

lemma body_inv_start: "body_inv body_start"
  by (simp add: body_inv_def body_start_def)

lemma body_inv_step: "body_step s s' \<Longrightarrow> body_inv s \<Longrightarrow> body_inv s'"
  by (induction rule: body_step.induct) (auto simp: body_inv_def split: if_splits)

lemma body_reachable_inv: "body_reachable s \<Longrightarrow> body_inv s"
  unfolding body_reachable_def
  by (induction rule: rtranclp_induct) (auto intro: body_inv_start body_inv_step)

text \<open>The release runs at most once, and not before something called for it.\<close>

lemma body_release_once: "body_reachable s \<Longrightarrow> bs_completes s \<le> 1 \<and> bs_stops s \<le> 1"
  using body_reachable_inv [of s] by (auto simp: body_inv_def split: if_splits)

lemma body_release_called: "body_reachable s \<Longrightarrow> bs_trigger s = None \<Longrightarrow> bs_completes s = 0 \<and> bs_stops s = 0"
  using body_reachable_inv [of s] by (cases "bs_set s") (auto simp: body_inv_def split: if_splits)

text \<open>The body is released: \<open>complete\<close> has run once and the context callback has been unregistered once.\<close>

definition body_released :: "body_state \<Rightarrow> bool" where
  "body_released s \<longleftrightarrow> bs_completes s = 1 \<and> bs_stops s = 1 \<and> \<not> bs_stop s"

text \<open>Nothing gets stuck: a body that is not released can still be closed, or is on its way.\<close>

lemma body_progress:
  assumes "body_inv s" "\<not> body_released s"
  shows "\<exists>s'. body_step s s'"
proof (cases "bs_set s = StopSet")
  case set: True
  show ?thesis
  proof (cases "bs_finish s")
    case FinishIdle
    with set called [of s BodyClosed] mark [of s] show ?thesis by (cases "bs_trigger s = None") auto
  next
    case FinishDone
    with set assms show ?thesis by (auto simp: body_inv_def body_released_def split: if_splits)
  qed (auto intro: call_stop complete)
next
  case False
  then show ?thesis
    by (cases "bs_set s"; cases "bs_finished s") (auto intro: after_func set_stop set_stop_late stop_now)
qed

text \<open>The work the two routines have left.\<close>

fun finish_work :: "finish_pc \<Rightarrow> nat" where
  "finish_work FinishIdle = 3"
| "finish_work (FinishMarked _) = 2"
| "finish_work FinishStopped = 1"
| "finish_work FinishDone = 0"

fun stop_work :: "stop_pc \<Rightarrow> nat" where
  "stop_work StopBefore = 3"
| "stop_work StopRegistered = 2"
| "stop_work StopLate = 1"
| "stop_work StopSet = 0"

definition body_work :: "body_state \<Rightarrow> nat" where
  "body_work s = of_bool (bs_trigger s = None) + finish_work (bs_finish s) + stop_work (bs_set s)"

lemma body_step_work: "body_step s s' \<Longrightarrow> body_work s' < body_work s"
  by (induction rule: body_step.induct) (simp_all add: body_work_def)

interpretation lifecycle: measured_system body_step body_inv body_work body_released
  by unfold_locales (auto intro: body_inv_step body_step_work body_progress)

end
