(* ===== verification/Http_Do.thy ===== *)
theory Http_Do
  imports Http_Policy Http_Delay Http_Cleanup
begin

text \<open>
  The execution loop of \<open>httpclient/do.go\<close> with the attributes of \<open>observability.go\<close>: validation,
  attempts, classification, the retry decision, delays, and the ownership of request and response
  bodies. One execution runs against a script: what the clock, the contexts, the transport, the
  classifier and \<open>GetBody\<close> answer at each point. It yields the result and the effects in order.
\<close>

section \<open>Attributes\<close>

definition telemetryHTTPMethod :: "string \<Rightarrow> string" where
  "telemetryHTTPMethod method =
     (let m = normalizedHTTPMethod method in if m \<in> set standard_methods then m else ''_OTHER'')"

definition httpStatusClass :: "int \<Rightarrow> string" where
  "httpStatusClass statusCode =
     (if statusCode div 100 = 1 then ''1xx'' else if statusCode div 100 = 2 then ''2xx''
      else if statusCode div 100 = 3 then ''3xx'' else if statusCode div 100 = 4 then ''4xx''
      else if statusCode div 100 = 5 then ''5xx'' else '''')"

definition httpExecutionAttributes :: "string \<Rightarrow> int \<Rightarrow> attribute list \<Rightarrow> attribute list" where
  "httpExecutionAttributes method statusCode additional =
     [(''http.request.method'', telemetryHTTPMethod method)] @
     (if httpStatusClass statusCode \<noteq> ''''
      then [(''clientkit.http.status_class'', httpStatusClass statusCode)] else []) @ additional"

text \<open>Execution attributes are drawn from a fixed vocabulary, whatever the request carries.\<close>

lemma telemetryHTTPMethod_bounded: "telemetryHTTPMethod m \<in> insert ''_OTHER'' (set standard_methods)"
  by (simp add: telemetryHTTPMethod_def Let_def)

lemma httpStatusClass_bounded: "httpStatusClass s \<in> {''1xx'', ''2xx'', ''3xx'', ''4xx'', ''5xx'', ''''}"
  by (simp add: httpStatusClass_def)

section \<open>Results, script and effects\<close>

record Attempt =
  a_number :: int
  a_outcome :: Outcome
  a_failure :: FailureClass
  a_status :: int
  a_started :: gotime
  a_duration :: duration
  a_err :: "goerr option"

record Result =
  r_outcome :: Outcome
  r_failure :: FailureClass
  r_status :: int
  r_response :: "Response option"
  r_started :: gotime
  r_duration :: duration
  r_attempts :: "Attempt list"
  r_err :: "goerr option"

record executionPolicy =
  ep_operation :: string
  ep_timeout :: duration
  ep_attempt_timeout :: duration
  ep_retry :: RetryConfig
  ep_source :: retry_policy_source
  ep_safety :: RetrySafety
  ep_classifier :: safeResponseClassifier
  ep_attributes :: "attribute list"

text \<open>
  What one attempt meets, in the order the code asks: \<open>totalCtx.Err()\<close>, the preparation of the request,
  the clock, the result of \<open>httpClient.Do\<close>, the clock, \<open>attemptCtx.Err()\<close> before and after the
  classifier, \<open>totalCtx.Err()\<close>, the random draw, the clock, the wait, and the clock of a final result.
\<close>

record attempt_env =
  at_total :: "ctx_err option"
  at_prep :: prep_env
  at_started :: gotime
  at_response :: "Response option"
  at_err :: "goerr option"
  at_ended :: gotime
  at_ctx :: "ctx_err option"
  at_classify :: classify_code
  at_ctx_classified :: "ctx_err option"
  at_total_retry :: "ctx_err option"
  at_draw :: float64
  at_now :: gotime
  at_wait_poll :: "ctx_err option"
  at_wait_race :: "ctx_err option"
  at_finish :: gotime

record do_env =
  de_started :: gotime
  de_attempt :: "int \<Rightarrow> attempt_env"
  de_exhausted :: gotime
  de_ended :: gotime

record go_code =
  go_ext :: "rune \<Rightarrow> rune"
  go_pow :: pow_function
  go_parse_time :: "string \<Rightarrow> gotime option"

datatype http_effect =
    StartedOperation "attribute list OperationStartEvent"
  | TotalTimeout duration
  | AttemptTimeout int duration
  | CloseRequest body
  | Send int Request
  | CloseReceived int Response
  | Attempted "attribute list AttemptEvent"
  | DrainClose int "Response option"
  | Retrying "attribute list RetryEvent"
  | Waited duration
  | CancelAttempt int
  | AttachLifecycle int Response
  | CancelTotal
  | CheckTimeout duration
  | CheckDrained "Response option"
  | CheckCancelled
  | EndedOperation "attribute list OperationEndEvent"

text \<open>What is fixed for one execution.\<close>

record operation =
  op_go :: go_code
  op_client_name :: string
  op_method :: string
  op_authorization :: retryAuthorization
  op_policy :: executionPolicy
  op_request :: Request
  op_env :: do_env

definition failed_result :: "FailureClass \<Rightarrow> goerr \<Rightarrow> Result" where
  "failed_result fc err = \<lparr>r_outcome = OutcomeExecutionError, r_failure = fc, r_status = 0,
     r_response = None, r_started = zero_time, r_duration = 0, r_attempts = [], r_err = Some err\<rparr>"

definition max_attempts :: "operation \<Rightarrow> int" where
  "max_attempts op = (if rc_max_attempts (ep_retry (op_policy op)) < 1 then 1
     else rc_max_attempts (ep_retry (op_policy op)))"

section \<open>One attempt\<close>

text \<open>What an attempt is judged to be: the response and error after the context checks, the outcome
  and class, and the responses closed on the way.\<close>

record attempt_view =
  av_response :: "Response option"
  av_err :: "goerr option"
  av_outcome :: Outcome
  av_failure :: FailureClass
  av_closed :: "Response list"

definition closed_response :: "Response option \<Rightarrow> Response list" where
  "closed_response r = (case r of None \<Rightarrow> [] | Some x \<Rightarrow> if rs_body x = NilBody then [] else [x])"

definition classified :: "responseClassification \<Rightarrow> Outcome \<times> FailureClass" where
  "classified cl = (case cl of
     responseClassifiedAccepted \<Rightarrow> (OutcomeSuccess, FailureNone)
   | responseClassifiedRejected \<Rightarrow> (OutcomeResponseRejected, FailureRemoteResponse)
   | _ \<Rightarrow> (OutcomeExecutionError, FailurePolicy))"

definition view_attempt :: "safeResponseClassifier \<Rightarrow> attempt_env \<Rightarrow> attempt_view" where
  "view_attempt classifier env =
     (let (response, err, shut) =
            (case at_ctx env of
               Some e \<Rightarrow> (None, Some (err_of_ctx e), closed_response (at_response env))
             | None \<Rightarrow> (at_response env, at_err env, []));
          err = (if response = None \<and> err = None then Some errHTTPTransportNoResponse else err);
          outcome = classifyOutcome response err;
          failureClass = classifyFailure failureStageTransport response err
      in case (err, response) of
           (None, Some r) \<Rightarrow>
             (let classification = safe_classify (at_classify env) classifier (Some r)
              in case at_ctx_classified env of
                   Some e \<Rightarrow>
                     (let err = Some (err_of_ctx e)
                      in \<lparr>av_response = None, av_err = err, av_outcome = classifyOutcome None err,
                          av_failure = classifyFailure failureStageTransport None err,
                          av_closed = shut @ closed_response (Some r)\<rparr>)
                 | None \<Rightarrow>
                     \<lparr>av_response = Some r, av_err = None, av_outcome = fst (classified classification),
                      av_failure = snd (classified classification), av_closed = shut\<rparr>)
         | _ \<Rightarrow> \<lparr>av_response = response, av_err = err, av_outcome = outcome,
                 av_failure = failureClass, av_closed = shut\<rparr>)"

definition status_of :: "Response option \<Rightarrow> int" where
  "status_of r = (case r of None \<Rightarrow> 0 | Some x \<Rightarrow> rs_status x)"

definition retry_decision :: "operation \<Rightarrow> int \<Rightarrow> attempt_env \<Rightarrow> attempt_view \<Rightarrow> bool" where
  "retry_decision op n env v \<longleftrightarrow>
     av_outcome v \<noteq> OutcomeSuccess \<and>
     n < max_attempts op \<and>
     at_total_retry env = None \<and>
     \<not> isRequestPolicyError (av_err v) \<and>
     av_failure v \<noteq> FailurePolicy \<and>
     authorization_allows (op_authorization op) \<and>
     requestBodyIsReplayable (Some (op_request op)) \<and>
     shouldRetry (ep_retry (op_policy op)) (op_method op) (av_outcome v) (av_failure v)
       (status_of (av_response v)) (av_err v)"

text \<open>The delay before the next attempt and where it comes from.\<close>

definition choose_delay :: "operation \<Rightarrow> int \<Rightarrow> attempt_env \<Rightarrow> attempt_view \<Rightarrow> duration \<times> string" where
  "choose_delay op n env v =
     (let retry = ep_retry (op_policy op);
          policyDelay = retryDelay (go_pow (op_go op)) (at_draw env) retry n
      in if av_outcome v = OutcomeResponseRejected \<and> rc_respect_retry_after retry
         then (case retryAfterDelay (go_parse_time (op_go op)) (av_response v) (at_ended env) of
                 None \<Rightarrow> (policyDelay, ''policy'')
               | Some serverDelay \<Rightarrow>
                   (let serverDelay = (if serverDelay > rc_max_retry_after retry then rc_max_retry_after retry
                                       else serverDelay)
                    in if serverDelay > policyDelay then (serverDelay, ''retry_after'')
                       else (policyDelay, ''policy'')))
         else (policyDelay, ''policy''))"

definition attempt_record :: "int \<Rightarrow> attempt_env \<Rightarrow> attempt_view \<Rightarrow> Attempt" where
  "attempt_record n env v =
     \<lparr>a_number = n, a_outcome = av_outcome v, a_failure = av_failure v, a_status = status_of (av_response v),
      a_started = at_started env, a_duration = time_sub (at_ended env) (at_started env), a_err = av_err v\<rparr>"

definition attempt_event :: "operation \<Rightarrow> int \<Rightarrow> attempt_env \<Rightarrow> string \<Rightarrow> attempt_view \<Rightarrow> attribute list AttemptEvent" where
  "attempt_event op n env method v =
     \<lparr>ae_client = op_client_name op, ae_protocol = ProtocolHTTP, ae_operation = ep_operation (op_policy op),
      ae_number = n, ae_started_at = to_utc (at_started env), ae_ended_at = to_utc (at_ended env),
      ae_duration = time_sub (at_ended env) (at_started env), ae_outcome = outcome_string (av_outcome v),
      ae_succeeded = (av_outcome v = OutcomeSuccess), ae_failure = av_failure v, ae_err = av_err v,
      ae_attributes = httpExecutionAttributes method (status_of (av_response v)) (ep_attributes (op_policy op))\<rparr>"

definition retry_event :: "operation \<Rightarrow> int \<Rightarrow> attempt_env \<Rightarrow> string \<Rightarrow> attempt_view \<Rightarrow> attribute list RetryEvent" where
  "retry_event op n env method v =
     (let (delay, source) = choose_delay op n env v
      in \<lparr>re_client = op_client_name op, re_protocol = ProtocolHTTP, re_operation = ep_operation (op_policy op),
          re_after_attempt = n, re_at = to_utc (at_now env), re_delay = delay,
          re_cause = outcome_string (av_outcome v), re_failure = av_failure v,
          re_attributes =
            httpExecutionAttributes method (status_of (av_response v)) (ep_attributes (op_policy op)) @
            [(''http.retry_delay_source'', source),
             (''http.retry_authorization'', authorization_string (op_authorization op))] @
            (if ep_source (op_policy op) \<noteq> RetryPolicySourceNone
             then [(''http.retry_policy_source'', source_string (ep_source (op_policy op)))] else [])\<rparr>)"

text \<open>A result without a response: the execution was stopped by a context or a failed preparation.\<close>

definition stopped_result :: "operation \<Rightarrow> gotime \<Rightarrow> Attempt list \<Rightarrow> goerr \<Rightarrow> FailureClass \<Rightarrow> Result" where
  "stopped_result op now attempts err fc =
     \<lparr>r_outcome = classifyOutcome None (Some err), r_failure = fc, r_status = 0, r_response = None,
      r_started = de_started (op_env op), r_duration = time_sub now (de_started (op_env op)),
      r_attempts = attempts, r_err = Some err\<rparr>"

definition final_result :: "operation \<Rightarrow> gotime \<Rightarrow> Attempt list \<Rightarrow> attempt_view \<Rightarrow> Result" where
  "final_result op now attempts v =
     \<lparr>r_outcome = av_outcome v, r_failure = av_failure v, r_status = status_of (av_response v),
      r_response = av_response v, r_started = de_started (op_env op),
      r_duration = time_sub now (de_started (op_env op)), r_attempts = attempts, r_err = av_err v\<rparr>"

text \<open>
  The body of the loop. \<open>Done\<close> carries the result, the effects and whether the contexts now belong to
  the response body; \<open>Again\<close> the attempts so far and the effects.
\<close>

datatype step_result = Done Result "http_effect list" bool | Again "Attempt list" "http_effect list"

definition lifecycle_attached :: "attempt_view \<Rightarrow> bool" where
  "lifecycle_attached v \<longleftrightarrow> av_err v = None \<and>
     (case av_response v of None \<Rightarrow> False | Some r \<Rightarrow> rs_body r \<noteq> NilBody \<and> rs_body r \<noteq> NoBody)"

definition after_attempt ::
  "operation \<Rightarrow> int \<Rightarrow> Attempt list \<Rightarrow> http_effect list \<Rightarrow> Request \<Rightarrow> step_result" where
  "after_attempt op n attempts effects attemptRequest =
     (let env = de_attempt (op_env op) n;
          v = view_attempt (ep_classifier (op_policy op)) env;
          attempts = attempts @ [attempt_record n env v];
          effects = effects @ [Send n attemptRequest] @ map (CloseReceived n) (av_closed v) @
            [Attempted (attempt_event op n env (rq_method attemptRequest) v)]
      in if \<not> retry_decision op n env v then
           Done (final_result op (at_finish env) attempts v)
             (effects @ (if lifecycle_attached v
                         then (case av_response v of None \<Rightarrow> [] | Some r \<Rightarrow> [AttachLifecycle n r])
                         else [CancelAttempt n]))
             (lifecycle_attached v)
         else
           (let delay = fst (choose_delay op n env v);
                effects = effects @ [DrainClose n (av_response v), CancelAttempt n,
                  Retrying (retry_event op n env (rq_method attemptRequest) v), Waited delay]
            in case waitForRetryDelay (at_wait_poll env) (at_wait_race env) delay of
                 Some e \<Rightarrow> Done (stopped_result op (at_finish env) attempts (err_of_ctx e)
                             (classifyFailure failureStageTransport None (Some (err_of_ctx e)))) effects False
               | None \<Rightarrow> Again attempts effects))"

definition attempt_step :: "operation \<Rightarrow> int \<Rightarrow> Attempt list \<Rightarrow> step_result" where
  "attempt_step op n attempts =
     (let env = de_attempt (op_env op) n
      in case at_total env of
           Some e \<Rightarrow> Done (stopped_result op (at_finish env) attempts (err_of_ctx e)
                       (classifyFailure failureStageTransport None (Some (err_of_ctx e)))) [] False
         | None \<Rightarrow>
             (let timeout = ep_attempt_timeout (op_policy op);
                  opened = (if timeout > 0 then [AttemptTimeout n timeout] else [])
              in case requestForAttempt (at_prep env) (Some (op_request op)) True n of
                   (Inl e, shut) \<Rightarrow>
                     Done (stopped_result op (at_finish env) attempts e (classifyRequestPreparationFailure (Some e)))
                       (opened @ map CloseRequest shut @ [CancelAttempt n]) False
                 | (Inr rq, shut) \<Rightarrow>
                     after_attempt op n attempts (opened @ map CloseRequest shut)
                       (rq\<lparr>rq_header := Some (case rq_header rq of None \<Rightarrow> [] | Some h \<Rightarrow> h)\<rparr>)))"

definition exhausted_error :: goerr where
  "exhausted_error = errors_new ''clientkit: HTTP execution ended without an attempt''"

text \<open>The loop; the number of remaining attempts is what the loop condition leaves.\<close>

fun attempt_loop :: "operation \<Rightarrow> nat \<Rightarrow> int \<Rightarrow> Attempt list \<Rightarrow> Result \<times> http_effect list \<times> bool" where
  "attempt_loop op 0 n attempts =
     (\<lparr>r_outcome = OutcomeExecutionError, r_failure = FailureTransport, r_status = 0, r_response = None,
       r_started = de_started (op_env op),
       r_duration = time_sub (de_exhausted (op_env op)) (de_started (op_env op)),
       r_attempts = attempts, r_err = Some exhausted_error\<rparr>, [], False)"
| "attempt_loop op (Suc k) n attempts =
     (case attempt_step op n attempts of
        Done r effects attached \<Rightarrow> (r, effects, attached)
      | Again attempts' effects \<Rightarrow>
          (let (r, effects', attached) = attempt_loop op k (n + 1) attempts'
           in (r, effects @ effects', attached)))"

section \<open>One execution\<close>

definition start_event :: "operation \<Rightarrow> attribute list OperationStartEvent" where
  "start_event op =
     \<lparr>os_kind = OperationKindLogical, os_client = op_client_name op, os_protocol = ProtocolHTTP,
      os_operation = ep_operation (op_policy op), os_started_at = to_utc (de_started (op_env op)),
      os_attributes = httpExecutionAttributes (op_method op) 0 (ep_attributes (op_policy op))\<rparr>"

definition end_event :: "operation \<Rightarrow> Result \<Rightarrow> attribute list OperationEndEvent" where
  "end_event op final =
     \<lparr>oe_client = op_client_name op, oe_protocol = ProtocolHTTP, oe_operation = ep_operation (op_policy op),
      oe_started_at = to_utc (de_started (op_env op)), oe_ended_at = to_utc (de_ended (op_env op)),
      oe_duration = time_sub (de_ended (op_env op)) (de_started (op_env op)),
      oe_attempts = int (length (r_attempts final)), oe_outcome = outcome_string (r_outcome final),
      oe_succeeded = (r_outcome final = OutcomeSuccess), oe_failure = r_failure final, oe_err = r_err final,
      oe_attributes = httpExecutionAttributes (op_method op) (r_status final) (ep_attributes (op_policy op))\<rparr>"

text \<open>From the start of observation to its end, with the deferred calls in their order.\<close>

definition observed_execution :: "operation \<Rightarrow> Result \<times> http_effect list" where
  "observed_execution op =
     (let timeout = ep_timeout (op_policy op);
          (result, effects, attached) = attempt_loop op (nat (max_attempts op)) 1 [];
          sent = list_ex (\<lambda>e. case e of Send _ _ \<Rightarrow> True | _ \<Rightarrow> False) effects
      in (result,
          [StartedOperation (start_event op)] @ (if timeout > 0 then [TotalTimeout timeout] else []) @ effects @
          (if attached then [] else [CancelTotal]) @ [EndedOperation (end_event op result)] @
          (if sent then [] else map CloseRequest (closeRequestBody (Some (op_request op))))))"

definition do_request ::
  "go_code \<Rightarrow> do_env \<Rightarrow> HttpClient option \<Rightarrow> Request option \<Rightarrow> executionPolicy \<Rightarrow> Result \<times> http_effect list" where
  "do_request go env c request policy =
     (let refuse = (\<lambda>fc err. (failed_result fc err, map CloseRequest (closeRequestBody request)))
      in case (case c of None \<Rightarrow> None
               | Some c \<Rightarrow> if hc_http_client c = None \<or> hc_base_url c = None then None else Some c) of
           None \<Rightarrow> refuse (classifyFailure failureStageConfiguration None None)
                     (errors_new ''clientkit: HTTP client is not configured'')
         | Some c \<Rightarrow> (case request of
             None \<Rightarrow> refuse (classifyFailure failureStageRequest None None)
                       (errors_new ''clientkit: request is required'')
           | Some rq \<Rightarrow>
               if rq_url rq = None then
                 refuse (classifyFailure failureStageRequest None (Some (sentinel_error errRequestURLRequired)))
                   (sentinel_error errRequestURLRequired)
               else (case validateRequestOrigin (go_ext go) (Some c) (Some rq) of
                 Some err \<Rightarrow>
                   (let stage = (if isOriginPolicyError (Some err) then failureStagePolicy else failureStageRequest)
                    in refuse (classifyFailure stage None (Some err)) err)
               | None \<Rightarrow>
                   (let method = normalizedHTTPMethod (rq_method rq)
                    in case retryAuthorizationFor method (ep_safety policy) of
                         Inl _ \<Rightarrow> refuse FailurePolicy (errors_new ''clientkit: invalid HTTP retry safety'')
                       | Inr authorization \<Rightarrow>
                           observed_execution
                             \<lparr>op_go = go, op_client_name = http_name (Some c), op_method = method,
                              op_authorization = authorization,
                              op_policy = policy\<lparr>ep_classifier :=
                                (if ep_classifier policy = None then normalizeResponseClassifier None
                                 else ep_classifier policy)\<rparr>,
                              op_request = rq, op_env = env\<rparr>))))"

text \<open>\<open>ExecuteWithOptions\<close>, \<open>Execute\<close> and \<open>Do\<close>.\<close>

definition execution_classifier :: "HttpClient option \<Rightarrow> ResponseClassifier option \<Rightarrow> safeResponseClassifier" where
  "execution_classifier c override = (case override of
     Some cl \<Rightarrow> normalizeResponseClassifier (Some cl)
   | None \<Rightarrow> (case c of
       None \<Rightarrow> normalizeResponseClassifier None
     | Some c \<Rightarrow> if hc_classifier c = None then normalizeResponseClassifier None else hc_classifier c))"

definition ExecuteWithOptions ::
  "go_code \<Rightarrow> do_env \<Rightarrow> HttpClient option \<Rightarrow> Request option \<Rightarrow> ExecuteOptions \<Rightarrow> Result \<times> http_effect list" where
  "ExecuteWithOptions go env c request options =
     (let classifier = execution_classifier c (eo_classifier options);
          refuse = (\<lambda>err. (failed_result FailurePolicy err, map CloseRequest (closeRequestBody request)));
          policy = \<lparr>ep_operation = '''', ep_timeout = 0, ep_attempt_timeout = 0, ep_retry = zero_retry,
            ep_source = RetryPolicySourceNone, ep_safety = eo_retry_safety options,
            ep_classifier = classifier, ep_attributes = []\<rparr>
      in case c of
           None \<Rightarrow> (case resolveOperationName (eo_operation options) of
               Inl _ \<Rightarrow> refuse (errors_new ''clientkit: HTTP operation name is invalid'')
             | Inr name \<Rightarrow> do_request go env None request (policy\<lparr>ep_operation := name\<rparr>))
         | Some cl \<Rightarrow>
             (case resolveExecutionTimeouts (hc_timeout cl) (hc_attempt_timeout cl) (eo_timeouts options) of
                Inl _ \<Rightarrow> refuse (errors_new ''clientkit: operation timeout is invalid'')
              | Inr timeouts \<Rightarrow>
                  (case resolveExecutionRetry (hc_retry cl) (eo_retry options) of
                     Inl _ \<Rightarrow> refuse (errors_new ''clientkit: operation retry policy is invalid'')
                   | Inr retry \<Rightarrow>
                       (case resolveOperationName (eo_operation options) of
                          Inl _ \<Rightarrow> refuse (errors_new ''clientkit: HTTP operation name is invalid'')
                        | Inr name \<Rightarrow> do_request go env c request
                            (policy\<lparr>ep_operation := name, ep_timeout := etp_timeout timeouts,
                              ep_attempt_timeout := etp_attempt_timeout timeouts,
                              ep_retry := erp_config retry, ep_source := erp_source retry\<rparr>)))))"

definition Execute :: "go_code \<Rightarrow> do_env \<Rightarrow> HttpClient option \<Rightarrow> Request option \<Rightarrow> Result \<times> http_effect list" where
  "Execute go env c request = ExecuteWithOptions go env c request zero_options"

definition Do ::
  "go_code \<Rightarrow> do_env \<Rightarrow> HttpClient option \<Rightarrow> Request option \<Rightarrow> (Response option \<times> goerr option) \<times> http_effect list" where
  "Do go env c request = (let (result, effects) = Execute go env c request
     in ((r_response result, r_err result), effects))"

end
