(* ===== verification/Http_Loop.thy ===== *)
theory Http_Loop
  imports Http_Do
begin

text \<open>
  What every execution of the HTTP client satisfies. The loop is first brought into the form of a run:
  some number of attempts that were repeated, then one iteration that ends the operation. The
  properties of attempts, effects, ownership and delays are read off the run.
\<close>

section \<open>The run of an execution\<close>

definition env_of :: "operation \<Rightarrow> int \<Rightarrow> attempt_env" where
  "env_of op n = de_attempt (op_env op) n"

definition view_of :: "operation \<Rightarrow> int \<Rightarrow> attempt_view" where
  "view_of op n = view_attempt (ep_classifier (op_policy op)) (env_of op n)"

definition record_of :: "operation \<Rightarrow> int \<Rightarrow> Attempt" where
  "record_of op n = attempt_record n (env_of op n) (view_of op n)"

definition prepared :: "operation \<Rightarrow> int \<Rightarrow> (goerr, Request) result" where
  "prepared op n = fst (requestForAttempt (at_prep (env_of op n)) (Some (op_request op)) True n)"

text \<open>The attempt is sent; and it is sent and repeated.\<close>

definition sends :: "operation \<Rightarrow> int \<Rightarrow> bool" where
  "sends op n \<longleftrightarrow> at_total (env_of op n) = None \<and> (\<exists>rq. prepared op n = Inr rq)"

definition decides_retry :: "operation \<Rightarrow> int \<Rightarrow> bool" where
  "decides_retry op n \<longleftrightarrow> retry_decision op n (env_of op n) (view_of op n)"

definition delay_of :: "operation \<Rightarrow> int \<Rightarrow> duration" where
  "delay_of op n = fst (choose_delay op n (env_of op n) (view_of op n))"

definition continues :: "operation \<Rightarrow> int \<Rightarrow> bool" where
  "continues op n \<longleftrightarrow> sends op n \<and> decides_retry op n \<and>
     waitForRetryDelay (at_wait_poll (env_of op n)) (at_wait_race (env_of op n)) (delay_of op n) = None"

definition with_header :: "Request \<Rightarrow> Request" where
  "with_header rq = rq\<lparr>rq_header := Some (case rq_header rq of None \<Rightarrow> [] | Some h \<Rightarrow> h)\<rparr>"

definition opened :: "operation \<Rightarrow> int \<Rightarrow> http_effect list" where
  "opened op n = (if ep_attempt_timeout (op_policy op) > 0
     then [AttemptTimeout n (ep_attempt_timeout (op_policy op))] else [])"

text \<open>The effects of sending attempt \<open>n\<close>, and of repeating it.\<close>

definition sent_effects :: "operation \<Rightarrow> int \<Rightarrow> Request \<Rightarrow> http_effect list" where
  "sent_effects op n rq = opened op n @ [Send n (with_header rq)] @
     map (CloseReceived n) (av_closed (view_of op n)) @
     [Attempted (attempt_event op n (env_of op n) (rq_method rq) (view_of op n))]"

definition retry_effects :: "operation \<Rightarrow> int \<Rightarrow> Request \<Rightarrow> http_effect list" where
  "retry_effects op n rq =
     [DrainClose n (av_response (view_of op n)), CancelAttempt n,
      Retrying (retry_event op n (env_of op n) (rq_method rq) (view_of op n)), Waited (delay_of op n)]"

definition final_effects :: "operation \<Rightarrow> int \<Rightarrow> http_effect list" where
  "final_effects op n =
     (if lifecycle_attached (view_of op n)
      then (case av_response (view_of op n) of None \<Rightarrow> [] | Some r \<Rightarrow> [AttachLifecycle n r])
      else [CancelAttempt n])"

lemmas run_defs = env_of_def view_of_def record_of_def prepared_def sends_def decides_retry_def
  delay_of_def continues_def with_header_def opened_def sent_effects_def retry_effects_def final_effects_def

lemma prepared_closed: "requestForAttempt pe (Some rq) True n = (Inr rq', shut) \<Longrightarrow> shut = []"
  by (drule requestForAttempt_ok) simp

lemma rq_method_with_header [simp]: "rq_method (with_header rq) = rq_method rq"
  by (simp add: with_header_def)

text \<open>The four ways an iteration ends.\<close>

lemma step_cases:
  obtains (total) e where "at_total (env_of op n) = Some e"
      "attempt_step op n as = Done (stopped_result op (at_finish (env_of op n)) as (err_of_ctx e)
         (classifyFailure failureStageTransport None (Some (err_of_ctx e)))) [] False"
  | (unprepared) e shut where "at_total (env_of op n) = None" "prepared op n = Inl e"
      "requestForAttempt (at_prep (env_of op n)) (Some (op_request op)) True n = (Inl e, shut)"
      "attempt_step op n as = Done (stopped_result op (at_finish (env_of op n)) as e
         (classifyRequestPreparationFailure (Some e)))
         (opened op n @ map CloseRequest shut @ [CancelAttempt n]) False"
  | (final) rq where "at_total (env_of op n) = None" "prepared op n = Inr rq" "\<not> decides_retry op n"
      "attempt_step op n as = Done (final_result op (at_finish (env_of op n)) (as @ [record_of op n]) (view_of op n))
         (sent_effects op n rq @ final_effects op n) (lifecycle_attached (view_of op n))"
  | (interrupted) rq e where "at_total (env_of op n) = None" "prepared op n = Inr rq" "decides_retry op n"
      "waitForRetryDelay (at_wait_poll (env_of op n)) (at_wait_race (env_of op n)) (delay_of op n) = Some e"
      "attempt_step op n as = Done (stopped_result op (at_finish (env_of op n)) (as @ [record_of op n]) (err_of_ctx e)
         (classifyFailure failureStageTransport None (Some (err_of_ctx e))))
         (sent_effects op n rq @ retry_effects op n rq) False"
  | (again) rq where "continues op n" "prepared op n = Inr rq" "decides_retry op n"
      "attempt_step op n as = Again (as @ [record_of op n]) (sent_effects op n rq @ retry_effects op n rq)"
proof (cases "at_total (env_of op n)")
  case (Some e)
  then show ?thesis by (intro total) (simp_all add: attempt_step_def env_of_def)
next
  case None
  note tot = this
  obtain res shut where p: "requestForAttempt (at_prep (env_of op n)) (Some (op_request op)) True n = (res, shut)"
    by fastforce
  show ?thesis
  proof (cases res)
    case (Inl e)
    with tot p show ?thesis
      by (intro unprepared [of e shut]) (simp_all add: attempt_step_def run_defs)
  next
    case (Inr rq)
    with p have shut: "shut = []" by (auto dest: prepared_closed)
    have pr: "prepared op n = Inr rq" using p Inr by (simp add: prepared_def)
    have step: "attempt_step op n as = after_attempt op n as (opened op n) (with_header rq)"
      using tot p Inr shut by (simp add: attempt_step_def env_of_def opened_def with_header_def)
    show ?thesis
    proof (cases "decides_retry op n")
      case False
      with tot pr step show ?thesis
        by (intro final [of rq]) (simp_all add: after_attempt_def Let_def run_defs)
    next
      case True
      show ?thesis
      proof (cases "waitForRetryDelay (at_wait_poll (env_of op n)) (at_wait_race (env_of op n)) (delay_of op n)")
        case None
        with True tot pr step show ?thesis
          by (intro again [of rq]) (simp_all add: after_attempt_def Let_def run_defs)
      next
        case (Some e)
        with True tot pr step show ?thesis
          by (intro interrupted [of rq e]) (simp_all add: after_attempt_def Let_def run_defs)
      qed
    qed
  qed
qed

definition request_at :: "operation \<Rightarrow> int \<Rightarrow> Request" where
  "request_at op n = (case prepared op n of Inl _ \<Rightarrow> op_request op | Inr rq \<Rightarrow> rq)"

definition again_effects :: "operation \<Rightarrow> int \<Rightarrow> http_effect list" where
  "again_effects op n = sent_effects op n (request_at op n) @ retry_effects op n (request_at op n)"

lemma step_continues:
  assumes "continues op n"
  shows "attempt_step op n as = Again (as @ [record_of op n]) (again_effects op n)"
  using assms
  by (cases rule: step_cases [of op n as])
     (auto simp: continues_def sends_def again_effects_def request_at_def)

lemma step_ends:
  assumes "\<not> continues op n"
  shows "\<exists>r fx att. attempt_step op n as = Done r fx att"
  using assms by (cases rule: step_cases [of op n as]) auto

definition records :: "operation \<Rightarrow> nat \<Rightarrow> Attempt list" where
  "records op m = map (\<lambda>i. record_of op (int i + 1)) [0..<m]"

definition repeated :: "operation \<Rightarrow> nat \<Rightarrow> http_effect list" where
  "repeated op m = concat (map (\<lambda>i. again_effects op (int i + 1)) [0..<m])"

lemma records_Suc: "records op (Suc m) = records op m @ [record_of op (int m + 1)]"
  by (simp add: records_def)

lemma repeated_Suc: "repeated op (Suc m) = repeated op m @ again_effects op (int m + 1)"
  by (simp add: repeated_def)

text \<open>A run: \<open>m\<close> attempts were repeated and iteration \<open>m + 1\<close> ended the operation.\<close>

definition run :: "operation \<Rightarrow> nat \<Rightarrow> Result \<Rightarrow> http_effect list \<Rightarrow> bool \<Rightarrow> bool" where
  "run op m r fx att \<longleftrightarrow>
     int m < max_attempts op \<and> (\<forall>i < m. continues op (int i + 1)) \<and>
     attempt_step op (int m + 1) (records op m) = Done r fx att"

lemma loop_run:
  assumes "attempt_loop op k (int j + 1) (records op j) = (r, fx, att)"
    and "int j + int k = max_attempts op" "0 < k" "\<forall>i < j. continues op (int i + 1)"
  shows "\<exists>m fxd. run op m r fxd att \<and> repeated op j @ fx = repeated op m @ fxd"
  using assms
proof (induction k arbitrary: j fx)
  case (Suc k)
  show ?case
  proof (cases "continues op (int j + 1)")
    case False
    then obtain r' fx' att' where d: "attempt_step op (int j + 1) (records op j) = Done r' fx' att'"
      using step_ends by blast
    with Suc.prems(1) have "r' = r" "fx' = fx" "att' = att" by simp_all
    with d Suc.prems show ?thesis by (intro exI [of _ j] exI [of _ fx]) (auto simp: run_def)
  next
    case True
    have step: "attempt_step op (int j + 1) (records op j) =
        Again (records op (Suc j)) (again_effects op (int j + 1))"
      using step_continues [OF True] by (simp add: records_Suc)
    have "int j + 1 < max_attempts op"
      using True by (auto simp: continues_def decides_retry_def retry_decision_def)
    with Suc.prems(2) have k: "0 < k" by linarith
    from Suc.prems(1) step obtain fx' where l: "attempt_loop op k (int (Suc j) + 1) (records op (Suc j)) = (r, fx', att)"
      and fx: "fx = again_effects op (int j + 1) @ fx'"
      by (auto simp: Let_def add.commute add.left_commute split: prod.splits)
    have "\<exists>m fxd. run op m r fxd att \<and> repeated op (Suc j) @ fx' = repeated op m @ fxd"
      using Suc.prems True k by (intro Suc.IH [OF l]) (auto simp: less_Suc_eq)
    with fx show ?thesis by (simp add: repeated_Suc)
  qed
qed simp

text \<open>Every observed execution is a run between its start and its end.\<close>

definition sent_in :: "http_effect list \<Rightarrow> bool" where
  "sent_in fx \<longleftrightarrow> list_ex (\<lambda>e. case e of Send _ _ \<Rightarrow> True | _ \<Rightarrow> False) fx"

lemma max_attempts_pos: "1 \<le> max_attempts op"
  by (simp add: max_attempts_def)

lemma execution_run:
  assumes "observed_execution op = (r, fx)"
  obtains m fxd att where "run op m r fxd att"
    "fx = [StartedOperation (start_event op)] @
       (if ep_timeout (op_policy op) > 0 then [TotalTimeout (ep_timeout (op_policy op))] else []) @
       (repeated op m @ fxd) @ (if att then [] else [CancelTotal]) @ [EndedOperation (end_event op r)] @
       (if sent_in (repeated op m @ fxd) then [] else map CloseRequest (closeRequestBody (Some (op_request op))))"
proof -
  obtain r' fx' att where l: "attempt_loop op (nat (max_attempts op)) 1 [] = (r', fx', att)"
    by (cases "attempt_loop op (nat (max_attempts op)) 1 []") auto
  with assms have r: "r' = r" by (simp add: observed_execution_def Let_def)
  have "\<exists>m fxd. run op m r' fxd att \<and> repeated op 0 @ fx' = repeated op m @ fxd"
    using max_attempts_pos [of op]
    by (intro loop_run [where k = "nat (max_attempts op)"]) (simp_all add: l records_def)
  then obtain m fxd where "run op m r fxd att" "fx' = repeated op m @ fxd"
    using r by (auto simp: repeated_def)
  with assms l r show thesis by (intro that) (auto simp: observed_execution_def Let_def sent_in_def)
qed

section \<open>Attempts\<close>

lemma run_final:
  assumes "run op m r fx att"
  obtains (stopped) err fc where "r_attempts r = records op m" "r_response r = None" "r_err r = Some err"
      "r = stopped_result op (at_finish (env_of op (int m + 1))) (records op m) err fc"
      "fc \<noteq> FailureNone" "\<not> sent_in fx" "att = False" "\<not> sends op (int m + 1)"
  | (final) rq where "r = final_result op (at_finish (env_of op (int m + 1))) (records op (Suc m)) (view_of op (int m + 1))"
      "prepared op (int m + 1) = Inr rq" "sends op (int m + 1)" "\<not> decides_retry op (int m + 1)"
      "fx = sent_effects op (int m + 1) rq @ final_effects op (int m + 1)"
      "att = lifecycle_attached (view_of op (int m + 1))"
  | (interrupted) e rq where "r = stopped_result op (at_finish (env_of op (int m + 1))) (records op (Suc m)) (err_of_ctx e)
        (classifyFailure failureStageTransport None (Some (err_of_ctx e)))"
      "prepared op (int m + 1) = Inr rq" "sends op (int m + 1)" "decides_retry op (int m + 1)"
      "fx = sent_effects op (int m + 1) rq @ retry_effects op (int m + 1) rq" "att = False"
proof -
  let ?n = "int m + 1"
  have step: "attempt_step op ?n (records op m) = Done r fx att" using assms by (simp add: run_def)
  show thesis
  proof (cases rule: step_cases [of op ?n "records op m"])
    case (total e)
    with step show ?thesis
      by (intro stopped) (auto simp: stopped_result_def sent_in_def sends_def classifyFailure_err)
  next
    case (unprepared e shut)
    have "classifyRequestPreparationFailure (Some e) \<noteq> FailureNone"
      using classifyFailure_err [of "Some e" None]
      by (auto simp: classifyRequestPreparationFailure_def classifyFailure_def)
    moreover have "\<not> sent_in (opened op ?n @ map CloseRequest shut @ [CancelAttempt ?n])"
      by (auto simp: sent_in_def opened_def list_ex_iff)
    ultimately show ?thesis using step unprepared
      by (intro stopped) (auto simp: stopped_result_def sends_def)
  next
    case (final rq)
    with step show ?thesis by (intro that(2) [of rq]) (auto simp: sends_def records_Suc)
  next
    case (interrupted rq e)
    with step show ?thesis by (intro that(3) [of e rq]) (auto simp: sends_def records_Suc)
  next
    case (again rq)
    with step show ?thesis by simp
  qed
qed

lemma length_records [simp]: "length (records op m) = m"
  by (simp add: records_def)

lemma nth_records: "i < m \<Longrightarrow> records op m ! i = record_of op (int i + 1)"
  by (simp add: records_def)

lemma run_attempts:
  assumes "run op m r fx att"
  shows "r_attempts r = records op m \<and> \<not> sends op (int m + 1) \<or>
         r_attempts r = records op (Suc m) \<and> sends op (int m + 1)"
  using assms by (cases rule: run_final) (auto simp: final_result_def stopped_result_def)

lemma run_attempt_count: "run op m r fx att \<Longrightarrow> int (length (r_attempts r)) \<le> max_attempts op"
  using run_attempts [of op m r fx att] by (auto simp: run_def)

lemma run_attempt_numbers:
  assumes "run op m r fx att"
  shows "map a_number (r_attempts r) = map (\<lambda>i. int i + 1) [0..<length (r_attempts r)]"
  using run_attempts [OF assms] by (auto simp: records_def record_of_def attempt_record_def)

text \<open>An attempt that is not the last was judged worth repeating under all three gates.\<close>

lemma run_repeated:
  assumes "run op m r fx att" "Suc i < length (r_attempts r)"
  shows "continues op (int i + 1)" and "r_attempts r ! i = record_of op (int i + 1)"
  using assms run_attempts [OF assms(1)] by (auto simp: run_def nth_records)

lemma continues_gates:
  assumes "continues op n"
  shows "authorization_allows (op_authorization op)" "requestBodyIsReplayable (Some (op_request op))"
    and "n < max_attempts op" "at_total_retry (env_of op n) = None"
    and "shouldRetry (ep_retry (op_policy op)) (op_method op) (a_outcome (record_of op n))
           (a_failure (record_of op n)) (a_status (record_of op n)) (a_err (record_of op n))"
    and "a_failure (record_of op n) \<noteq> FailurePolicy" "a_outcome (record_of op n) \<noteq> OutcomeSuccess"
  using assms
  by (auto simp: continues_def decides_retry_def retry_decision_def record_of_def attempt_record_def view_of_def env_of_def)

lemma run_single:
  assumes "run op m r fx att" "\<not> authorization_allows (op_authorization op) \<or> max_attempts op = 1 \<or>
     \<not> requestBodyIsReplayable (Some (op_request op)) \<or>
     op_method op \<notin> set (slice_items (rc_methods (ep_retry (op_policy op))))"
  shows "m = 0" and "length (r_attempts r) \<le> 1"
proof -
  show m: "m = 0"
  proof (rule ccontr)
    assume "m \<noteq> 0"
    with assms(1) have "continues op (int 0 + 1)" unfolding run_def by blast
    from continues_gates [OF this] assms(2) show False
      using shouldRetry_method by fastforce
  qed
  with run_attempts [OF assms(1)] show "length (r_attempts r) \<le> 1" by auto
qed

section \<open>Outcomes\<close>

lemma view_consistent:
  fixes v cl env defines "v \<equiv> view_attempt cl env"
  shows "av_outcome v = OutcomeSuccess \<longleftrightarrow> av_failure v = FailureNone"
    and "av_err v = None \<Longrightarrow> \<exists>x. av_response v = Some x \<and> at_response env = Some x"
    and "av_outcome v = OutcomeSuccess \<Longrightarrow> av_err v = None \<and>
           safe_classify (at_classify env) cl (av_response v) = responseClassifiedAccepted"
    and "av_response v \<noteq> None \<Longrightarrow> av_err v \<noteq> None \<Longrightarrow> av_outcome v = OutcomeExecutionError \<and> av_failure v = FailurePolicy"
    and "av_outcome v = OutcomeResponseRejected \<Longrightarrow> av_err v = None \<and> av_failure v = FailureRemoteResponse"
proof -
  have e: "classifyOutcome x (Some y) \<noteq> OutcomeSuccess \<and> classifyOutcome x (Some y) \<noteq> OutcomeResponseRejected \<and>
      classifyFailure failureStageTransport x (Some y) \<noteq> FailureNone" for x y
    using classifyOutcome_err [of "Some y" x] classifyFailure_err [of "Some y" x] by auto
  have c: "fst (classified k) = OutcomeSuccess \<longleftrightarrow> k = responseClassifiedAccepted"
    "snd (classified k) = FailureNone \<longleftrightarrow> k = responseClassifiedAccepted"
    "fst (classified k) = OutcomeResponseRejected \<Longrightarrow> snd (classified k) = FailureRemoteResponse" for k
    by (cases k; simp add: classified_def)+
  have none: "x = None \<and> y = None \<Longrightarrow> (if x = None \<and> y = None then Some errHTTPTransportNoResponse else y) \<noteq> None"
    for x :: "Response option" and y by simp
  have red: "classifyOutcome (Some x) (Some y) = OutcomeExecutionError"
    "classifyFailure failureStageTransport (Some x) (Some y) = FailurePolicy" for x y
    by (simp_all add: classifyOutcome_def classifyFailure_def isRedirectPolicyFailure_def)
  show "av_outcome v = OutcomeSuccess \<longleftrightarrow> av_failure v = FailureNone"
    unfolding v_def view_attempt_def Let_def
    by (cases "at_ctx env"; cases "at_response env"; cases "at_err env"; cases "at_ctx_classified env")
       (simp_all add: e c)
  show "av_err v = None \<Longrightarrow> \<exists>x. av_response v = Some x \<and> at_response env = Some x"
    unfolding v_def view_attempt_def Let_def
    by (cases "at_ctx env"; cases "at_response env"; cases "at_err env"; cases "at_ctx_classified env")
       simp_all
  show "av_outcome v = OutcomeSuccess \<Longrightarrow> av_err v = None \<and>
      safe_classify (at_classify env) cl (av_response v) = responseClassifiedAccepted"
    unfolding v_def view_attempt_def Let_def
    by (cases "at_ctx env"; cases "at_response env"; cases "at_err env"; cases "at_ctx_classified env")
       (simp_all add: e c)
  show "av_response v \<noteq> None \<Longrightarrow> av_err v \<noteq> None \<Longrightarrow> av_outcome v = OutcomeExecutionError \<and> av_failure v = FailurePolicy"
    unfolding v_def view_attempt_def Let_def
    by (cases "at_ctx env"; cases "at_response env"; cases "at_err env"; cases "at_ctx_classified env")
       (simp_all add: red)
  show "av_outcome v = OutcomeResponseRejected \<Longrightarrow> av_err v = None \<and> av_failure v = FailureRemoteResponse"
    unfolding v_def view_attempt_def Let_def
    by (cases "at_ctx env"; cases "at_response env"; cases "at_err env"; cases "at_ctx_classified env")
       (simp_all add: e c)
qed

text \<open>A done context always wins over what the transport returned.\<close>

lemma view_context_done:
  "at_ctx env = Some e \<Longrightarrow> av_err (view_attempt cl env) = Some (err_of_ctx e) \<and> av_response (view_attempt cl env) = None"
  by (simp add: view_attempt_def Let_def)

text \<open>A response that was received is in the view or has been closed.\<close>

lemma view_owns_response:
  "at_response env = Some x \<Longrightarrow> rs_body x \<noteq> NilBody \<Longrightarrow>
   av_response (view_attempt cl env) = Some x \<or> x \<in> set (av_closed (view_attempt cl env))"
  unfolding view_attempt_def Let_def
  by (cases "at_ctx env"; cases "at_err env"; cases "at_ctx_classified env")
     (simp_all add: closed_response_def)

text \<open>What is closed is not returned.\<close>

lemma view_closed_not_returned: "av_closed (view_attempt cl env) \<noteq> [] \<Longrightarrow> av_response (view_attempt cl env) = None"
  unfolding view_attempt_def Let_def
  by (cases "at_ctx env"; cases "at_response env"; cases "at_err env"; cases "at_ctx_classified env")
     simp_all

lemma run_outcome:
  assumes "run op m r fx att"
  shows "r_outcome r = OutcomeSuccess \<longleftrightarrow> r_failure r = FailureNone"
    and "r_err r = None \<Longrightarrow> \<exists>x. r_response r = Some x"
    and "r_outcome r = OutcomeSuccess \<Longrightarrow> r_err r = None \<and>
       safe_classify (at_classify (env_of op (int m + 1))) (ep_classifier (op_policy op)) (r_response r) =
         responseClassifiedAccepted"
    and "r_response r \<noteq> None \<Longrightarrow> r_err r \<noteq> None \<Longrightarrow> r_outcome r = OutcomeExecutionError \<and> r_failure r = FailurePolicy"
proof -
  have e: "classifyOutcome None (Some y) \<noteq> OutcomeSuccess" for y
    using classifyOutcome_err [of "Some y" None] by auto
  have k: "classifyFailure failureStageTransport None (Some y) \<noteq> FailureNone" for y
    using classifyFailure_err [of "Some y" None] by auto
  note v = view_consistent [of "ep_classifier (op_policy op)" "env_of op (int m + 1)", folded view_of_def]
  show "r_outcome r = OutcomeSuccess \<longleftrightarrow> r_failure r = FailureNone"
    using assms by (cases rule: run_final) (auto simp: stopped_result_def final_result_def e k v)
  show "r_err r = None \<Longrightarrow> \<exists>x. r_response r = Some x"
    using assms v(2) by (cases rule: run_final) (auto simp: stopped_result_def final_result_def)
  show "r_outcome r = OutcomeSuccess \<Longrightarrow> r_err r = None \<and>
      safe_classify (at_classify (env_of op (int m + 1))) (ep_classifier (op_policy op)) (r_response r) =
        responseClassifiedAccepted"
    using assms v(3) by (cases rule: run_final) (auto simp: stopped_result_def final_result_def e)
  show "r_response r \<noteq> None \<Longrightarrow> r_err r \<noteq> None \<Longrightarrow> r_outcome r = OutcomeExecutionError \<and> r_failure r = FailurePolicy"
    using assms v(4) by (cases rule: run_final) (auto simp: stopped_result_def final_result_def)
qed

end
