(* ===== verification/Http_Effects.thy ===== *)
theory Http_Effects
  imports Http_Loop
begin

text \<open>
  The effects of an execution: the order in which operations, attempts, retries and delays happen,
  who closes which body, how long the client waits, and what the public entry points make of it.
\<close>

section \<open>The protocol of effects\<close>

text \<open>An acceptor for the order of effects: the phase an operation is in after some of them.\<close>

datatype phase =
    Before | Ready int | Sent int | Judged int | Drained int | Pausing int duration | Ended

definition protocol_step :: "phase \<Rightarrow> http_effect \<Rightarrow> phase option" where
  "protocol_step p e = (case p of
     Before \<Rightarrow> (case e of StartedOperation _ \<Rightarrow> Some (Ready 1) | _ \<Rightarrow> None)
   | Ready n \<Rightarrow> (case e of
         TotalTimeout _ \<Rightarrow> if n = 1 then Some (Ready n) else None
       | AttemptTimeout k _ \<Rightarrow> if k = n then Some (Ready n) else None
       | CloseRequest _ \<Rightarrow> Some (Ready n)
       | CancelAttempt k \<Rightarrow> if k = n then Some (Ready n) else None
       | Send k _ \<Rightarrow> if k = n then Some (Sent n) else None
       | CancelTotal \<Rightarrow> Some (Ready n)
       | EndedOperation _ \<Rightarrow> Some Ended
       | _ \<Rightarrow> None)
   | Sent n \<Rightarrow> (case e of
         CloseReceived k _ \<Rightarrow> if k = n then Some (Sent n) else None
       | Attempted ev \<Rightarrow> if ae_number ev = n then Some (Judged n) else None
       | _ \<Rightarrow> None)
   | Judged n \<Rightarrow> (case e of
         DrainClose k _ \<Rightarrow> if k = n then Some (Drained n) else None
       | AttachLifecycle k _ \<Rightarrow> if k = n then Some (Judged n) else None
       | CancelAttempt k \<Rightarrow> if k = n then Some (Judged n) else None
       | CancelTotal \<Rightarrow> Some (Judged n)
       | EndedOperation _ \<Rightarrow> Some Ended
       | _ \<Rightarrow> None)
   | Drained n \<Rightarrow> (case e of
         CancelAttempt k \<Rightarrow> if k = n then Some (Drained n) else None
       | Retrying ev \<Rightarrow> if re_after_attempt ev = n then Some (Pausing n (re_delay ev)) else None
       | _ \<Rightarrow> None)
   | Pausing n d \<Rightarrow> (case e of Waited d' \<Rightarrow> if d' = d then Some (Ready (n + 1)) else None | _ \<Rightarrow> None)
   | Ended \<Rightarrow> (case e of CloseRequest _ \<Rightarrow> Some Ended | _ \<Rightarrow> None))"

fun protocol :: "phase \<Rightarrow> http_effect list \<Rightarrow> phase option" where
  "protocol p [] = Some p"
| "protocol p (e # es) = (case protocol_step p e of None \<Rightarrow> None | Some p' \<Rightarrow> protocol p' es)"

lemma protocol_step_simps [simp]:
  "protocol_step Before (StartedOperation e) = Some (Ready 1)"
  "protocol_step (Ready n) (TotalTimeout d) = (if n = 1 then Some (Ready n) else None)"
  "protocol_step (Ready n) (AttemptTimeout k d) = (if k = n then Some (Ready n) else None)"
  "protocol_step (Ready n) (CloseRequest b) = Some (Ready n)"
  "protocol_step (Ready n) (CancelAttempt k) = (if k = n then Some (Ready n) else None)"
  "protocol_step (Ready n) (Send k rq) = (if k = n then Some (Sent n) else None)"
  "protocol_step (Ready n) CancelTotal = Some (Ready n)"
  "protocol_step (Ready n) (EndedOperation f) = Some Ended"
  "protocol_step (Sent n) (CloseReceived k x) = (if k = n then Some (Sent n) else None)"
  "protocol_step (Sent n) (Attempted g) = (if ae_number g = n then Some (Judged n) else None)"
  "protocol_step (Judged n) (DrainClose k y) = (if k = n then Some (Drained n) else None)"
  "protocol_step (Judged n) (AttachLifecycle k x) = (if k = n then Some (Judged n) else None)"
  "protocol_step (Judged n) (CancelAttempt k) = (if k = n then Some (Judged n) else None)"
  "protocol_step (Judged n) CancelTotal = Some (Judged n)"
  "protocol_step (Judged n) (EndedOperation f) = Some Ended"
  "protocol_step (Drained n) (CancelAttempt k) = (if k = n then Some (Drained n) else None)"
  "protocol_step (Drained n) (Retrying h) =
     (if re_after_attempt h = n then Some (Pausing n (re_delay h)) else None)"
  "protocol_step (Pausing n d) (Waited d') = (if d' = d then Some (Ready (n + 1)) else None)"
  "protocol_step Ended (CloseRequest b) = Some Ended"
  by (simp_all add: protocol_step_def)

lemma protocol_append:
  "protocol p xs = Some q \<Longrightarrow> protocol p (xs @ ys) = protocol q ys"
  by (induction xs arbitrary: p) (auto split: option.splits)

lemma protocol_opened: "protocol (Ready n) (opened op n) = Some (Ready n)"
  by (simp add: opened_def)

lemma protocol_received: "protocol (Sent n) (map (CloseReceived n) xs) = Some (Sent n)"
  by (induction xs) auto

lemma protocol_close_request:
  "protocol (Ready n) (map CloseRequest bs) = Some (Ready n)"
  "protocol Ended (map CloseRequest bs) = Some Ended"
  by (induction bs) auto

lemma event_fields [simp]:
  "ae_number (attempt_event op n env method v) = n"
  "re_after_attempt (retry_event op n env method v) = n"
  "re_delay (retry_event op n env method v) = fst (choose_delay op n env v)"
  unfolding attempt_event_def retry_event_def Let_def case_prod_unfold by simp_all

lemma protocol_sent: "protocol (Ready n) (sent_effects op n rq) = Some (Judged n)"
  unfolding sent_effects_def
  by (simp add: protocol_append [OF protocol_opened] protocol_append [OF protocol_received])

lemma protocol_retry: "protocol (Judged n) (retry_effects op n rq) = Some (Ready (n + 1))"
  by (simp add: retry_effects_def delay_of_def)

lemma protocol_final: "protocol (Judged n) (final_effects op n) = Some (Judged n)"
  by (auto simp: final_effects_def split: option.split)

lemma protocol_repeated: "protocol (Ready 1) (repeated op m) = Some (Ready (int m + 1))"
proof (induction m)
  case 0
  then show ?case by (simp add: repeated_def)
next
  case (Suc m)
  then show ?case
    by (simp add: repeated_Suc protocol_append [OF Suc] again_effects_def protocol_append [OF protocol_sent]
        protocol_retry add.commute)
qed

lemma run_protocol:
  assumes "run op m r fx att"
  shows "\<exists>n. protocol (Ready (int m + 1)) fx = Some (Ready n) \<or> protocol (Ready (int m + 1)) fx = Some (Judged n)"
proof -
  let ?n = "int m + 1"
  have step: "attempt_step op ?n (records op m) = Done r fx att" using assms by (simp add: run_def)
  show ?thesis
    using step
    by (cases rule: step_cases [of op ?n "records op m"])
       (auto simp: protocol_append [OF protocol_opened] protocol_append [OF protocol_close_request(1)]
         protocol_append [OF protocol_sent] protocol_final protocol_retry)
qed

lemma execution_protocol:
  assumes "observed_execution op = (r, fx)"
  shows "protocol Before fx = Some Ended"
  using assms
proof (cases rule: execution_run)
  case (1 m fxd att)
  let ?tail = "(if att then [] else [CancelTotal]) @ [EndedOperation (end_event op r)] @
     (if sent_in (repeated op m @ fxd) then [] else map CloseRequest (closeRequestBody (Some (op_request op))))"
  obtain n where n: "protocol (Ready (int m + 1)) fxd = Some (Ready n) \<or>
      protocol (Ready (int m + 1)) fxd = Some (Judged n)"
    using run_protocol [OF 1(1)] by blast
  have close: "protocol Ended (if b then [] else map CloseRequest bs) = Some Ended" for b bs
    by (simp add: protocol_close_request)
  have "protocol p ?tail = Some Ended" if "p = Ready n \<or> p = Judged n" for p
    using that protocol_close_request(2) by (auto simp: close)
  moreover have "\<exists>p. protocol (Ready 1) (repeated op m @ fxd) = Some p \<and> (p = Ready n \<or> p = Judged n)"
    using n by (auto simp: protocol_append [OF protocol_repeated])
  ultimately have "protocol (Ready 1) ((repeated op m @ fxd) @ ?tail) = Some Ended"
    using protocol_append by metis
  moreover have "protocol (Ready 1) (if b then [TotalTimeout d] else []) = Some (Ready 1)" for b d by simp
  ultimately show ?thesis unfolding 1(2) using protocol_append by (metis append_Cons append_Nil append_assoc
      option.simps(5) protocol.simps(2) protocol_step_simps(1))
qed

section \<open>Sends and attempts\<close>

definition sends_of :: "http_effect list \<Rightarrow> int list" where
  "sends_of fx = concat (map (\<lambda>e. case e of Send n _ \<Rightarrow> [n] | _ \<Rightarrow> []) fx)"

lemma sends_of_simps [simp]:
  "sends_of [] = []"
  "sends_of (xs @ ys) = sends_of xs @ sends_of ys"
  "sends_of (Send n rq # xs) = n # sends_of xs"
  "sends_of (map (CloseReceived n) zs) = []"
  "sends_of (map CloseRequest bs) = []"
  by (simp_all add: sends_of_def)

lemma sends_of_skip:
  "sends_of (opened op n) = []" "sends_of (final_effects op n) = []" "sends_of (retry_effects op n rq) = []"
  by (auto simp: sends_of_def opened_def final_effects_def retry_effects_def split: option.split)

lemma sends_of_sent: "sends_of (sent_effects op n rq) = [n]"
  unfolding sent_effects_def by (simp add: sends_of_skip) (simp add: sends_of_def)

lemma sends_of_repeated: "sends_of (repeated op m) = map (\<lambda>i. int i + 1) [0..<m]"
proof (induction m)
  case 0
  then show ?case by (simp add: repeated_def)
next
  case (Suc m)
  then show ?case by (simp add: repeated_Suc again_effects_def sends_of_sent sends_of_skip)
qed

lemma sent_in_sends: "sent_in fx \<longleftrightarrow> sends_of fx \<noteq> []"
  by (induction fx) (auto simp: sent_in_def sends_of_def split: http_effect.splits)

lemma run_sends:
  assumes "run op m r fx att"
  shows "sends_of (repeated op m @ fx) = map a_number (r_attempts r)"
  using assms
proof (cases rule: run_final)
  case (stopped err fc)
  then have "sends_of fx = []" using sent_in_sends by blast
  with stopped show ?thesis
    by (simp add: sends_of_repeated records_def record_of_def attempt_record_def comp_def)
next
  case (final rq)
  then show ?thesis
    by (simp add: sends_of_repeated sends_of_sent sends_of_skip records_def record_of_def attempt_record_def
        final_result_def comp_def)
next
  case (interrupted e rq)
  then show ?thesis
    by (simp add: sends_of_repeated sends_of_sent sends_of_skip records_def record_of_def attempt_record_def
        stopped_result_def comp_def)
qed

text \<open>One send per recorded attempt, in order.\<close>

lemma execution_sends:
  assumes "observed_execution op = (r, fx)"
  shows "sends_of fx = map a_number (r_attempts r)"
  using assms
proof (cases rule: execution_run)
  case (1 m fxd att)
  have skip: "sends_of [StartedOperation s] = []" "sends_of (if b then [] else [CancelTotal]) = []"
    "sends_of [EndedOperation e] = []" "sends_of (if b then [TotalTimeout d] else []) = []"
    "sends_of (if b then [] else map CloseRequest bs) = []" for s b e d bs
    by (simp_all add: sends_of_def)
  show ?thesis unfolding 1(2) sends_of_simps(2) [of _ "_ @ _"]
    using run_sends [OF 1(1)] by (simp only: sends_of_simps(2) skip append_Nil append_Nil2)
qed

text \<open>What is sent is the request that was prepared for the attempt, with a header map.\<close>

definition sends_prepared :: "operation \<Rightarrow> http_effect list \<Rightarrow> bool" where
  "sends_prepared op fx \<longleftrightarrow>
     (\<forall>n rq. Send n rq \<in> set fx \<longrightarrow> (\<exists>rq'. prepared op n = Inr rq' \<and> rq = with_header rq'))"

lemma sends_prepared_simps:
  "sends_prepared op (xs @ ys) \<longleftrightarrow> sends_prepared op xs \<and> sends_prepared op ys"
  "prepared op n = Inr rq \<Longrightarrow> sends_prepared op (sent_effects op n rq)"
  "sends_prepared op (retry_effects op n rq)" "sends_prepared op (final_effects op n)"
  by (auto simp: sends_prepared_def sent_effects_def opened_def retry_effects_def final_effects_def split: option.splits)

lemma repeated_prepared:
  "\<forall>i < m. continues op (int i + 1) \<Longrightarrow> sends_prepared op (repeated op m)"
proof (induction m)
  case (Suc m)
  then obtain rq where "prepared op (int m + 1) = Inr rq" by (auto simp: continues_def sends_def)
  with Suc show ?case
    by (simp add: repeated_Suc again_effects_def request_at_def sends_prepared_simps)
qed (simp add: repeated_def sends_prepared_def)

lemma run_prepared:
  assumes "run op m r fx att"
  shows "sends_prepared op (repeated op m @ fx)"
proof -
  have "sends_prepared op fx"
    using assms
  proof (cases rule: run_final)
    case (stopped err fc)
    then show ?thesis by (auto simp: sends_prepared_def sent_in_def list_ex_iff)
  qed (simp_all add: sends_prepared_simps)
  with assms repeated_prepared [of m op] show ?thesis by (simp add: run_def sends_prepared_simps)
qed

lemma prepared_request:
  assumes "prepared op n = Inr rq"
  shows "rq_url rq = rq_url (op_request op)" "rq_method rq = rq_method (op_request op)"
    and "validateRequestOrigin ext c (Some rq) = validateRequestOrigin ext c (Some (op_request op))"
proof -
  obtain shut where "requestForAttempt (at_prep (env_of op n)) (Some (op_request op)) True n = (Inr rq, shut)"
    using assms by (cases "requestForAttempt (at_prep (env_of op n)) (Some (op_request op)) True n") (simp add: prepared_def)
  from requestForAttempt_ok [OF this]
  show "rq_url rq = rq_url (op_request op)" "rq_method rq = rq_method (op_request op)"
    "validateRequestOrigin ext c (Some rq) = validateRequestOrigin ext c (Some (op_request op))"
    by auto
qed

lemma execution_requests:
  assumes "observed_execution op = (r, fx)" "Send n rq \<in> set fx"
  shows "rq_url rq = rq_url (op_request op)" "rq_method rq = rq_method (op_request op)"
    and "validateRequestOrigin ext c (Some rq) = validateRequestOrigin ext c (Some (op_request op))"
proof -
  have "\<exists>rq'. prepared op n = Inr rq' \<and> rq = with_header rq'"
    using assms(1)
  proof (cases rule: execution_run)
    case (1 m fxd att)
    have "Send n rq \<in> set (repeated op m @ fxd)" using assms(2) unfolding 1(2) by (auto split: if_splits)
    with run_prepared [OF 1(1)] show ?thesis unfolding sends_prepared_def by blast
  qed
  then obtain rq' where p: "prepared op n = Inr rq'" and rq: "rq = with_header rq'" by blast
  show "rq_url rq = rq_url (op_request op)" "rq_method rq = rq_method (op_request op)"
    "validateRequestOrigin ext c (Some rq) = validateRequestOrigin ext c (Some (op_request op))"
    using prepared_request [OF p] by (simp_all add: rq with_header_def)
qed

section \<open>Ownership of bodies\<close>

text \<open>
  The request body belongs to \<open>net/http\<close> once an attempt is sent; until then the client closes it, at
  the very end.
\<close>

lemma execution_request_body:
  assumes "observed_execution op = (r, fx)" "r_attempts r = []" "has_stream (rq_body (op_request op))"
  shows "last fx = CloseRequest (rq_body (op_request op))"
  using assms(1)
proof (cases rule: execution_run)
  case (1 m fxd att)
  have "\<not> sent_in (repeated op m @ fxd)"
    using run_sends [OF 1(1)] assms(2) by (simp add: sent_in_sends)
  moreover have "closeRequestBody (Some (op_request op)) = [rq_body (op_request op)]"
    using assms(3) by (auto simp: closeRequestBody_def has_stream_def split: body.splits)
  ultimately show ?thesis by (simp add: 1(2))
qed

text \<open>A response received by an attempt is closed, drained and closed, or handed to the caller.\<close>

lemma sent_effects_closes: "x \<in> set (av_closed (view_of op n)) \<Longrightarrow> CloseReceived n x \<in> set (sent_effects op n rq)"
  by (auto simp: sent_effects_def)

lemma repeated_member: "i < m \<Longrightarrow> e \<in> set (again_effects op (int i + 1)) \<Longrightarrow> e \<in> set (repeated op m)"
  by (auto simp: repeated_def)

lemma run_owns_responses:
  assumes "run op m r fx att" "i < length (r_attempts r)"
    and x: "at_response (env_of op (int i + 1)) = Some x" "rs_body x \<noteq> NilBody"
  shows "CloseReceived (int i + 1) x \<in> set (repeated op m @ fx) \<or>
     DrainClose (int i + 1) (Some x) \<in> set (repeated op m @ fx) \<or>
     (r_response r = Some x \<and> Suc i = length (r_attempts r))"
proof -
  let ?n = "int i + 1"
  have own: "av_response (view_of op ?n) = Some x \<or> x \<in> set (av_closed (view_of op ?n))"
    using view_owns_response [OF x] by (simp add: view_of_def)
  have again: "CloseReceived ?n x \<in> set fs \<or> DrainClose ?n (Some x) \<in> set fs"
    if "set (sent_effects op ?n rq @ retry_effects op ?n rq) \<subseteq> set fs" for fs rq
    using own that sent_effects_closes [of x op ?n rq] by (auto simp: retry_effects_def)
  show ?thesis
  proof (cases "i < m")
    case True
    then have "set (again_effects op ?n) \<subseteq> set (repeated op m @ fx)" by (auto intro: repeated_member)
    then show ?thesis unfolding again_effects_def using again by blast
  next
    case False
    with run_attempts [OF assms(1)] assms(2) have i: "i = m" "length (r_attempts r) = Suc m" by auto
    show ?thesis
      using assms(1)
    proof (cases rule: run_final)
      case (stopped err fc)
      with i show ?thesis by simp
    next
      case (final rq)
      then show ?thesis using own i sent_effects_closes [of x op ?n rq]
        by (auto simp: final_result_def)
    next
      case (interrupted e rq)
      then have "set (sent_effects op ?n rq @ retry_effects op ?n rq) \<subseteq> set (repeated op m @ fx)" using i by auto
      then show ?thesis using again by blast
    qed
  qed
qed

text \<open>The response handed to the caller is not closed, and its contexts live on exactly when it has a
  body.\<close>

lemma run_returned_open:
  assumes "run op m r fx att" "r_response r = Some x"
  shows "\<forall>y. CloseReceived (int m + 1) y \<notin> set fx" "\<forall>y. DrainClose (int m + 1) y \<notin> set fx"
    and "att \<longleftrightarrow> r_err r = None \<and> has_stream (rs_body x)"
proof -
  from assms obtain rq where r: "r_response r = av_response (view_of op (int m + 1))"
      "r_err r = av_err (view_of op (int m + 1))"
    and fx: "fx = sent_effects op (int m + 1) rq @ final_effects op (int m + 1)"
    and att: "att = lifecycle_attached (view_of op (int m + 1))"
    by (cases rule: run_final) (auto simp: stopped_result_def final_result_def)
  have "av_closed (view_of op (int m + 1)) = []"
    using view_closed_not_returned r assms(2) unfolding view_of_def by fastforce
  then show "\<forall>y. CloseReceived (int m + 1) y \<notin> set fx" "\<forall>y. DrainClose (int m + 1) y \<notin> set fx"
    by (auto simp: fx sent_effects_def final_effects_def opened_def split: option.splits)
  show "att \<longleftrightarrow> r_err r = None \<and> has_stream (rs_body x)"
    using r assms(2) by (auto simp: att lifecycle_attached_def has_stream_def split: body.splits option.splits)
qed

section \<open>Delays\<close>

lemma choose_delay_bounds:
  fixes n op cfg
  assumes "retry_ok (ep_retry (op_policy op))" "rc_max_backoff (ep_retry (op_policy op)) \<le> max_duration"
    and "rc_max_retry_after (ep_retry (op_policy op)) \<le> max_duration"
  defines "cfg \<equiv> ep_retry (op_policy op)" and "d \<equiv> delay_of op n"
    and "policyDelay \<equiv> retryDelay (go_pow (op_go op)) (at_draw (env_of op n)) cfg n"
  shows "0 \<le> d" "d \<le> max_duration" "policyDelay \<le> d"
    and "d \<le> max policyDelay (rc_max_retry_after cfg)"
    and "0 < rc_max_backoff cfg \<Longrightarrow> d \<le> max (rc_max_backoff cfg) (rc_max_retry_after cfg)"
    and "\<not> rc_respect_retry_after cfg \<Longrightarrow> d = policyDelay"
proof -
  have p: "0 \<le> policyDelay" "policyDelay \<le> max_duration" "0 < rc_max_backoff cfg \<Longrightarrow> policyDelay \<le> rc_max_backoff cfg"
    unfolding policyDelay_def cfg_def using retryDelay_bounds [OF assms(2)] by blast+
  have m: "0 \<le> rc_max_retry_after cfg" using assms(1) by (simp add: retry_ok_def cfg_def)
  have c: "d = policyDelay \<or> (policyDelay < d \<and> d \<le> rc_max_retry_after cfg \<and> rc_respect_retry_after cfg)"
    unfolding d_def delay_of_def choose_delay_def policyDelay_def cfg_def env_of_def
    by (auto simp: Let_def split: option.split)
  show "0 \<le> d" "policyDelay \<le> d" "d \<le> max policyDelay (rc_max_retry_after cfg)"
    "\<not> rc_respect_retry_after cfg \<Longrightarrow> d = policyDelay"
    using c p m by auto
  show "d \<le> max_duration" using c p assms(3) by (auto simp: cfg_def)
  show "0 < rc_max_backoff cfg \<Longrightarrow> d \<le> max (rc_max_backoff cfg) (rc_max_retry_after cfg)"
    using c p(3) by fastforce
qed

text \<open>Every wait of a run is a delay that was chosen after some attempt.\<close>

lemma waits_repeated: "Waited d \<in> set (repeated op m) \<Longrightarrow> \<exists>n. d = delay_of op n"
  by (auto simp: repeated_def again_effects_def sent_effects_def retry_effects_def opened_def)

lemma execution_waits:
  assumes "observed_execution op = (r, fx)" "Waited d \<in> set fx"
  shows "\<exists>n. d = delay_of op n"
  using assms(1)
proof (cases rule: execution_run)
  case (1 m fxd att)
  from assms(2) 1(2) have "Waited d \<in> set (repeated op m) \<or> Waited d \<in> set fxd"
    by (auto split: if_splits)
  then show ?thesis
  proof
    assume w: "Waited d \<in> set fxd"
    have step: "attempt_step op (int m + 1) (records op m) = Done r fxd att" using 1(1) by (simp add: run_def)
    show ?thesis
      using step w
      by (cases rule: step_cases [of op "int m + 1" "records op m"])
         (auto simp: opened_def sent_effects_def retry_effects_def final_effects_def split: option.splits if_splits)
  qed (rule waits_repeated)
qed

lemma execution_owns_responses:
  assumes "observed_execution op = (r, fx)" "i < length (r_attempts r)"
    and "at_response (de_attempt (op_env op) (int i + 1)) = Some x" "rs_body x \<noteq> NilBody"
  shows "CloseReceived (int i + 1) x \<in> set fx \<or> DrainClose (int i + 1) (Some x) \<in> set fx \<or>
     (r_response r = Some x \<and> Suc i = length (r_attempts r))"
  using assms(1)
proof (cases rule: execution_run)
  case (1 m fxd att)
  have "set (repeated op m @ fxd) \<subseteq> set fx" unfolding 1(2) by auto
  then show ?thesis
    using run_owns_responses [OF 1(1) assms(2)] assms(3,4) unfolding env_of_def by blast
qed

end
