(* ===== verification/Http_Api.thy ===== *)
theory Http_Api
  imports Http_Effects
begin

text \<open>
  The entry points of the HTTP client: how \<open>ExecuteWithOptions\<close> reduces to an observed execution or to
  a refusal without any transport call, and the health check of \<open>check.go\<close> built on it.
\<close>

section \<open>Refusal or execution\<close>

lemma do_request_cases:
  assumes "do_request go env c request policy = (r, fx)"
  obtains (refused) fc err where "r = failed_result fc err" "fx = map CloseRequest (closeRequestBody request)"
      "fc \<in> {FailureConfiguration, FailureRequest, FailurePolicy}"
  | (executed) op cl rq where "c = Some cl" "request = Some rq" "observed_execution op = (r, fx)"
      "validateRequestOrigin (go_ext go) (Some cl) (Some rq) = None" "op_request op = rq"
      "op_method op = normalizedHTTPMethod (rq_method rq)" "op_go op = go" "op_env op = env"
      "op_client_name op = http_name (Some cl)"
      "retryAuthorizationFor (op_method op) (ep_safety policy) = Inr (op_authorization op)"
      "op_policy op = policy\<lparr>ep_classifier := (if ep_classifier policy = None
         then normalizeResponseClassifier None else ep_classifier policy)\<rparr>"
proof -
  have cl: "(case c of None \<Rightarrow> None | Some c \<Rightarrow> if hc_http_client c = None \<or> hc_base_url c = None then None else Some c) = Some cl
      \<Longrightarrow> c = Some cl" for cl
    by (auto split: option.splits if_splits)
  consider (bad) "\<exists>fc err. r = failed_result fc err \<and> fx = map CloseRequest (closeRequestBody request) \<and>
        fc \<in> {FailureConfiguration, FailureRequest, FailurePolicy}"
    | (good) cl rq a where "c = Some cl" "request = Some rq"
        "validateRequestOrigin (go_ext go) (Some cl) (Some rq) = None"
        "retryAuthorizationFor (normalizedHTTPMethod (rq_method rq)) (ep_safety policy) = Inr a"
        "observed_execution
           \<lparr>op_go = go, op_client_name = http_name (Some cl), op_method = normalizedHTTPMethod (rq_method rq),
            op_authorization = a, op_policy = policy\<lparr>ep_classifier := (if ep_classifier policy = None
              then normalizeResponseClassifier None else ep_classifier policy)\<rparr>,
            op_request = rq, op_env = env\<rparr> = (r, fx)"
    using assms unfolding do_request_def Let_def
    by (auto simp: classifyFailure_def dest!: cl split: option.split_asm sum.split_asm if_split_asm)
  then show thesis
  proof cases
    case bad
    then show ?thesis by (auto intro: refused)
  next
    case good
    show ?thesis by (rule executed [OF good(1,2,5,3)]) (simp_all add: good(4))
  qed
qed

lemma refused_sends: "sends_of (map CloseRequest bs) = []"
  by simp

text \<open>What the public call fixes for an execution.\<close>

definition executes ::
  "HttpClient \<Rightarrow> Request \<Rightarrow> ExecuteOptions \<Rightarrow> operation \<Rightarrow> bool" where
  "executes c rq options op \<longleftrightarrow>
     op_request op = rq \<and> op_method op = normalizedHTTPMethod (rq_method rq) \<and>
     retryAuthorizationFor (op_method op) (eo_retry_safety options) = Inr (op_authorization op) \<and>
     (\<exists>t. resolveExecutionTimeouts (hc_timeout c) (hc_attempt_timeout c) (eo_timeouts options) = Inr t \<and>
          ep_timeout (op_policy op) = etp_timeout t \<and> ep_attempt_timeout (op_policy op) = etp_attempt_timeout t) \<and>
     (\<exists>p. resolveExecutionRetry (hc_retry c) (eo_retry options) = Inr p \<and>
          ep_retry (op_policy op) = erp_config p \<and> ep_source (op_policy op) = erp_source p) \<and>
     resolveOperationName (eo_operation options) = Inr (ep_operation (op_policy op)) \<and>
     ep_classifier (op_policy op) = (let k = execution_classifier (Some c) (eo_classifier options)
        in if k = None then normalizeResponseClassifier None else k) \<and>
     ep_attributes (op_policy op) = [] \<and> op_client_name op = http_name (Some c)"

lemma ExecuteWithOptions_cases:
  assumes "ExecuteWithOptions go env c request options = (r, fx)"
  obtains (refused) fc err where "r = failed_result fc err" "fx = map CloseRequest (closeRequestBody request)"
      "fc \<in> {FailureConfiguration, FailureRequest, FailurePolicy}"
  | (executed) op cl rq where "c = Some cl" "request = Some rq" "observed_execution op = (r, fx)"
      "executes cl rq options op" "validateRequestOrigin (go_ext go) (Some cl) (Some rq) = None"
      "op_go op = go" "op_env op = env"
proof (cases c)
  case None
  show ?thesis
  proof (cases "resolveOperationName (eo_operation options)")
    case (Inl e)
    with None assms show ?thesis
      by (intro refused [of FailurePolicy]) (auto simp: ExecuteWithOptions_def Let_def)
  next
    case (Inr name)
    with None assms obtain policy where "do_request go env None request policy = (r, fx)"
      by (auto simp: ExecuteWithOptions_def Let_def)
    then show ?thesis by (cases rule: do_request_cases) (auto intro: refused)
  qed
next
  case (Some cl)
  consider (bad) "\<exists>err. r = failed_result FailurePolicy err \<and> fx = map CloseRequest (closeRequestBody request)"
    | (good) t p name where
        "resolveExecutionTimeouts (hc_timeout cl) (hc_attempt_timeout cl) (eo_timeouts options) = Inr t"
        "resolveExecutionRetry (hc_retry cl) (eo_retry options) = Inr p"
        "resolveOperationName (eo_operation options) = Inr name"
        "do_request go env (Some cl) request
           \<lparr>ep_operation = name, ep_timeout = etp_timeout t, ep_attempt_timeout = etp_attempt_timeout t,
            ep_retry = erp_config p, ep_source = erp_source p, ep_safety = eo_retry_safety options,
            ep_classifier = execution_classifier (Some cl) (eo_classifier options), ep_attributes = []\<rparr> = (r, fx)"
    using assms Some by (auto simp: ExecuteWithOptions_def Let_def split: sum.splits)
  then show ?thesis
  proof cases
    case bad
    then show ?thesis by (auto intro: refused)
  next
    case good
    from good(4) show ?thesis
    proof (cases rule: do_request_cases)
      case (refused fc err)
      then show ?thesis by (rule that(1))
    next
      case (executed op cl' rq)
      with good(1-3) Some show ?thesis
        by (intro that(2) [of cl rq op]) (simp_all add: executes_def Let_def)
    qed
  qed
qed

lemma failed_result_fields [simp]:
  "r_attempts (failed_result fc err) = []" "r_outcome (failed_result fc err) = OutcomeExecutionError"
  "r_response (failed_result fc err) = None" "r_err (failed_result fc err) = Some err"
  "r_failure (failed_result fc err) = fc"
  by (simp_all add: failed_result_def)

section \<open>Consequences for callers\<close>

lemma execute_attempt_bound:
  assumes "ExecuteWithOptions go env (Some c) request options = (r, fx)" "http_inv c"
  shows "int (length (r_attempts r)) \<le>
     (case resolveExecutionRetry (hc_retry c) (eo_retry options) of Inl _ \<Rightarrow> 0 | Inr p \<Rightarrow> rc_max_attempts (erp_config p))"
  using assms(1)
proof (cases rule: ExecuteWithOptions_cases)
  case (refused fc err)
  have ok: "retry_ok (hc_retry c)" using assms(2) by (simp add: http_inv_def)
  have "0 \<le> (case resolveExecutionRetry (hc_retry c) (eo_retry options) of Inl _ \<Rightarrow> 0 | Inr p \<Rightarrow> rc_max_attempts (erp_config p))"
  proof (cases "resolveExecutionRetry (hc_retry c) (eo_retry options)")
    case (Inr p)
    from resolveExecutionRetry_valid [OF ok Inr] have "1 \<le> rc_max_attempts (erp_config p)"
      by (simp add: retry_ok_def)
    with Inr show ?thesis by simp
  qed simp
  with refused show ?thesis by simp
next
  case (executed op cl rq)
  then obtain p where p: "resolveExecutionRetry (hc_retry c) (eo_retry options) = Inr p"
      "ep_retry (op_policy op) = erp_config p"
    by (auto simp: executes_def)
  have "retry_ok (erp_config p)" using assms(2) p(1) resolveExecutionRetry_valid by (auto simp: http_inv_def)
  then have "max_attempts op = rc_max_attempts (erp_config p)" using p(2) by (simp add: max_attempts_def retry_ok_def)
  moreover from executed(3) obtain m fxd att where "run op m r fxd att" by (elim execution_run)
  ultimately show ?thesis using run_attempt_count p(1) by (metis sum.simps(6))
qed

lemma execute_repeats_authorized:
  assumes "ExecuteWithOptions go env c request options = (r, fx)" "2 \<le> length (r_attempts r)"
  shows "\<exists>rq. request = Some rq \<and> requestBodyIsReplayable request \<and>
     (eo_retry_safety options = RetrySafetyIdempotent \<or>
      eo_retry_safety options = RetrySafetyDefault \<and> methodIsIdempotent (rq_method rq))"
  using assms(1)
proof (cases rule: ExecuteWithOptions_cases)
  case (refused fc err)
  with assms(2) show ?thesis by simp
next
  case (executed op cl rq)
  from executed(3) obtain m fxd att where run: "run op m r fxd att" by (elim execution_run)
  have "continues op (int 0 + 1)" using run_repeated(1) [OF run, of 0] assms(2) by simp
  note g = continues_gates [OF this]
  have "methodIsIdempotent (normalizedHTTPMethod m) = methodIsIdempotent m" for m
    by (simp add: methodIsIdempotent_def normalizedHTTPMethod_def)
  then show ?thesis using executed g(1,2) authorized_iff by (fastforce simp: executes_def)
qed

text \<open>Nothing is sent that the origin policy of the client does not admit.\<close>

lemma execute_sends_admitted:
  assumes "ExecuteWithOptions go env c request options = (r, fx)" "Send n rq \<in> set fx"
  shows "validateRequestOrigin (go_ext go) c (Some rq) = None"
    and "\<exists>rq'. request = Some rq' \<and> rq_url rq = rq_url rq' \<and> rq_method rq = rq_method rq'"
proof -
  have "validateRequestOrigin (go_ext go) c (Some rq) = None \<and>
      (\<exists>rq'. request = Some rq' \<and> rq_url rq = rq_url rq' \<and> rq_method rq = rq_method rq')"
    using assms(1)
  proof (cases rule: ExecuteWithOptions_cases)
    case (refused fc err)
    with assms(2) show ?thesis by auto
  next
    case (executed op cl rq')
    with execution_requests [OF executed(3) assms(2)] show ?thesis by (simp add: executes_def)
  qed
  then show "validateRequestOrigin (go_ext go) c (Some rq) = None"
    "\<exists>rq'. request = Some rq' \<and> rq_url rq = rq_url rq' \<and> rq_method rq = rq_method rq'" by blast+
qed

lemma execute_outcome:
  assumes "ExecuteWithOptions go env c request options = (r, fx)"
  shows "r_outcome r = OutcomeSuccess \<longleftrightarrow> r_failure r = FailureNone"
    and "r_outcome r = OutcomeSuccess \<Longrightarrow> r_err r = None"
    and "r_err r = None \<Longrightarrow> r_response r \<noteq> None"
    and "r_response r \<noteq> None \<Longrightarrow> r_err r \<noteq> None \<Longrightarrow> r_failure r = FailurePolicy"
proof -
  consider (refused) fc err where "r = failed_result fc err" "fc \<noteq> FailureNone"
    | (ran) op m fxd att where "run op m r fxd att"
    using assms
  proof (cases rule: ExecuteWithOptions_cases)
    case (refused fc err)
    then show ?thesis by (intro that(1) [of fc err]) auto
  next
    case (executed op cl rq)
    from executed(3) show ?thesis by (rule execution_run) (rule that(2))
  qed
  note c = this
  show "r_outcome r = OutcomeSuccess \<longleftrightarrow> r_failure r = FailureNone"
    by (cases rule: c) (simp, rule run_outcome(1))
  show "r_outcome r = OutcomeSuccess \<Longrightarrow> r_err r = None"
    by (cases rule: c) (simp, use run_outcome(3) in blast)
  show "r_err r = None \<Longrightarrow> r_response r \<noteq> None"
    by (cases rule: c) (simp, use run_outcome(2) in blast)
  show "r_response r \<noteq> None \<Longrightarrow> r_err r \<noteq> None \<Longrightarrow> r_failure r = FailurePolicy"
    by (cases rule: c) (simp, use run_outcome(4) in blast)
qed

text \<open>Every attempt that was followed by another passed all the gates of the resolved policy.\<close>

lemma execute_repeats_gates:
  assumes "ExecuteWithOptions go env c request options = (r, fx)" "Suc i < length (r_attempts r)"
  shows "\<exists>cl rq p. c = Some cl \<and> request = Some rq \<and>
     resolveExecutionRetry (hc_retry cl) (eo_retry options) = Inr p \<and>
     requestBodyIsReplayable (Some rq) \<and>
     (eo_retry_safety options = RetrySafetyIdempotent \<or>
      eo_retry_safety options = RetrySafetyDefault \<and> methodIsIdempotent (rq_method rq)) \<and>
     (let a = r_attempts r ! i
      in shouldRetry (erp_config p) (normalizedHTTPMethod (rq_method rq)) (a_outcome a) (a_failure a)
           (a_status a) (a_err a) \<and> a_failure a \<noteq> FailurePolicy)"
  using assms(1)
proof (cases rule: ExecuteWithOptions_cases)
  case (refused fc err)
  with assms(2) show ?thesis by simp
next
  case (executed op cl rq)
  from executed(3) obtain m fxd att where run: "run op m r fxd att" by (elim execution_run)
  note c = run_repeated [OF run assms(2)]
  note g = continues_gates [OF c(1)]
  have m: "methodIsIdempotent (normalizedHTTPMethod m) = methodIsIdempotent m" for m
    by (simp add: methodIsIdempotent_def normalizedHTTPMethod_def)
  from executed(4) obtain p where p: "resolveExecutionRetry (hc_retry cl) (eo_retry options) = Inr p"
      "ep_retry (op_policy op) = erp_config p" "op_method op = normalizedHTTPMethod (rq_method rq)"
      "op_request op = rq" "retryAuthorizationFor (op_method op) (eo_retry_safety options) = Inr (op_authorization op)"
    by (auto simp: executes_def)
  from authorized_iff [OF p(5)] g(1) p(3) m
  have "eo_retry_safety options = RetrySafetyIdempotent \<or>
      eo_retry_safety options = RetrySafetyDefault \<and> methodIsIdempotent (rq_method rq)" by simp
  with executed(1,2) p g c(2) show ?thesis
    by (intro exI [of _ cl] exI [of _ rq] exI [of _ p]) (simp add: Let_def)
qed

text \<open>No transport call is made for a request that is refused.\<close>

lemma execute_sends:
  assumes "ExecuteWithOptions go env c request options = (r, fx)"
  shows "sends_of fx = map (\<lambda>i. int i + 1) [0..<length (r_attempts r)]"
  using assms
proof (cases rule: ExecuteWithOptions_cases)
  case (refused fc err)
  then show ?thesis by simp
next
  case (executed op cl rq)
  from executed(3) obtain m fxd att where run: "run op m r fxd att" by (elim execution_run)
  show ?thesis using execution_sends [OF executed(3)] run_attempt_numbers [OF run] by simp
qed

text \<open>A request that is sent names the configured origin and has the allowed shape.\<close>

lemma execute_sent_origin:
  assumes "ExecuteWithOptions go env c request options = (r, fx)" "r_attempts r \<noteq> []"
  shows "\<exists>cl rq. c = Some cl \<and> request = Some rq \<and> validateRequestOrigin (go_ext go) (Some cl) (Some rq) = None"
  using assms(1)
  by (cases rule: ExecuteWithOptions_cases) (use assms(2) in auto)

text \<open>A request body the client never sent has been closed when the call returns.\<close>

lemma execute_unsent_body:
  assumes "ExecuteWithOptions go env c (Some rq) options = (r, fx)" "r_attempts r = []"
    and "has_stream (rq_body rq)"
  shows "CloseRequest (rq_body rq) \<in> set fx"
  using assms(1)
proof (cases rule: ExecuteWithOptions_cases)
  case (refused fc err)
  have "closeRequestBody (Some rq) = [rq_body rq]"
    using assms(3) by (auto simp: closeRequestBody_def has_stream_def split: body.splits)
  with refused show ?thesis by simp
next
  case (executed op cl rq')
  then have rq: "op_request op = rq" by (simp add: executes_def)
  have "fx \<noteq> []" using executed(3) by (elim execution_run) simp
  with execution_request_body [OF executed(3) assms(2)] assms(3) rq show ?thesis
    by (metis last_in_set)
qed

text \<open>Every wait is within the bounds of the resolved policy.\<close>

lemma execute_waits:
  assumes "ExecuteWithOptions go env c request options = (r, fx)" "Waited d \<in> set fx"
    and "\<And>cl p. c = Some cl \<Longrightarrow> resolveExecutionRetry (hc_retry cl) (eo_retry options) = Inr p \<Longrightarrow>
       retry_ok (erp_config p) \<and> rc_max_backoff (erp_config p) \<le> max_duration \<and>
       rc_max_retry_after (erp_config p) \<le> max_duration"
  shows "0 \<le> d \<and> d \<le> max_duration \<and>
     (\<exists>cl p. c = Some cl \<and> resolveExecutionRetry (hc_retry cl) (eo_retry options) = Inr p \<and>
        (rc_max_backoff (erp_config p) = 0 \<or> d \<le> max (rc_max_backoff (erp_config p)) (rc_max_retry_after (erp_config p))))"
  using assms(1)
proof (cases rule: ExecuteWithOptions_cases)
  case (refused fc err)
  with assms(2) show ?thesis by auto
next
  case (executed op cl rq)
  from executed(4) obtain p where p: "resolveExecutionRetry (hc_retry cl) (eo_retry options) = Inr p"
      "ep_retry (op_policy op) = erp_config p"
    by (auto simp: executes_def)
  have ok: "retry_ok (erp_config p)" "rc_max_backoff (erp_config p) \<le> max_duration"
      "rc_max_retry_after (erp_config p) \<le> max_duration"
    using assms(3) [OF executed(1) p(1)] by simp_all
  obtain n where d: "d = delay_of op n" using execution_waits [OF executed(3) assms(2)] by blast
  note b = choose_delay_bounds [of op n, unfolded p(2), OF ok]
  have "0 \<le> rc_max_backoff (erp_config p)" using ok(1) by (simp add: retry_ok_def)
  then have "rc_max_backoff (erp_config p) = 0 \<or>
      d \<le> max (rc_max_backoff (erp_config p)) (rc_max_retry_after (erp_config p))"
    using b(5) d by linarith
  with b(1,2) d executed(1) p(1) show ?thesis by blast
qed

lemma execute_waits_client:
  assumes "ExecuteWithOptions go env (Some c) request options = (r, fx)" "Waited d \<in> set fx" "http_inv c"
    and "resolveExecutionRetry (hc_retry c) (eo_retry options) = Inr p"
    and "rc_max_backoff (erp_config p) \<le> max_duration" "rc_max_retry_after (erp_config p) \<le> max_duration"
  shows "0 \<le> d \<and> d \<le> max_duration \<and>
     (rc_max_backoff (erp_config p) = 0 \<or> d \<le> max (rc_max_backoff (erp_config p)) (rc_max_retry_after (erp_config p)))"
proof -
  have "retry_ok (erp_config p)"
    using assms(3,4) resolveExecutionRetry_valid by (auto simp: http_inv_def)
  then have "retry_ok (erp_config q) \<and> rc_max_backoff (erp_config q) \<le> max_duration \<and>
      rc_max_retry_after (erp_config q) \<le> max_duration"
    if "Some c = Some cl" "resolveExecutionRetry (hc_retry cl) (eo_retry options) = Inr q" for cl q
    using that assms(4-6) by simp
  from execute_waits [OF assms(1,2) this] assms(4) show ?thesis by auto
qed

end
