(* ===== verification/Http_Check.thy ===== *)
theory Http_Check
  imports Http_Api
begin

text \<open>
  The health check of \<open>httpclient/check.go\<close>: one execution under the check's own policy, its assessment
  as a health value, the drained response, and the recording in the shared client.
\<close>

definition httpHealthOperationAttributes :: "attribute list" where
  "httpHealthOperationAttributes = [(''client.operation'', ''health_check'')]"

definition httpHealthAttributes :: "string \<Rightarrow> int \<Rightarrow> attribute list" where
  "httpHealthAttributes method statusCode = httpExecutionAttributes method statusCode httpHealthOperationAttributes"

definition checkMethod :: "HttpClient option \<Rightarrow> string" where
  "checkMethod c = (case c of
     None \<Rightarrow> DefaultCheckMethod
   | Some c \<Rightarrow> if nc_method (hc_check c) = '''' then DefaultCheckMethod else nc_method (hc_check c))"

text \<open>The script of a check: the clock, the execution, the context seen by the drain and its reads.\<close>

record check_env =
  ce_started :: gotime
  ce_do :: do_env
  ce_ctx :: ctx_view
  ce_reads :: "body_read list"
  ce_ended :: gotime

text \<open>What a check returns and leaves behind: the health, the client, the health event and its
  observer (none for a disabled check), the effects of the execution and the bytes drained.\<close>

record check_result =
  ck_health :: Health
  ck_client :: "HttpClient option"
  ck_event :: "(observer \<times> attribute list HealthEvent) option"
  ck_effects :: "http_effect list"
  ck_drained :: nat

definition completeCheckHealth ::
  "HttpClient option \<Rightarrow> HealthState \<Rightarrow> FailureClass \<Rightarrow> string \<Rightarrow> gotime \<Rightarrow> int \<Rightarrow> gotime
   \<Rightarrow> http_effect list \<Rightarrow> nat \<Rightarrow> check_result" where
  "completeCheckHealth c state failureClass message startedAt statusCode endedAt effects drained =
     (let (health, core', observer, event) =
            Record (core_of c) ProtocolHTTP
              \<lparr>ha_state = state, ha_failure = failureClass, ha_message = message\<rparr> startedAt
              (httpHealthAttributes (checkMethod c) statusCode) endedAt
      in \<lparr>ck_health = health, ck_client = map_option (\<lambda>cl. cl\<lparr>hc_core := core'\<rparr>) c,
          ck_event = Some (observer, event), ck_effects = effects, ck_drained = drained\<rparr>)"

text \<open>The switch over the result of the execution.\<close>

definition assess_check :: "Result \<Rightarrow> HealthState \<times> FailureClass \<times> string" where
  "assess_check result =
     (if r_err result \<noteq> None then
        (HealthUnhealthy, r_failure result,
         (case r_outcome result of
            OutcomeTimeout \<Rightarrow> ''HTTP health check timed out''
          | OutcomeCanceled \<Rightarrow> ''HTTP health check canceled''
          | _ \<Rightarrow> ''HTTP health check request failed''))
      else if r_response result = None then
        (HealthUnhealthy, FailureTransport, ''HTTP health check returned no response'')
      else if r_outcome result = OutcomeSuccess then
        (HealthHealthy, FailureNone, ''HTTP health check succeeded'')
      else if r_failure result = FailurePolicy then
        (HealthUnhealthy, r_failure result, ''HTTP health response classification failed'')
      else (HealthUnhealthy, FailureRemoteResponse, ''HTTP health check response was rejected''))"

definition check_policy :: "HttpClient \<Rightarrow> executionPolicy" where
  "check_policy c =
     \<lparr>ep_operation = OperationHTTPRequest, ep_timeout = 0, ep_attempt_timeout = hc_attempt_timeout c,
      ep_retry = nc_retry (hc_check c), ep_source = RetryPolicySourceNone,
      ep_safety = nc_retry_safety (hc_check c), ep_classifier = nc_classifier (hc_check c),
      ep_attributes = httpHealthOperationAttributes\<rparr>"

text \<open>The context of a check: its deadline, when one is configured, and the deferred cancellation.\<close>

definition check_scope :: "duration \<Rightarrow> http_effect list \<Rightarrow> http_effect list" where
  "check_scope timeout effects = (if timeout > 0 then [CheckTimeout timeout] else []) @ effects @ [CheckCancelled]"

definition Check :: "go_code \<Rightarrow> url_code \<Rightarrow> check_env \<Rightarrow> HttpClient option \<Rightarrow> bool \<Rightarrow> check_result" where
  "Check go uc env c has_ctx =
     (case (case c of None \<Rightarrow> None
            | Some cl \<Rightarrow> if is_nil (hc_core cl) \<or> hc_http_client cl = None \<or> hc_base_url cl = None then None
                        else Some cl) of
        None \<Rightarrow> completeCheckHealth c HealthUnhealthy FailureConfiguration ''HTTP client is not configured''
                  (ce_started env) 0 (ce_ended env) [] 0
      | Some cl \<Rightarrow>
          if \<not> nc_enabled (hc_check cl) then
            \<lparr>ck_health = health_of HealthUnknown FailureNone ''HTTP health check is disabled'',
             ck_client = c, ck_event = None, ck_effects = [], ck_drained = 0\<rparr>
          else if \<not> has_ctx then
            completeCheckHealth c HealthUnhealthy FailureRequest ''HTTP health check context is required''
              (ce_started env) 0 (ce_ended env) [] 0
          else (case NewRequest uc c True (nc_method (hc_check cl)) (nc_path (hc_check cl)) (NilBody, False) of
            Inl _ \<Rightarrow> completeCheckHealth c HealthUnhealthy FailureRequest ''HTTP health check request failed''
                       (ce_started env) 0 (ce_ended env) (check_scope (nc_timeout (hc_check cl)) []) 0
          | Inr rq \<Rightarrow>
              (let (result, effects) = do_request go (ce_do env) c (Some rq) (check_policy cl);
                   (state, failureClass, message) = assess_check result;
                   drained = fst (drainAndCloseResponse (Some (ce_ctx env)) (r_response result) (ce_reads env))
               in completeCheckHealth c state failureClass message (ce_started env) (r_status result)
                    (ce_ended env) (check_scope (nc_timeout (hc_check cl)) (effects @ [CheckDrained (r_response result)])) drained)))"

section \<open>What a check establishes\<close>

text \<open>A disabled check has no effect at all.\<close>

lemma check_disabled:
  assumes "hc_core c \<noteq> None" "hc_http_client c \<noteq> None" "hc_base_url c \<noteq> None" "\<not> nc_enabled (hc_check c)"
  shows "ck_client (Check go uc env (Some c) has_ctx) = Some c" "ck_event (Check go uc env (Some c) has_ctx) = None"
    "ck_effects (Check go uc env (Some c) has_ctx) = []"
    "h_state (ck_health (Check go uc env (Some c) has_ctx)) = HealthUnknown"
  using assms by (auto simp: Check_def health_of_def)

lemma do_request_outcome:
  assumes "do_request go env c request policy = (r, fx)"
  shows "r_outcome r = OutcomeSuccess \<longleftrightarrow> r_failure r = FailureNone"
    and "r_err r = None \<Longrightarrow> r_response r \<noteq> None"
    and "r_outcome r = OutcomeSuccess \<Longrightarrow> r_err r = None"
proof -
  consider (refused) fc err where "r = failed_result fc err" "fc \<noteq> FailureNone"
    | (ran) op m fxd att where "run op m r fxd att"
    using assms
  proof (cases rule: do_request_cases)
    case (refused fc err)
    then show ?thesis by (intro that(1) [of fc err]) auto
  next
    case (executed op cl rq)
    from executed(3) show ?thesis by (rule execution_run) (rule that(2))
  qed
  note c = this
  show "r_outcome r = OutcomeSuccess \<longleftrightarrow> r_failure r = FailureNone"
    by (cases rule: c) (simp, rule run_outcome(1))
  show "r_err r = None \<Longrightarrow> r_response r \<noteq> None"
    by (cases rule: c) (simp, use run_outcome(2) in blast)
  show "r_outcome r = OutcomeSuccess \<Longrightarrow> r_err r = None"
    by (cases rule: c) (simp, use run_outcome(3) in blast)
qed

text \<open>The assessment is healthy exactly for a successful execution, and names a failure otherwise.\<close>

lemma assess_check_spec:
  assumes "do_request go env c request policy = (r, fx)" "assess_check r = (state, fc, msg)"
  shows "state = HealthHealthy \<longleftrightarrow> r_outcome r = OutcomeSuccess"
    and "state = HealthHealthy \<longleftrightarrow> fc = FailureNone"
    and "state = HealthHealthy \<or> state = HealthUnhealthy"
    and "plain_text msg"
proof -
  note o = do_request_outcome [OF assms(1)]
  show "state = HealthHealthy \<longleftrightarrow> r_outcome r = OutcomeSuccess"
    using assms(2) o by (auto simp: assess_check_def split: if_splits)
  show "state = HealthHealthy \<longleftrightarrow> fc = FailureNone"
    using assms(2) o by (auto simp: assess_check_def split: if_splits)
  show "state = HealthHealthy \<or> state = HealthUnhealthy"
    using assms(2) by (auto simp: assess_check_def split: if_splits)
  show "plain_text msg"
    using assms(2)
    by (auto simp: assess_check_def plain_text_def DefaultMaxHealthMessageBytes_def split: if_splits Outcome.splits)
qed

text \<open>A recorded check caches the health it returns and emits one event that carries it.\<close>

lemma complete_caches:
  assumes "completeCheckHealth c st fc msg t0 status t1 fx n = res"
  shows "(\<exists>obs ev. ck_event res = Some (obs, ev) \<and> he_state ev = h_state (ck_health res) \<and>
            he_failure ev = h_failure (ck_health res) \<and> he_message ev = h_message (ck_health res))"
    and "core_of c = Some core \<Longrightarrow> \<exists>core'. core_of (ck_client res) = Some core' \<and>
            cl_health core' = ck_health res \<and> cl_name core' = cl_name core"
    and "ck_effects res = fx" "ck_drained res = n"
proof -
  obtain h core' obs ev where rec: "Record (core_of c) ProtocolHTTP
      \<lparr>ha_state = st, ha_failure = fc, ha_message = msg\<rparr> t0 (httpHealthAttributes (checkMethod c) status) t1
      = (h, core', obs, ev)"
    by (metis prod_cases4)
  note ev = Record_event [OF rec]
  have res: "res = \<lparr>ck_health = h, ck_client = map_option (\<lambda>cl. cl\<lparr>hc_core := core'\<rparr>) c,
      ck_event = Some (obs, ev), ck_effects = fx, ck_drained = n\<rparr>"
    using assms by (simp add: completeCheckHealth_def rec)
  show "\<exists>obs ev. ck_event res = Some (obs, ev) \<and> he_state ev = h_state (ck_health res) \<and>
      he_failure ev = h_failure (ck_health res) \<and> he_message ev = h_message (ck_health res)"
    using ev by (simp add: res)
  show "ck_effects res = fx" "ck_drained res = n" by (simp_all add: res)
  show "core_of c = Some core \<Longrightarrow> \<exists>core'. core_of (ck_client res) = Some core' \<and>
      cl_health core' = ck_health res \<and> cl_name core' = cl_name core"
  proof -
    assume core: "core_of c = Some core"
    then obtain cl where c: "c = Some cl" by (cases c) (auto simp: core_of_def)
    from rec core obtain k where k: "core' = Some k" "cl_health k = h" "cl_name k = cl_name core"
      by (auto simp: Record_def Let_def split: prod.splits dest: UpdateHealth_identity)
    then show ?thesis by (simp add: res core_of_def c)
  qed
qed

text \<open>A health value built from an assessment is publishable, so the default sanitizer keeps it.\<close>

lemma assessment_publishable:
  assumes "st = HealthHealthy \<longleftrightarrow> fc = FailureNone" "st \<in> {HealthHealthy, HealthUnhealthy}"
    and "validFailureClass fc" "plain_text msg" "0 \<le> d"
  shows "publishable \<lparr>h_state = st, h_failure = fc, h_checked_at = to_utc t, h_duration = d, h_message = msg\<rparr>"
proof (cases "st = HealthHealthy")
  case True
  have "publishable \<lparr>h_state = HealthUnknown, h_failure = fc, h_checked_at = to_utc t, h_duration = d, h_message = msg\<rparr>"
    using assms(3-5) by (intro publishable_plain) (simp_all add: to_utc_def)
  with True assms(1) show ?thesis by (simp add: publishable_def)
next
  case False
  with assms show ?thesis by (intro publishable_plain) (auto simp: to_utc_def)
qed

text \<open>The check of a client with the default sanitizer returns the assessment unchanged.\<close>

lemma complete_default:
  assumes "core_of c = Some core" "cl_sanitizer core = Some DefaultHealthSanitizer" "\<not> cl_disable_sanitizer core"
    and "st = HealthHealthy \<longleftrightarrow> fc = FailureNone" "st \<in> {HealthHealthy, HealthUnhealthy}"
    and "validFailureClass fc" "plain_text msg" "instant t0 \<le> instant t1"
  shows "ck_health (completeCheckHealth c st fc msg t0 status t1 fx n) =
     \<lparr>h_state = st, h_failure = fc, h_checked_at = to_utc t1, h_duration = time_sub t1 t0, h_message = msg\<rparr>"
proof -
  let ?h = "\<lparr>h_state = st, h_failure = fc, h_checked_at = to_utc t1, h_duration = time_sub t1 t0, h_message = msg\<rparr>"
  have "publishable ?h" using assms(4-7) time_sub_nonneg [OF assms(8)] by (intro assessment_publishable) auto
  then have "sanitizeHealthSafely (cl_name core) ?h (Some DefaultHealthSanitizer) False = ?h"
    by (simp add: sanitizeHealthSafely_def sanitizeHealthSafelyWithPanic_def publishable_fixed)
  with assms(1-3) show ?thesis
    by (simp add: completeCheckHealth_def Record_def UpdateHealth_def Let_def)
qed

end
