(* ===== verification/Http_Samples.thy ===== *)
theory Http_Samples
  imports Http_Check
begin

text \<open>
  Concrete values the witnesses are evaluated on: a client for one https origin, requests to it, a
  script with a rejected and an accepted response, and standard-library parameters.
\<close>

definition sample_url :: URL where
  "sample_url = \<lparr>u_scheme = ''https'', u_opaque = '''', u_user = None, u_host = ''api'', u_path = ''/'',
     u_raw_path = '''', u_raw_query = '''', u_force_query = False, u_fragment = '''', u_raw_fragment = ''''\<rparr>"

definition sample_core :: Client where
  "sample_core = \<lparr>cl_name = ''payments'', cl_policy = ReadinessOptional, cl_observer = NopObserver,
     cl_sanitizer = Some DefaultHealthSanitizer, cl_disable_sanitizer = False,
     cl_health = health_of HealthUnknown FailureNone ''''\<rparr>"

definition sample_retry :: RetryConfig where
  "sample_retry = DefaultRetryConfig\<lparr>rc_backoff := 0, rc_respect_retry_after := False,
     rc_max_retry_after := 0\<rparr>"

definition sample_client :: HttpClient where
  "sample_client = \<lparr>hc_core = Some sample_core, hc_base_url = Some sample_url,
     hc_http_client = Some DefaultHTTPClient, hc_timeout = 30 * Second, hc_attempt_timeout = 10 * Second,
     hc_check = zero_check, hc_retry = sample_retry, hc_propagator = Some NopHeaderPropagator,
     hc_classifier = Some DefaultResponseClassifier, hc_allow_cross_origin = True,
     hc_allow_host_override = False, hc_transport_injects = False\<rparr>"

definition sample_request :: "string \<Rightarrow> Request" where
  "sample_request m = \<lparr>rq_method = m, rq_url = Some sample_url, rq_host = '''', rq_request_uri = '''',
     rq_header = None, rq_body = NilBody, rq_get_body = False, rq_close = False\<rparr>"

definition sample_response :: "int \<Rightarrow> Response" where
  "sample_response s = \<lparr>rs_status = s, rs_proto_major = 1, rs_proto_minor = 1, rs_header = [], rs_body = Stream 1 False,
     rs_content_length = 5, rs_close = False, rs_request = None\<rparr>"

definition sample_attempt :: "Response option \<Rightarrow> int \<Rightarrow> attempt_env" where
  "sample_attempt r t = \<lparr>at_total = None, at_prep = \<lparr>pe_ctx = None, pe_body = NilBody, pe_body_err = None, pe_ctx_after = None\<rparr>,
     at_started = now_at t, at_response = r, at_err = None, at_ended = now_at (t + 10), at_ctx = None,
     at_classify = (\<lambda>_ _. Panicked), at_ctx_classified = None, at_total_retry = None, at_draw = Fin 0,
     at_now = now_at (t + 20), at_wait_poll = None, at_wait_race = None, at_finish = now_at (t + 30)\<rparr>"

definition sample_env :: do_env where
  "sample_env = \<lparr>de_started = now_at 1, de_attempt = (\<lambda>n. if n = 1 then sample_attempt (Some (sample_response 503)) 100
     else sample_attempt (Some (sample_response 200)) 500), de_exhausted = now_at 0, de_ended = now_at 1000\<rparr>"

definition sample_go :: go_code where
  "sample_go = \<lparr>go_ext = id, go_pow = (\<lambda>_ _. Fin 1), go_parse_time = (\<lambda>_. None)\<rparr>"

text \<open>The names of the samples are accepted.\<close>

lemma sample_names: "ValidateClientName ''payments'' = None" "ValidateClientName ''ledger'' = None"
    "ValidateClientProtocol ''http'' = None"
  unfolding ValidateClientName_iff ValidateClientProtocol_iff
  by (rule plain_identifier; simp add: MaxClientNameBytes_def MaxClientProtocolBytes_def;
      simp add: clientNameAlphanumeric_def; code_simp)+

lemma sample_retry_ok: "retry_ok sample_retry"
  using default_retry_ok by (simp add: sample_retry_def retry_ok_def)

lemma sample_client_inv: "http_inv sample_client"
proof -
  have h: "Hostname sample_url = ''api''" "Port sample_url = ''''"
    by code_simp+
  have "client_inv sample_core"
    by (simp add: sample_names client_inv_def sample_core_def)
  then show ?thesis
    using h sample_retry_ok
    by (simp add: http_inv_def sample_client_def base_url_ok_def check_inv_def zero_check_def Second_def
        is_safe_propagator_def sample_core_def BlocksReadiness_def normalizeReadinessPolicy_def)
       (simp add: sample_url_def)
qed

text \<open>The sample execution: 503, then 200, without a delay in between.\<close>

definition sample_execution :: "Result \<times> http_effect list" where
  "sample_execution = ExecuteWithOptions sample_go sample_env (Some sample_client)
     (Some (sample_request ''GET'')) zero_options"

definition waits_zero :: "http_effect list \<Rightarrow> bool" where
  "waits_zero fx \<longleftrightarrow> list_ex (\<lambda>e. case e of Waited d \<Rightarrow> d = 0 | _ \<Rightarrow> False) fx"

lemma waits_zero_iff: "waits_zero fx \<longleftrightarrow> Waited 0 \<in> set fx"
  by (induction fx) (auto simp: waits_zero_def split: http_effect.splits)

lemma sample_execution_facts:
  "length (r_attempts (fst sample_execution)) = 2 \<and> r_outcome (fst sample_execution) = OutcomeSuccess \<and>
   waits_zero (snd sample_execution)"
  by code_simp

definition sample_operation :: operation where
  "sample_operation = \<lparr>op_go = sample_go, op_client_name = ''payments'', op_method = ''GET'',
     op_authorization = retryAuthorizationMethod,
     op_policy = \<lparr>ep_operation = ''request'', ep_timeout = 0, ep_attempt_timeout = 0, ep_retry = sample_retry,
       ep_source = RetryPolicySourceClient, ep_safety = RetrySafetyDefault,
       ep_classifier = Some DefaultResponseClassifier, ep_attributes = []\<rparr>,
     op_request = sample_request ''GET'', op_env = sample_env\<rparr>"

lemma sample_operation_facts: "length (r_attempts (fst (observed_execution sample_operation))) = 2"
  by code_simp

text \<open>A request with a body to another origin, which is refused.\<close>

definition foreign_request :: Request where
  "foreign_request = (sample_request ''POST'')\<lparr>rq_url := Some (sample_url\<lparr>u_host := ''''\<rparr>),
     rq_body := Stream 7 False\<rparr>"

definition refused_execution :: "Result \<times> http_effect list" where
  "refused_execution = ExecuteWithOptions sample_go sample_env (Some sample_client)
     (Some foreign_request) zero_options"

lemma refused_execution_facts: "r_attempts (fst refused_execution) = []"
proof -
  have "length (r_attempts (fst refused_execution)) = 0" by code_simp
  then show ?thesis by simp
qed

lemma sample_operation_response:
  "at_response (de_attempt (op_env sample_operation) 1) = Some (sample_response 503)"
  "rs_body (sample_response s) \<noteq> NilBody"
  by (simp_all add: sample_operation_def sample_env_def sample_attempt_def sample_response_def)

text \<open>The requests of that execution, and a redirect within the origin followed by one that leaves it.\<close>

lemma sample_first_send: "list_ex (\<lambda>e. case e of Send n _ \<Rightarrow> n = 1 | _ \<Rightarrow> False) (snd sample_execution)"
  by code_simp

definition sample_hop :: "string \<Rightarrow> hop" where
  "sample_hop host = \<lparr>hop_request = (sample_request ''GET'')\<lparr>rq_url := Some (sample_url\<lparr>u_host := host\<rparr>)\<rparr>,
     hop_status = Some 307, hop_callback = None, hop_ctx = None\<rparr>"

lemma sample_redirects:
  "follow_redirects id sample_client DefaultHTTPClient RetrySafetyDefault 1 [sample_hop ''api'', sample_hop ''''] =
     ([sample_hop ''api''], Some (sentinel_error errRequestURLMustBeAbsolute))"
  by code_simp

end
