(* ===== verification/Tcp_Config.thy ===== *)
theory Tcp_Config
  imports Ck_Client
begin

text \<open>
  Construction of the TCP client: \<open>tcpclient/config.go\<close>, \<open>defaults.go\<close>, \<open>tls.go\<close>, \<open>client.go\<close> and the
  configuration half of \<open>check.go\<close>. \<open>net.ParseIP\<close>, the case tables of \<open>unicode\<close> beyond ASCII and the
  default OpenTelemetry observer are parameters.
\<close>

section \<open>Defaults\<close>

definition ProtocolTCP :: string where
  "ProtocolTCP = ''tcp''"

definition DefaultNetwork :: string where
  "DefaultNetwork = ''tcp''"

definition DefaultDialTimeout :: duration where
  "DefaultDialTimeout = 5 * Second"

definition DefaultKeepAlive :: duration where
  "DefaultKeepAlive = 30 * Second"

definition DefaultTCPCheckTimeout :: duration where
  "DefaultTCPCheckTimeout = 5 * Second"

definition DefaultTCPCheckStaleAfter :: duration where
  "DefaultTCPCheckStaleAfter = 90 * Second"

definition DefaultTLSHandshakeTimeout :: duration where
  "DefaultTLSHandshakeTimeout = 10 * Second"

text \<open>\<open>tls.VersionTLS12\<close> and \<open>tls.VersionTLS13\<close>.\<close>

definition VersionTLS12 :: nat where
  "VersionTLS12 = 771"

definition VersionTLS13 :: nat where
  "VersionTLS13 = 772"

definition DefaultTLSMinVersion :: nat where
  "DefaultTLSMinVersion = VersionTLS12"

text \<open>A \<open>tls.Config\<close>: the fields the library reads and writes, the rest as one identity.\<close>

record tls_policy =
  tp_min_version :: nat
  tp_server_name :: string
  tp_insecure :: bool
  tp_rest :: nat

definition DefaultTLSConfig :: "string \<Rightarrow> tls_policy" where
  "DefaultTLSConfig serverName =
     \<lparr>tp_min_version = DefaultTLSMinVersion, tp_server_name = serverName, tp_insecure = False, tp_rest = 0\<rparr>"

section \<open>Addresses\<close>

fun index_byte :: "char \<Rightarrow> string \<Rightarrow> nat option" where
  "index_byte c [] = None"
| "index_byte c (x # xs) = (if x = c then Some 0 else map_option Suc (index_byte c xs))"

definition last_index_byte :: "char \<Rightarrow> string \<Rightarrow> nat option" where
  "last_index_byte c s = map_option (\<lambda>i. length s - 1 - i) (index_byte c (rev s))"

text \<open>\<open>net.SplitHostPort\<close>; None is its error.\<close>

definition SplitHostPort :: "string \<Rightarrow> (string \<times> string) option" where
  "SplitHostPort hp =
     (case last_index_byte CHR '':'' hp of
        None \<Rightarrow> None
      | Some i \<Rightarrow>
          (let port = drop (i + 1) hp
           in if hd hp = CHR ''['' then
                (case index_byte CHR '']'' hp of
                   None \<Rightarrow> None
                 | Some e \<Rightarrow>
                     if e + 1 \<noteq> i then None
                     else if index_byte CHR ''['' (drop 1 hp) \<noteq> None then None
                     else if index_byte CHR '']'' (drop (e + 1) hp) \<noteq> None then None
                     else Some (take (e - 1) (drop 1 hp), port))
              else if index_byte CHR '':'' (take i hp) \<noteq> None then None
              else if index_byte CHR ''['' hp \<noteq> None then None
              else if index_byte CHR '']'' hp \<noteq> None then None
              else Some (take i hp, port)))"

datatype address_error =
  AddressForm | AddressHostRequired | AddressPortRequired | AddressPortRange

definition validateTCPAddress :: "string \<Rightarrow> address_error option" where
  "validateTCPAddress address =
     (case SplitHostPort address of
        None \<Rightarrow> Some AddressForm
      | Some (host, port) \<Rightarrow>
          if TrimSpace host = '''' then Some AddressHostRequired
          else if port = '''' then Some AddressPortRequired
          else if \<not> list_all (\<lambda>r. 48 \<le> r \<and> r \<le> 57) (runes port) then Some AddressPortRange
          else (case Atoi port of
                  None \<Rightarrow> Some AddressPortRange
                | Some p \<Rightarrow> if p < 1 \<or> 65535 < p then Some AddressPortRange else None))"

section \<open>TLS policy\<close>

record TLSConfig =
  tl_enabled :: bool
  tl_config :: "tls_policy option"
  tl_server_name :: string
  tl_disable_inference :: bool
  tl_handshake_timeout :: duration
  tl_disable_handshake_timeout :: bool

record normalizedTLSConfig =
  nt_enabled :: bool
  nt_config :: "tls_policy option"
  nt_handshake_timeout :: duration

datatype tls_error =
    TLSRequiresEnabled | TLSDuration duration_error | TLSServerNameEmpty | TLSServerNameConflict
  | TLSServerNameRequired

definition configuredAddressHost :: "(string \<Rightarrow> bool) \<Rightarrow> string \<Rightarrow> string" where
  "configuredAddressHost is_ip address =
     (case SplitHostPort address of
        None \<Rightarrow> ''''
      | Some (host, _) \<Rightarrow>
          (let host = TrimSpace host
           in case last_index_byte CHR ''%'' host of
                None \<Rightarrow> host
              | Some i \<Rightarrow> if 0 < i \<and> is_ip (take i host) then take i host else host))"

definition normalizeTLSConfig ::
  "(string \<Rightarrow> bool) \<Rightarrow> TLSConfig \<Rightarrow> string \<Rightarrow> (tls_error, normalizedTLSConfig) result" where
  "normalizeTLSConfig is_ip cfg address =
     (if \<not> tl_enabled cfg then
        (if tl_config cfg \<noteq> None \<or> tl_server_name cfg \<noteq> '''' \<or> tl_disable_inference cfg \<or>
            tl_handshake_timeout cfg \<noteq> 0 \<or> tl_disable_handshake_timeout cfg
         then Inl TLSRequiresEnabled
         else Inr \<lparr>nt_enabled = False, nt_config = None, nt_handshake_timeout = 0\<rparr>)
      else
        bind_result (map_error TLSDuration (Duration ''TCP TLS handshake timeout'' (tl_handshake_timeout cfg)
          (tl_disable_handshake_timeout cfg) DefaultTLSHandshakeTimeout 0)) (\<lambda>handshakeTimeout.
        (let explicit = TrimSpace (tl_server_name cfg)
         in if tl_server_name cfg \<noteq> '''' \<and> explicit = '''' then Inl TLSServerNameEmpty
            else
              (let configured = (case tl_config cfg of None \<Rightarrow> '''' | Some p \<Rightarrow> tp_server_name p)
               in if explicit \<noteq> '''' \<and> configured \<noteq> '''' \<and> explicit \<noteq> configured then Inl TLSServerNameConflict
                  else
                    (let serverName = (if explicit = '''' then configured else explicit);
                         serverName = (if serverName = '''' \<and> \<not> tl_disable_inference cfg
                                       then configuredAddressHost is_ip address else serverName);
                         policy = (case tl_config cfg of
                             None \<Rightarrow> DefaultTLSConfig serverName
                           | Some p \<Rightarrow> p\<lparr>tp_server_name := serverName\<rparr>)
                     in if tp_server_name policy = '''' \<and> \<not> tp_insecure policy then Inl TLSServerNameRequired
                        else Inr \<lparr>nt_enabled = True, nt_config = Some policy,
                                  nt_handshake_timeout = handshakeTimeout\<rparr>)))))"

definition tlsVersionName :: "nat \<Rightarrow> string" where
  "tlsVersionName version =
     (if version = VersionTLS12 then ''1.2'' else if version = VersionTLS13 then ''1.3'' else '''')"

section \<open>Checks\<close>

text \<open>A probe: a \<open>ConnectionProbeFunc\<close> (None is the nil function) or another implementation.\<close>

datatype ConnectionProbe = ConnectionProbeFunc "nat option" | OtherProbe nat

record TcpCheckConfig =
  tk_enabled :: bool
  tk_timeout :: duration
  tk_disable_timeout :: bool
  tk_stale_after :: duration
  tk_disable_stale_after :: bool
  tk_probe :: "ConnectionProbe option"

record tcpNormalizedCheck =
  tn_enabled :: bool
  tn_timeout :: duration
  tn_stale_after :: duration
  tn_probe :: "ConnectionProbe option"

datatype tcp_check_error = TCPCheckRequiresEnabled | TCPCheckDuration duration_error | TCPProbeNil

definition tcp_normalizeCheckConfig :: "TcpCheckConfig \<Rightarrow> (tcp_check_error, tcpNormalizedCheck) result" where
  "tcp_normalizeCheckConfig cfg =
     (if \<not> tk_enabled cfg then
        (if tk_timeout cfg \<noteq> 0 \<or> tk_disable_timeout cfg \<or> tk_stale_after cfg \<noteq> 0 \<or>
            tk_disable_stale_after cfg \<or> tk_probe cfg \<noteq> None
         then Inl TCPCheckRequiresEnabled
         else Inr \<lparr>tn_enabled = False, tn_timeout = 0, tn_stale_after = 0, tn_probe = None\<rparr>)
      else
        bind_result (map_error TCPCheckDuration (Duration ''TCP check timeout'' (tk_timeout cfg)
          (tk_disable_timeout cfg) DefaultTCPCheckTimeout 0)) (\<lambda>timeout.
        bind_result (map_error TCPCheckDuration (Duration ''TCP check stale-after duration'' (tk_stale_after cfg)
          (tk_disable_stale_after cfg) DefaultTCPCheckStaleAfter 0)) (\<lambda>staleAfter.
        if tk_probe cfg = Some (ConnectionProbeFunc None) then Inl TCPProbeNil
        else Inr \<lparr>tn_enabled = True, tn_timeout = timeout, tn_stale_after = staleAfter, tn_probe = tk_probe cfg\<rparr>)))"

section \<open>The client\<close>

text \<open>A caller's \<open>DialContext\<close> is an identity; what it answers belongs to the script of a dial. The
  built-in dialer is its timeout and keepalive.\<close>

record TcpConfig =
  tcfg_config :: Config
  tcfg_network :: string
  tcfg_address :: string
  tcfg_dial_timeout :: duration
  tcfg_disable_dial_timeout :: bool
  tcfg_keep_alive :: duration
  tcfg_disable_keep_alive :: bool
  tcfg_dial_context :: "nat option"
  tcfg_check :: TcpCheckConfig
  tcfg_tls :: TLSConfig

record TcpClient =
  tc_core :: "Client option"
  tc_network :: string
  tc_address :: string
  tc_dial_timeout :: duration
  tc_keep_alive :: duration
  tc_dial_context :: "nat option"
  tc_dialer :: "(duration \<times> duration) option"
  tc_check :: tcpNormalizedCheck
  tc_tls :: normalizedTLSConfig

datatype tcp_config_error =
    TCPConfig config_error | TCPNetwork | TCPAddressRequired | TCPAddressScheme | TCPAddress address_error
  | TCPDuration duration_error | TCPKeepAliveCustom | TCPCheck tcp_check_error | TCPReadinessRequiresCheck
  | TCPTls tls_error | TCPObserver | TCPCore config_error

definition tcp_build_core :: "observer option \<Rightarrow> Config \<Rightarrow> (tcp_config_error, Client) result" where
  "tcp_build_core telemetry cfg =
     (case c_observer cfg of
        Some _ \<Rightarrow> map_error TCPCore (new_client cfg)
      | None \<Rightarrow> (case telemetry of
                   None \<Rightarrow> Inl TCPObserver
                 | Some t \<Rightarrow> map_error TCPCore (new_client (cfg\<lparr>c_observer := Some t\<rparr>))))"

definition tcp_New ::
  "(rune \<Rightarrow> rune) \<Rightarrow> (string \<Rightarrow> bool) \<Rightarrow> observer option \<Rightarrow> TcpConfig \<Rightarrow> (tcp_config_error, TcpClient) result" where
  "tcp_New ext is_ip telemetry cfg =
     guard_error TCPConfig (Validate (tcfg_config cfg))
     (let network = to_lower ext (TrimSpace (tcfg_network cfg));
          network = (if network = '''' then DefaultNetwork else network);
          address = TrimSpace (tcfg_address cfg);
          builtin = (tcfg_dial_context cfg = None)
      in if network \<notin> {''tcp'', ''tcp4'', ''tcp6''} then Inl TCPNetwork
         else if address = '''' then Inl TCPAddressRequired
         else if contains address ''://'' then Inl TCPAddressScheme
         else guard_error TCPAddress (if builtin then validateTCPAddress address else None)
         (bind_result (map_error TCPDuration (Duration ''TCP dial timeout'' (tcfg_dial_timeout cfg)
            (tcfg_disable_dial_timeout cfg) DefaultDialTimeout 0)) (\<lambda>dialTimeout.
          bind_result
            (if \<not> builtin then
               (if tcfg_keep_alive cfg \<noteq> 0 \<or> tcfg_disable_keep_alive cfg then Inl TCPKeepAliveCustom else Inr 0)
             else map_error TCPDuration (Duration ''TCP keepalive'' (tcfg_keep_alive cfg)
               (tcfg_disable_keep_alive cfg) DefaultKeepAlive (-1))) (\<lambda>keepAlive.
          bind_result (map_error TCPCheck (tcp_normalizeCheckConfig (tcfg_check cfg))) (\<lambda>check.
          if BlocksReadiness (c_policy (tcfg_config cfg)) \<and> \<not> tn_enabled check then Inl TCPReadinessRequiresCheck
          else bind_result (map_error TCPTls (normalizeTLSConfig is_ip (tcfg_tls cfg) address)) (\<lambda>tlsConfig.
          bind_result (tcp_build_core telemetry (tcfg_config cfg)) (\<lambda>client.
            Inr \<lparr>tc_core = Some client, tc_network = network, tc_address = address,
                 tc_dial_timeout = dialTimeout, tc_keep_alive = keepAlive,
                 tc_dial_context = tcfg_dial_context cfg,
                 tc_dialer = (if builtin then Some (dialTimeout, keepAlive) else None),
                 tc_check = check, tc_tls = tlsConfig\<rparr>)))))))"

text \<open>Accessors; a nil \<open>*Client\<close> is None, a zero one has no core.\<close>

definition tcp_core :: "TcpClient option \<Rightarrow> Client option" where
  "tcp_core c = (case c of None \<Rightarrow> None | Some c \<Rightarrow> tc_core c)"

definition tcp_name :: "TcpClient option \<Rightarrow> string" where
  "tcp_name c = (case tcp_core c of None \<Rightarrow> '''' | Some core \<Rightarrow> cl_name core)"

definition tcp_protocol :: "TcpClient option \<Rightarrow> string" where
  "tcp_protocol c = (case tcp_core c of None \<Rightarrow> '''' | Some core \<Rightarrow> ProtocolTCP)"

definition tcp_readiness :: "TcpClient option \<Rightarrow> ReadinessPolicy" where
  "tcp_readiness c = (case tcp_core c of None \<Rightarrow> ReadinessOptional | Some core \<Rightarrow> cl_policy core)"

lemmas [accessors] = tcp_core_def tcp_name_def tcp_protocol_def tcp_readiness_def

section \<open>What an accepted configuration satisfies\<close>

lemma index_byte_None [simp]: "index_byte c s = None \<longleftrightarrow> c \<notin> set s"
  by (induction s) auto

lemma index_byte_Some: "index_byte c s = Some i \<longleftrightarrow> i < length s \<and> s ! i = c \<and> c \<notin> set (take i s)"
proof (induction s arbitrary: i)
  case (Cons x xs)
  then show ?case by (cases i) auto
qed simp

lemma last_index_byte_None [simp]: "last_index_byte c s = None \<longleftrightarrow> c \<notin> set s"
  by (simp add: last_index_byte_def)

lemma last_index_byte_append: "c \<notin> set t \<Longrightarrow> last_index_byte c (s @ c # t) = Some (length s)"
proof -
  assume "c \<notin> set t"
  then have "index_byte c (rev (s @ c # t)) = Some (length t)"
    by (simp add: index_byte_Some nth_append)
  then show ?thesis by (simp add: last_index_byte_def)
qed

lemma last_index_byte_Some:
  assumes "last_index_byte c s = Some i"
  shows "s = take i s @ c # drop (i + 1) s" "c \<notin> set (drop (i + 1) s)" "i < length s" "s ! i = c"
proof -
  obtain u v where s: "s = u @ c # v" "c \<notin> set v"
    using assms split_list_last [of c s] last_index_byte_None [of c s] by fastforce
  with assms last_index_byte_append [OF s(2), of u] have "i = length u" by simp
  with s show "s = take i s @ c # drop (i + 1) s" "c \<notin> set (drop (i + 1) s)" "i < length s" "s ! i = c" by simp_all
qed

text \<open>\<open>SplitHostPort\<close> inverts the two ways to write an address, and accepts nothing else.\<close>

definition address_form :: "string \<Rightarrow> string \<Rightarrow> string \<Rightarrow> bool" where
  "address_form hp host port \<longleftrightarrow>
     set port \<inter> {CHR '':'', CHR ''['', CHR '']''} = {} \<and> set host \<inter> {CHR ''['', CHR '']''} = {} \<and>
     (CHR '':'' \<notin> set host \<and> hp = host @ '':'' @ port \<or> hp = ''['' @ host @ '']:'' @ port)"

lemma SplitHostPort_form:
  assumes "address_form hp host port"
  shows "SplitHostPort hp = Some (host, port)"
proof -
  have p: "CHR '':'' \<notin> set port" "CHR ''['' \<notin> set port" "CHR '']'' \<notin> set port"
    and h: "CHR ''['' \<notin> set host" "CHR '']'' \<notin> set host"
    and c: "CHR '':'' \<notin> set host \<and> hp = host @ '':'' @ port \<or> hp = ''['' @ host @ '']:'' @ port"
    using assms by (auto simp: address_form_def)
  from c show ?thesis
  proof
    assume n: "CHR '':'' \<notin> set host \<and> hp = host @ '':'' @ port"
    then have "hd hp \<noteq> CHR ''[''" using h by (cases host) auto
    with n p h last_index_byte_append [OF p(1), of host] show ?thesis
      by (simp add: SplitHostPort_def Let_def)
  next
    assume b: "hp = ''['' @ host @ '']:'' @ port"
    have "last_index_byte CHR '':'' ((''['' @ host @ '']'') @ CHR '':'' # port) = Some (length (''['' @ host @ '']''))"
      by (rule last_index_byte_append [OF p(1)])
    then have l: "last_index_byte CHR '':'' hp = Some (length host + 2)" by (simp add: b)
    have i: "index_byte CHR '']'' hp = Some (length host + 1)"
      using h by (simp add: index_byte_Some b nth_append)
    show ?thesis using p h by (simp add: SplitHostPort_def Let_def l i) (simp add: b)
  qed
qed

lemma SplitHostPort_Some:
  assumes "SplitHostPort hp = Some (host, port)"
  shows "address_form hp host port"
proof -
  obtain i where i: "last_index_byte CHR '':'' hp = Some i" using assms by (auto simp: SplitHostPort_def split: option.splits)
  note l = last_index_byte_Some [OF i]
  have port: "port = drop (i + 1) hp"
    using assms i by (auto simp: SplitHostPort_def Let_def split: option.splits if_splits)
  show ?thesis
  proof (cases "hd hp = CHR ''[''")
    case False
    with assms i have "host = take i hp" "CHR '':'' \<notin> set (take i hp)" "CHR ''['' \<notin> set hp" "CHR '']'' \<notin> set hp"
      by (auto simp: SplitHostPort_def Let_def split: if_splits)
    with l port show ?thesis
      by (auto simp: address_form_def dest: in_set_takeD in_set_dropD)
  next
    case True
    with assms i obtain e where e: "index_byte CHR '']'' hp = Some e" "e + 1 = i" "host = take (e - 1) (drop 1 hp)"
      "CHR ''['' \<notin> set (drop 1 hp)" "CHR '']'' \<notin> set (drop (e + 1) hp)"
      by (auto simp: SplitHostPort_def Let_def split: option.splits if_splits)
    from e(1) have e': "e < length hp" "hp ! e = CHR '']''" "CHR '']'' \<notin> set (take e hp)" by (simp_all add: index_byte_Some)
    obtain t where t: "hp = CHR ''['' # t" using True e'(1) by (cases hp) auto
    with e'(2) obtain d where d: "e = Suc d" by (cases e) auto
    have host: "host = take d t" using e(3) by (simp add: t d)
    have "t = take d t @ CHR '']'' # drop (Suc d) t"
      using e' id_take_nth_drop [of d t] by (simp add: t d)
    moreover have "drop (Suc d) t = CHR '':'' # port"
      using Cons_nth_drop_Suc [OF l(3)] l(4) by (simp add: t d port flip: e(2))
    ultimately have "hp = ''['' @ host @ '']:'' @ port" by (simp add: t host)
    moreover have "CHR ''['' \<notin> set host" "CHR '']'' \<notin> set host"
      using e(4) e'(3) by (auto simp: t d host dest: in_set_takeD)
    moreover have "CHR ''['' \<notin> set port" "CHR '']'' \<notin> set port"
      using e(4,5) e(2) in_set_dropD [of _ 1 "drop (e + 1) hp"] by (auto simp: port t d dest: in_set_dropD)
    ultimately show ?thesis using l(2) port by (simp add: address_form_def)
  qed
qed

definition tls_inv :: "normalizedTLSConfig \<Rightarrow> bool" where
  "tls_inv t \<longleftrightarrow> 0 \<le> nt_handshake_timeout t \<and>
     (if nt_enabled t then (\<exists>p. nt_config t = Some p \<and> (tp_server_name p \<noteq> '''' \<or> tp_insecure p))
      else nt_config t = None)"

text \<open>Verification of the peer's name is never silently lost: an enabled policy has a name to verify, or
  the caller's own policy skips verification.\<close>

lemma normalizeTLSConfig_ok:
  assumes "normalizeTLSConfig is_ip cfg address = Inr t"
  shows "tls_inv t" "nt_enabled t = tl_enabled cfg"
  using assms
  by (auto simp: normalizeTLSConfig_def bind_result_Inr Let_def tls_inv_def DefaultTLSHandshakeTimeout_def Second_def
      split: if_splits option.splits dest!: dur.resolved_nonneg)

text \<open>Which name is verified: the explicit one, then the one of the caller's policy, then the host of
  the address; everything else of the caller's policy is kept.\<close>

lemma normalizeTLSConfig_name:
  assumes "normalizeTLSConfig is_ip cfg address = Inr t" "nt_config t = Some p"
  shows "tp_server_name p =
     (if TrimSpace (tl_server_name cfg) \<noteq> '''' then TrimSpace (tl_server_name cfg)
      else if tl_config cfg \<noteq> None \<and> tp_server_name (the (tl_config cfg)) \<noteq> '''' then tp_server_name (the (tl_config cfg))
      else if tl_disable_inference cfg then '''' else configuredAddressHost is_ip address)"
    and "tl_config cfg = Some q \<Longrightarrow> p = q\<lparr>tp_server_name := tp_server_name p\<rparr>"
    and "tl_config cfg = None \<Longrightarrow> tp_min_version p = VersionTLS12 \<and> \<not> tp_insecure p"
proof -
  have p: "p = (let explicit = TrimSpace (tl_server_name cfg);
      configured = (case tl_config cfg of None \<Rightarrow> '''' | Some p \<Rightarrow> tp_server_name p);
      serverName = (if explicit = '''' then configured else explicit);
      serverName = (if serverName = '''' \<and> \<not> tl_disable_inference cfg
                    then configuredAddressHost is_ip address else serverName)
    in case tl_config cfg of None \<Rightarrow> DefaultTLSConfig serverName | Some p \<Rightarrow> p\<lparr>tp_server_name := serverName\<rparr>)"
    using assms by (auto simp: normalizeTLSConfig_def bind_result_Inr Let_def split: if_splits)
  show "tp_server_name p =
     (if TrimSpace (tl_server_name cfg) \<noteq> '''' then TrimSpace (tl_server_name cfg)
      else if tl_config cfg \<noteq> None \<and> tp_server_name (the (tl_config cfg)) \<noteq> '''' then tp_server_name (the (tl_config cfg))
      else if tl_disable_inference cfg then '''' else configuredAddressHost is_ip address)"
    by (cases "tl_config cfg") (simp_all add: p DefaultTLSConfig_def Let_def)
  show "tl_config cfg = Some q \<Longrightarrow> p = q\<lparr>tp_server_name := tp_server_name p\<rparr>"
    by (simp add: p Let_def)
  show "tl_config cfg = None \<Longrightarrow> tp_min_version p = VersionTLS12 \<and> \<not> tp_insecure p"
    by (simp add: p DefaultTLSConfig_def DefaultTLSMinVersion_def Let_def)
qed

lemma validateTCPAddress_ok:
  assumes "validateTCPAddress address = None"
  shows "\<exists>host port p. address_form address host port \<and> TrimSpace host \<noteq> '''' \<and> Atoi port = Some p \<and> 1 \<le> p \<and> p \<le> 65535"
proof -
  from assms obtain host port p where "SplitHostPort address = Some (host, port)" "TrimSpace host \<noteq> ''''"
    "Atoi port = Some p" "1 \<le> p" "p \<le> 65535"
    by (auto simp: validateTCPAddress_def split: option.splits if_splits)
  then show ?thesis using SplitHostPort_Some by blast
qed

definition tcp_inv :: "TcpClient \<Rightarrow> bool" where
  "tcp_inv c \<longleftrightarrow>
     (\<exists>core. tc_core c = Some core \<and> client_inv core \<and> (BlocksReadiness (cl_policy core) \<longrightarrow> tn_enabled (tc_check c))) \<and>
     tc_network c \<in> {''tcp'', ''tcp4'', ''tcp6''} \<and> tc_address c \<noteq> '''' \<and> \<not> contains (tc_address c) ''://'' \<and>
     0 \<le> tc_dial_timeout c \<and> -1 \<le> tc_keep_alive c \<and>
     (tc_dialer c = None \<longleftrightarrow> tc_dial_context c \<noteq> None) \<and>
     (tc_dialer c \<noteq> None \<longrightarrow> tc_dialer c = Some (tc_dial_timeout c, tc_keep_alive c) \<and>
        (\<exists>host port p. address_form (tc_address c) host port \<and> TrimSpace host \<noteq> '''' \<and> Atoi port = Some p \<and>
           1 \<le> p \<and> p \<le> 65535)) \<and>
     0 \<le> tn_timeout (tc_check c) \<and> 0 \<le> tn_stale_after (tc_check c) \<and>
     tn_probe (tc_check c) \<noteq> Some (ConnectionProbeFunc None) \<and> tls_inv (tc_tls c)"

lemma tcp_normalizeCheck_ok:
  assumes "tcp_normalizeCheckConfig cfg = Inr nc"
  shows "tn_enabled nc = tk_enabled cfg" "0 \<le> tn_timeout nc" "0 \<le> tn_stale_after nc"
    "tn_probe nc \<noteq> Some (ConnectionProbeFunc None)" "tn_probe nc = tk_probe cfg"
  using assms
  by (auto simp: tcp_normalizeCheckConfig_def bind_result_Inr DefaultTCPCheckTimeout_def
      DefaultTCPCheckStaleAfter_def Second_def split: if_splits dest!: dur.resolved_nonneg)

lemma tcp_build_core_ok:
  assumes "tcp_build_core t cfg = Inr c"
  shows "client_inv c" "BlocksReadiness (cl_policy c) = BlocksReadiness (c_policy cfg)"
proof -
  obtain cfg' where n: "new_client cfg' = Inr c" and p: "c_policy cfg' = c_policy cfg"
    using assms by (auto simp: tcp_build_core_def split: option.splits)
  show "client_inv c" by (rule new_client_inv [OF n])
  show "BlocksReadiness (cl_policy c) = BlocksReadiness (c_policy cfg)"
    using n p by (auto simp: new_client_def guard_error_Inr)
qed

lemma tcp_New_parts:
  assumes "tcp_New ext is_ip telemetry cfg = Inr c"
  obtains core where
    "tc_network c \<in> {''tcp'', ''tcp4'', ''tcp6''}" "tc_address c = TrimSpace (tcfg_address cfg)" "tc_address c \<noteq> ''''"
    "\<not> contains (tc_address c) ''://''" "tcfg_dial_context cfg = None \<Longrightarrow> validateTCPAddress (tc_address c) = None"
    "Duration ''TCP dial timeout'' (tcfg_dial_timeout cfg) (tcfg_disable_dial_timeout cfg) DefaultDialTimeout 0 =
       Inr (tc_dial_timeout c)"
    "(if tcfg_dial_context cfg \<noteq> None then
        (if tcfg_keep_alive cfg \<noteq> 0 \<or> tcfg_disable_keep_alive cfg then Inl TCPKeepAliveCustom else Inr 0)
      else map_error TCPDuration (Duration ''TCP keepalive'' (tcfg_keep_alive cfg)
        (tcfg_disable_keep_alive cfg) DefaultKeepAlive (-1))) = Inr (tc_keep_alive c)"
    "tcp_normalizeCheckConfig (tcfg_check cfg) = Inr (tc_check c)"
    "BlocksReadiness (c_policy (tcfg_config cfg)) \<longrightarrow> tn_enabled (tc_check c)"
    "normalizeTLSConfig is_ip (tcfg_tls cfg) (tc_address c) = Inr (tc_tls c)"
    "tcp_build_core telemetry (tcfg_config cfg) = Inr core" "tc_core c = Some core"
    "tc_dial_context c = tcfg_dial_context cfg"
    "tc_dialer c = (if tcfg_dial_context cfg = None then Some (tc_dial_timeout c, tc_keep_alive c) else None)"
proof -
  have guard: "(if P then Inl e else k) = Inr y \<longleftrightarrow> \<not> P \<and> k = Inr y" for P e k and y :: TcpClient
    by simp
  from assms show thesis
    unfolding tcp_New_def guard_error_Inr bind_result_Inr map_error_Inr Let_def guard
    apply (elim exE conjE)
    subgoal for dialTimeout keepAlive check tlsConfig core
      by (rule that [of core]) auto
    done
qed

lemma tcp_New_inv:
  assumes "tcp_New ext is_ip telemetry cfg = Inr c"
  shows "tcp_inv c"
proof -
  obtain core where n:
    "tc_network c \<in> {''tcp'', ''tcp4'', ''tcp6''}" "tc_address c \<noteq> ''''" "\<not> contains (tc_address c) ''://''"
    and v: "tcfg_dial_context cfg = None \<Longrightarrow> validateTCPAddress (tc_address c) = None"
    and d: "Duration ''TCP dial timeout'' (tcfg_dial_timeout cfg) (tcfg_disable_dial_timeout cfg) DefaultDialTimeout 0 =
       Inr (tc_dial_timeout c)"
    and k: "(if tcfg_dial_context cfg \<noteq> None then
        (if tcfg_keep_alive cfg \<noteq> 0 \<or> tcfg_disable_keep_alive cfg then Inl TCPKeepAliveCustom else Inr 0)
      else map_error TCPDuration (Duration ''TCP keepalive'' (tcfg_keep_alive cfg)
        (tcfg_disable_keep_alive cfg) DefaultKeepAlive (-1))) = Inr (tc_keep_alive c)"
    and ch: "tcp_normalizeCheckConfig (tcfg_check cfg) = Inr (tc_check c)"
      "BlocksReadiness (c_policy (tcfg_config cfg)) \<longrightarrow> tn_enabled (tc_check c)"
    and tl: "normalizeTLSConfig is_ip (tcfg_tls cfg) (tc_address c) = Inr (tc_tls c)"
    and co: "tcp_build_core telemetry (tcfg_config cfg) = Inr core" "tc_core c = Some core"
    and di: "tc_dial_context c = tcfg_dial_context cfg"
      "tc_dialer c = (if tcfg_dial_context cfg = None then Some (tc_dial_timeout c, tc_keep_alive c) else None)"
    using assms by (elim tcp_New_parts) (rule that; assumption)
  have "0 \<le> tc_dial_timeout c"
    using dur.resolved_nonneg [OF d] by (simp add: DefaultDialTimeout_def Second_def)
  moreover have "-1 \<le> tc_keep_alive c"
    using k by (auto split: if_splits dest!: dur.resolved_cases simp: DefaultKeepAlive_def Second_def)
  moreover have "\<exists>host port p. address_form (tc_address c) host port \<and> TrimSpace host \<noteq> '''' \<and> Atoi port = Some p \<and>
      1 \<le> p \<and> p \<le> 65535" if "tc_dialer c \<noteq> None"
    using that di v by (intro validateTCPAddress_ok) (auto split: if_splits)
  moreover have "client_inv core" "BlocksReadiness (cl_policy core) \<longrightarrow> tn_enabled (tc_check c)"
    using tcp_build_core_ok [OF co(1)] ch(2) by simp_all
  ultimately show ?thesis
    using n co(2) di tcp_normalizeCheck_ok(2,3,4) [OF ch(1)] normalizeTLSConfig_ok(1) [OF tl]
    unfolding tcp_inv_def by (intro conjI) (auto split: if_splits)
qed

text \<open>A caller's dialer owns its socket options and its address syntax.\<close>

lemma tcp_New_custom:
  assumes "tcp_New ext is_ip telemetry cfg = Inr c" "tcfg_dial_context cfg = Some d"
  shows "tc_keep_alive c = 0" "tc_dialer c = None" "tc_address c = TrimSpace (tcfg_address cfg)"
  using assms(1) by (elim tcp_New_parts; use assms(2) in \<open>auto split: if_splits\<close>)+

end
