(* ===== verification/Tcp_Dial.thy ===== *)
theory Tcp_Dial
  imports Tcp_Config
begin

text \<open>
  \<open>tcpclient/dial.go\<close>, \<open>result.go\<close> and \<open>observability.go\<close>: one connection attempt with its two stages,
  the ownership of the raw connection, its classification and its events. A dial runs against a script of
  what the dialer, the contexts, the handshake and the clock answer, and yields its effects in order. A
  panic of the caller's dialer is not contained by the code and not part of the script.
\<close>

section \<open>Attributes and results\<close>

definition telemetryNetwork :: "string \<Rightarrow> string" where
  "telemetryNetwork network = (if network \<in> {''tcp'', ''tcp4'', ''tcp6''} then network else ''unknown'')"

definition tcp_eventAttributes :: "TcpClient option \<Rightarrow> string \<Rightarrow> attribute list" where
  "tcp_eventAttributes c tlsVersion =
     (let network = (case c of None \<Rightarrow> '''' | Some c \<Rightarrow> tc_network c);
          security = (case c of None \<Rightarrow> ''plaintext''
            | Some c \<Rightarrow> if nt_enabled (tc_tls c) then ''tls''
                       else if tc_dial_context c \<noteq> None then ''custom'' else ''plaintext'')
      in [(''clientkit.network'', telemetryNetwork network), (''client.security'', security)] @
         (if tlsVersion \<noteq> '''' then [(''tls.version'', tlsVersion)] else []))"

definition tcp_healthEventAttributes :: "TcpClient option \<Rightarrow> string \<Rightarrow> attribute list" where
  "tcp_healthEventAttributes c tlsVersion =
     tcp_eventAttributes c tlsVersion @ [(''client.operation'', ''health_check'')]"

definition tcp_clientObserver :: "TcpClient option \<Rightarrow> observer" where
  "tcp_clientObserver c = (case tcp_core c of None \<Rightarrow> NopObserver | Some core \<Rightarrow> client_observer (Some core))"

datatype TcpOutcome = DialSuccess | DialTimeout | DialCanceled | DialError | DialTLSError

definition tcp_outcome_string :: "TcpOutcome \<Rightarrow> string" where
  "tcp_outcome_string out = (case out of DialSuccess \<Rightarrow> ''success'' | DialTimeout \<Rightarrow> ''timeout''
     | DialCanceled \<Rightarrow> ''canceled'' | DialError \<Rightarrow> ''dial_error'' | DialTLSError \<Rightarrow> ''tls_error'')"

text \<open>A connection is a raw one, by identity, or the TLS connection over it.\<close>

datatype connection = Raw (raw_id: nat) | Secure (raw_id: nat)

record TcpResult =
  tr_conn :: "connection option"
  tr_outcome :: TcpOutcome
  tr_failure :: FailureClass
  tr_started :: gotime
  tr_duration :: duration
  tr_err :: "goerr option"

record connectionMetadata =
  cm_tls_version :: string
  cm_handshake_failed :: bool

text \<open>
  The script of a dial, in the order the code asks: \<open>ctx.Err()\<close> before a caller's dialer, what the dialer
  returns, \<open>ctx.Err()\<close> after it, the handshake and the negotiated version.
\<close>

record dial_env =
  dv_started :: gotime
  dv_attempt_started :: gotime
  dv_ctx_before :: "ctx_err option"
  dv_conn :: "nat option"
  dv_err :: "goerr option"
  dv_ctx_after :: "ctx_err option"
  dv_handshake :: "goerr option"
  dv_version :: nat
  dv_attempt_ended :: gotime
  dv_ended :: gotime

datatype tcp_effect =
    DialStarted "attribute list OperationStartEvent"
  | DialDeadline duration
  | DialCalled string string
  | DialCancelled
  | ConnClosed nat
  | TLSWrapped nat tls_policy
  | HandshakeDeadline duration
  | Handshaken nat
  | HandshakeCancelled
  | DialAttempted "attribute list AttemptEvent"
  | DialEnded "attribute list OperationEndEvent"
  | ProbeDeadline nat gotime
  | ProbeWatched nat
  | ProbeCalled connection
  | ProbeUnwatched nat
  | ConnClosedOnCancel nat  \<comment> \<open>by the goroutine of \<open>context.AfterFunc\<close>\<close>
  | CheckDeadline duration
  | TcpCheckCancelled

section \<open>Establishing a connection\<close>

definition dialConnection :: "TcpClient \<Rightarrow> dial_env \<Rightarrow> (nat option \<times> goerr option) \<times> tcp_effect list" where
  "dialConnection c env =
     (let called = DialCalled (tc_network c) (tc_address c)
      in if tc_dial_context c \<noteq> None then
           (case dv_ctx_before env of
              Some e \<Rightarrow> ((None, Some (err_of_ctx e)), [])
            | None \<Rightarrow> (case dv_ctx_after env of
                Some e \<Rightarrow> ((None, Some (err_of_ctx e)),
                  [called] @ (case dv_conn env of None \<Rightarrow> [] | Some k \<Rightarrow> [ConnClosed k]))
              | None \<Rightarrow> ((dv_conn env, dv_err env), [called])))
         else ((dv_conn env, dv_err env), [called]))"

definition no_metadata :: connectionMetadata where
  "no_metadata = \<lparr>cm_tls_version = '''', cm_handshake_failed = False\<rparr>"

definition establishConnection ::
  "TcpClient \<Rightarrow> dial_env \<Rightarrow> (connection option \<times> connectionMetadata \<times> goerr option) \<times> tcp_effect list" where
  "establishConnection c env =
     (let opened = (if 0 < tc_dial_timeout c then [DialDeadline (tc_dial_timeout c)] else []);
          ((connection, err), dialed) = dialConnection c env;
          fx = opened @ dialed @ [DialCancelled]
      in case (connection, err) of
           (Some k, Some e) \<Rightarrow> ((None, no_metadata, Some e), fx @ [ConnClosed k])
         | (None, None) \<Rightarrow> ((None, no_metadata, Some (sentinel_error errNoConnection)), fx)
         | (None, Some e) \<Rightarrow> ((None, no_metadata, Some e), fx)
         | (Some k, None) \<Rightarrow>
             if \<not> nt_enabled (tc_tls c) then ((Some (Raw k), no_metadata, None), fx)
             else
               (let policy = (case nt_config (tc_tls c) of None \<Rightarrow> DefaultTLSConfig '''' | Some p \<Rightarrow> p);
                    timeout = nt_handshake_timeout (tc_tls c);
                    fx = fx @ [TLSWrapped k policy] @
                      (if 0 < timeout then [HandshakeDeadline timeout] else []) @ [Handshaken k, HandshakeCancelled]
                in case dv_handshake env of
                     Some e \<Rightarrow> ((None, \<lparr>cm_tls_version = '''', cm_handshake_failed = True\<rparr>, Some e), fx @ [ConnClosed k])
                   | None \<Rightarrow> ((Some (Secure k),
                       \<lparr>cm_tls_version = tlsVersionName (dv_version env), cm_handshake_failed = False\<rparr>, None), fx)))"

definition tcp_classifyFailure :: "connection option \<Rightarrow> goerr option \<Rightarrow> connectionMetadata \<Rightarrow> FailureClass" where
  "tcp_classifyFailure connection err metadata =
     (if err = None \<and> connection \<noteq> None then FailureNone
      else if err = None then FailureTransport
      else Network err (cm_handshake_failed metadata))"

definition tcp_classifyOutcome ::
  "connection option \<Rightarrow> goerr option \<Rightarrow> connectionMetadata \<Rightarrow> FailureClass \<Rightarrow> TcpOutcome" where
  "tcp_classifyOutcome connection err metadata failureClass =
     (if err = None \<and> connection \<noteq> None then DialSuccess
      else if errors_is err ContextCanceled then DialCanceled
      else if errors_is err ContextDeadlineExceeded then DialTimeout
      else if net_timeout err then DialTimeout
      else if cm_handshake_failed metadata \<or> failureClass = FailureTLS then DialTLSError
      else DialError)"

definition OperationDial :: string where
  "OperationDial = ''dial''"

definition dialObserved :: "TcpClient \<Rightarrow> dial_env \<Rightarrow> (TcpResult \<times> connectionMetadata) \<times> tcp_effect list" where
  "dialObserved c env =
     (let name = tcp_name (Some c);
          start = \<lparr>os_kind = OperationKindRemote, os_client = name, os_protocol = ProtocolTCP,
            os_operation = OperationDial, os_started_at = to_utc (dv_started env),
            os_attributes = tcp_eventAttributes (Some c) ''''\<rparr>;
          ((connection, metadata, err), fx) = establishConnection c env;
          failureClass = tcp_classifyFailure connection err metadata;
          outcome = tcp_classifyOutcome connection err metadata failureClass;
          attributes = tcp_eventAttributes (Some c) (cm_tls_version metadata);
          attempt = \<lparr>ae_client = name, ae_protocol = ProtocolTCP, ae_operation = OperationDial, ae_number = 1,
            ae_started_at = to_utc (dv_attempt_started env), ae_ended_at = to_utc (dv_attempt_ended env),
            ae_duration = time_sub (dv_attempt_ended env) (dv_attempt_started env),
            ae_outcome = tcp_outcome_string outcome, ae_succeeded = (outcome = DialSuccess),
            ae_failure = failureClass, ae_err = err, ae_attributes = attributes\<rparr>;
          result = \<lparr>tr_conn = connection, tr_outcome = outcome, tr_failure = failureClass,
            tr_started = to_utc (dv_started env), tr_duration = time_sub (dv_ended env) (dv_started env),
            tr_err = err\<rparr>;
          end_event = \<lparr>oe_client = name, oe_protocol = ProtocolTCP, oe_operation = OperationDial,
            oe_started_at = to_utc (dv_started env), oe_ended_at = to_utc (dv_ended env),
            oe_duration = tr_duration result, oe_attempts = 1, oe_outcome = tcp_outcome_string outcome,
            oe_succeeded = (outcome = DialSuccess), oe_failure = failureClass, oe_err = err,
            oe_attributes = attributes\<rparr>
      in ((result, metadata), [DialStarted start] @ fx @ [DialAttempted attempt, DialEnded end_event]))"

definition failedDialResult :: "gotime \<Rightarrow> gotime \<Rightarrow> FailureClass \<Rightarrow> goerr \<Rightarrow> TcpResult" where
  "failedDialResult startedAt now failureClass err =
     \<lparr>tr_conn = None, tr_outcome = DialError, tr_failure = failureClass, tr_started = to_utc startedAt,
      tr_duration = time_sub now startedAt, tr_err = Some err\<rparr>"

text \<open>A client that can dial: constructed, with a dialer of either kind.\<close>

definition tcp_configured :: "TcpClient option \<Rightarrow> TcpClient option" where
  "tcp_configured c = (case c of
     None \<Rightarrow> None
   | Some c \<Rightarrow> if is_nil (tc_core c) \<or> tc_dial_context c = None \<and> tc_dialer c = None then None else Some c)"

definition DialResult :: "TcpClient option \<Rightarrow> bool \<Rightarrow> dial_env \<Rightarrow> TcpResult \<times> tcp_effect list" where
  "DialResult c has_ctx env =
     (case tcp_configured c of
        None \<Rightarrow> (failedDialResult (dv_started env) (dv_ended env) FailureConfiguration
                  (errors_new ''clientkit: TCP client is not configured''), [])
      | Some cl \<Rightarrow>
          if \<not> has_ctx then (failedDialResult (dv_started env) (dv_ended env) FailureRequest
                  (errors_new ''clientkit: TCP dial context is required''), [])
          else (let ((result, _), fx) = dialObserved cl env in (result, fx)))"

definition Dial :: "TcpClient option \<Rightarrow> bool \<Rightarrow> dial_env \<Rightarrow> (connection option \<times> goerr option) \<times> tcp_effect list" where
  "Dial c has_ctx env = (let (result, fx) = DialResult c has_ctx env in ((tr_conn result, tr_err result), fx))"

definition tcp_DialContext ::
  "(rune \<Rightarrow> rune) \<Rightarrow> TcpClient option \<Rightarrow> bool \<Rightarrow> string \<Rightarrow> string \<Rightarrow> dial_env
   \<Rightarrow> (connection option \<times> goerr option) \<times> tcp_effect list" where
  "tcp_DialContext ext c has_ctx network address env =
     (case (case c of None \<Rightarrow> None | Some cl \<Rightarrow> if is_nil (tc_core cl) then None else Some cl) of
        None \<Rightarrow> ((None, Some (errors_new ''clientkit: TCP client is not configured'')), [])
      | Some cl \<Rightarrow>
          if to_lower ext (TrimSpace network) \<noteq> tc_network cl \<or> TrimSpace address \<noteq> tc_address cl
          then ((None, Some (errors_new ''clientkit: TCP dial target does not match configured endpoint'')), [])
          else Dial c has_ctx env)"

section \<open>Ownership\<close>

text \<open>The closes of one connection among the effects.\<close>

definition closes :: "nat \<Rightarrow> tcp_effect list \<Rightarrow> nat" where
  "closes k fx = tally (\<lambda>e. e = ConnClosed k) fx"

lemma closes_simps [simp]:
  "closes k [] = 0" "closes k (xs @ ys) = closes k xs + closes k ys"
  "closes k (e # xs) = of_bool (e = ConnClosed k) + closes k xs"
  by (simp_all add: closes_def)

definition dialer_called :: "tcp_effect list \<Rightarrow> bool" where
  "dialer_called fx \<longleftrightarrow> list_ex (\<lambda>e. case e of DialCalled _ _ \<Rightarrow> True | _ \<Rightarrow> False) fx"

text \<open>A connection the dialer returned is handed on, open, or closed exactly once; no other connection is
  closed; TLS is what was configured.\<close>

lemma dialer_called_simps [simp]:
  "dialer_called [] = False" "dialer_called (xs @ ys) \<longleftrightarrow> dialer_called xs \<or> dialer_called ys"
  "dialer_called (e # xs) \<longleftrightarrow> (case e of DialCalled _ _ \<Rightarrow> True | _ \<Rightarrow> False) \<or> dialer_called xs"
  by (simp_all add: dialer_called_def)

text \<open>The first stage: the dialer was not called, or its connection was kept, or closed.\<close>

lemma dialConnection_cases:
  assumes "dialConnection c env = ((k, e), fx)"
  obtains (uncalled) "k = None" "e \<noteq> None" "\<not> dialer_called fx" "\<And>j. closes j fx = 0"
  | (kept) "k = dv_conn env" "e = dv_err env" "dialer_called fx" "\<And>j. closes j fx = 0"
  | (closed) "k = None" "e \<noteq> None" "dialer_called fx" "\<And>j. closes j fx = of_bool (dv_conn env = Some j)"
  using assms
  by (cases "tc_dial_context c"; cases "dv_ctx_before env"; cases "dv_ctx_after env"; cases "dv_conn env")
     (auto simp: dialConnection_def Let_def)

lemma establish_cases:
  assumes "establishConnection c env = ((conn, m, err), fx)" "dialConnection c env = ((k, e), dialed)"
  obtains (failed) "k = None" "conn = None" "err \<noteq> None" "\<not> cm_handshake_failed m"
      "\<And>j. closes j fx = closes j dialed" "dialer_called fx = dialer_called dialed"
  | (rejected) i where "k = Some i" "conn = None" "err \<noteq> None" "\<not> cm_handshake_failed m"
      "\<And>j. closes j fx = closes j dialed + of_bool (i = j)" "dialer_called fx = dialer_called dialed"
  | (handshake) i where "k = Some i" "conn = None" "err \<noteq> None" "err = dv_handshake env" "nt_enabled (tc_tls c)"
      "cm_handshake_failed m"
      "\<And>j. closes j fx = closes j dialed + of_bool (i = j)" "dialer_called fx = dialer_called dialed"
  | (connected) i where "k = Some i" "e = None" "conn = Some (if nt_enabled (tc_tls c) then Secure i else Raw i)" "err = None"
      "\<not> cm_handshake_failed m" "\<And>j. closes j fx = closes j dialed" "dialer_called fx = dialer_called dialed"
proof (cases k)
  case None
  with assms show ?thesis
    by (intro failed) (auto simp: establishConnection_def no_metadata_def Let_def split: option.splits if_splits)
next
  case k: (Some i)
  show ?thesis
  proof (cases e)
    case (Some x)
    with assms k show ?thesis
      by (intro rejected [of i]) (auto simp: establishConnection_def no_metadata_def Let_def split: if_splits)
  next
    case None
    show ?thesis
    proof (cases "nt_enabled (tc_tls c)")
      case False
      with assms k None show ?thesis
        by (intro connected [of i]) (auto simp: establishConnection_def no_metadata_def Let_def split: if_splits)
    next
      case True
      show ?thesis
      proof (cases "dv_handshake env")
        case h: None
        with assms k None True show ?thesis
          by (intro connected [of i]) (auto simp: establishConnection_def Let_def split: if_splits)
      next
        case (Some y)
        note y = this
        from assms k None True show ?thesis
          by (intro handshake [of i]) (auto simp: establishConnection_def Let_def y split: if_splits)
      qed
    qed
  qed
qed

lemma establish_owns:
  assumes "establishConnection c env = ((conn, m, err), fx)"
  shows "dialer_called fx \<Longrightarrow> dv_conn env = Some k \<Longrightarrow> closes k fx = (if conn = None then 1 else 0)"
    and "conn = Some x \<Longrightarrow> dv_conn env = Some (raw_id x) \<and> (x = Secure (raw_id x) \<longleftrightarrow> nt_enabled (tc_tls c)) \<and>
      dialer_called fx \<and> closes (raw_id x) fx = 0"
    and "0 < closes j fx \<Longrightarrow> dv_conn env = Some j"
    and "conn = None \<longleftrightarrow> err \<noteq> None"
    and "cm_handshake_failed m \<Longrightarrow> nt_enabled (tc_tls c) \<and> err = dv_handshake env \<and> err \<noteq> None"
proof -
  obtain k' e dialed where d: "dialConnection c env = ((k', e), dialed)" by (metis prod.exhaust)
  show "dialer_called fx \<Longrightarrow> dv_conn env = Some k \<Longrightarrow> closes k fx = (if conn = None then 1 else 0)"
    by (cases rule: establish_cases [OF assms d]; cases rule: dialConnection_cases [OF d]; auto)
  show "conn = Some x \<Longrightarrow> dv_conn env = Some (raw_id x) \<and> (x = Secure (raw_id x) \<longleftrightarrow> nt_enabled (tc_tls c)) \<and>
      dialer_called fx \<and> closes (raw_id x) fx = 0"
    by (cases rule: establish_cases [OF assms d]; cases rule: dialConnection_cases [OF d]; auto split: if_splits)
  show "0 < closes j fx \<Longrightarrow> dv_conn env = Some j"
    by (cases rule: establish_cases [OF assms d]; cases rule: dialConnection_cases [OF d]; auto split: if_splits)
  show "conn = None \<longleftrightarrow> err \<noteq> None"
    "cm_handshake_failed m \<Longrightarrow> nt_enabled (tc_tls c) \<and> err = dv_handshake env \<and> err \<noteq> None"
    by (cases rule: establish_cases [OF assms d]; auto)+
qed

text \<open>The context wins over whatever a caller's dialer returns.\<close>

lemma establish_context:
  assumes "establishConnection c env = ((conn, m, err), fx)" "tc_dial_context c \<noteq> None"
    and "dv_ctx_before env = None" "dv_ctx_after env = Some e"
  shows "conn = None" "err = Some (err_of_ctx e)" "\<forall>k. dv_conn env = Some k \<longrightarrow> ConnClosed k \<in> set fx"
  using assms by (auto simp: establishConnection_def dialConnection_def Let_def split: option.splits)

section \<open>Results\<close>

text \<open>Outcome, failure class, error and connection of a dial agree.\<close>

definition tcp_result_ok :: "TcpResult \<Rightarrow> bool" where
  "tcp_result_ok r \<longleftrightarrow>
     (tr_outcome r = DialSuccess \<longleftrightarrow> tr_conn r \<noteq> None) \<and> (tr_conn r = None \<longleftrightarrow> tr_err r \<noteq> None) \<and>
     (tr_outcome r = DialSuccess \<longleftrightarrow> tr_failure r = FailureNone) \<and>
     (tr_outcome r = DialCanceled \<longleftrightarrow> tr_failure r = FailureCanceled) \<and>
     (tr_outcome r = DialTimeout \<longleftrightarrow> tr_failure r = FailureTimeout) \<and>
     (tr_outcome r = DialTLSError \<longleftrightarrow> tr_failure r = FailureTLS) \<and> validFailureClass (tr_failure r)"

lemma classified_ok:
  assumes "conn = None \<longleftrightarrow> err \<noteq> None"
  shows "tcp_result_ok \<lparr>tr_conn = conn, tr_outcome = tcp_classifyOutcome conn err m (tcp_classifyFailure conn err m),
     tr_failure = tcp_classifyFailure conn err m, tr_started = t, tr_duration = d, tr_err = err\<rparr>"
proof (cases "err = None")
  case True
  with assms show ?thesis
    by (simp add: tcp_result_ok_def tcp_classifyOutcome_def tcp_classifyFailure_def validFailureClass_def)
next
  case False
  with assms show ?thesis
    by (simp add: tcp_result_ok_def tcp_classifyOutcome_def tcp_classifyFailure_def Network_def validFailureClass_def)
qed

lemma dialObserved_parts:
  assumes "dialObserved c env = ((r, m), fx)"
  obtains conn err fx1 ev1 ev2 ev3 where "establishConnection c env = ((conn, m, err), fx1)" "tr_conn r = conn" "tr_err r = err"
    "tcp_result_ok r" "fx = [DialStarted ev1] @ fx1 @ [DialAttempted ev2, DialEnded ev3]"
    "oe_outcome ev3 = tcp_outcome_string (tr_outcome r)" "oe_failure ev3 = tr_failure r" "oe_err ev3 = tr_err r"
    "ae_outcome ev2 = oe_outcome ev3" "ae_failure ev2 = oe_failure ev3" "ae_err ev2 = oe_err ev3"
proof -
  obtain conn m' err fx1 where e: "establishConnection c env = ((conn, m', err), fx1)" by (metis prod.exhaust)
  note n = establish_owns(4) [OF e]
  show thesis
    using assms classified_ok [OF n]
    by (intro that [of conn err fx1]) (auto simp: dialObserved_def Let_def e)
qed

lemma dialObserved_owns:
  assumes "dialObserved c env = ((r, m), fx)"
  shows "dialer_called fx \<Longrightarrow> dv_conn env = Some k \<Longrightarrow> closes k fx = (if tr_conn r = None then 1 else 0)"
    and "tr_conn r = Some x \<Longrightarrow> dv_conn env = Some (raw_id x) \<and> (x = Secure (raw_id x) \<longleftrightarrow> nt_enabled (tc_tls c)) \<and>
      dialer_called fx \<and> closes (raw_id x) fx = 0"
    and "0 < closes j fx \<Longrightarrow> dv_conn env = Some j"
proof -
  obtain conn err fx1 ev1 ev2 ev3 where p: "establishConnection c env = ((conn, m, err), fx1)" "tr_conn r = conn"
    "fx = [DialStarted ev1] @ fx1 @ [DialAttempted ev2, DialEnded ev3]"
    using assms by (rule dialObserved_parts)
  have c: "closes k fx = closes k fx1" "dialer_called fx = dialer_called fx1" for k
    by (simp_all add: p(3) dialer_called_def)
  show "dialer_called fx \<Longrightarrow> dv_conn env = Some k \<Longrightarrow> closes k fx = (if tr_conn r = None then 1 else 0)"
    "tr_conn r = Some x \<Longrightarrow> dv_conn env = Some (raw_id x) \<and> (x = Secure (raw_id x) \<longleftrightarrow> nt_enabled (tc_tls c)) \<and>
      dialer_called fx \<and> closes (raw_id x) fx = 0"
    "0 < closes j fx \<Longrightarrow> dv_conn env = Some j"
    using establish_owns(1-3) [OF p(1)] unfolding c p(2) by blast+
qed

lemma DialResult_ok:
  assumes "DialResult c has_ctx env = (r, fx)" "tcp_configured c \<noteq> None" "has_ctx"
  shows "tcp_result_ok r"
    and "dialer_called fx \<Longrightarrow> dv_conn env = Some k \<Longrightarrow> closes k fx = (if tr_conn r = None then 1 else 0)"
proof -
  from assms obtain cl m where d: "dialObserved cl env = ((r, m), fx)"
    by (auto simp: DialResult_def split: prod.splits)
  show "tcp_result_ok r" using d by (rule dialObserved_parts)
  show "dialer_called fx \<Longrightarrow> dv_conn env = Some k \<Longrightarrow> closes k fx = (if tr_conn r = None then 1 else 0)"
    by (rule dialObserved_owns(1) [OF d])
qed

end
