(* ===== verification/Tcp_Check.thy ===== *)
theory Tcp_Check
  imports Tcp_Dial
begin

text \<open>
  \<open>tcpclient/check.go\<close>: the connect-and-close health check with its optional probe, the containment of
  the probe, the assessment and its recording, and the cached health with its staleness.
\<close>

section \<open>The probe\<close>

text \<open>
  The script of a check: the clock, the dial, the deadline of the check context, what \<open>SetDeadline\<close> and
  the probe do, \<open>ctx.Err()\<close> after the probe, and whether the context has ended when the callback of
  \<open>context.AfterFunc\<close> is stopped. A context that ends before that starts the callback in a goroutine of its
  own, which nobody waits for: its close of the connection comes while the probe runs, after the
  callback has been stopped, or last, after the close of the check.
\<close>

datatype cancel_close = CancelStopped | CancelDuringProbe | CancelAfterStop | CancelLast

record tcp_check_env =
  kv_started :: gotime
  kv_dial :: dial_env
  kv_deadline :: "gotime option"
  kv_set_deadline :: "unit call"
  kv_probe :: "HealthAssessment call"
  kv_probe_ctx :: "ctx_err option"
  kv_stop_ctx :: "ctx_err option"
  kv_cancel :: cancel_close
  kv_ended :: gotime

definition zero_assessment :: HealthAssessment where
  "zero_assessment = \<lparr>ha_state = HealthOther '''', ha_failure = FailureNone, ha_message = ''''\<rparr>"

definition probe_answer :: "ConnectionProbe \<Rightarrow> HealthAssessment call \<Rightarrow> HealthAssessment call" where
  "probe_answer probe answer = (case probe of
     ConnectionProbeFunc None \<Rightarrow> Returned \<lparr>ha_state = HealthUnhealthy, ha_failure = FailurePolicy,
       ha_message = ''TCP health probe is not configured''\<rparr>
   | _ \<Rightarrow> answer)"

text \<open>The callback runs only if the context ended before it was stopped; a context that has ended stays so.\<close>

definition cancel_close_at :: "tcp_check_env \<Rightarrow> cancel_close \<Rightarrow> connection \<Rightarrow> tcp_effect list" where
  "cancel_close_at env at connection =
     (if (kv_probe_ctx env \<noteq> None \<or> kv_stop_ctx env \<noteq> None) \<and> kv_cancel env = at \<and> at \<noteq> CancelStopped
      then [ConnClosedOnCancel (raw_id connection)] else [])"

text \<open>
  The assessment, whether something panicked, the context error; then the effects until the function
  returns, and what its callback still does afterwards. The deferred \<open>stopCancellation\<close> runs whether or not
  the probe panics; a panic of \<open>SetDeadline\<close> comes before the callback is registered.
\<close>

definition probeConnectionSafely ::
  "ConnectionProbe \<Rightarrow> tcp_check_env \<Rightarrow> connection
   \<Rightarrow> (HealthAssessment \<times> bool \<times> ctx_err option) \<times> tcp_effect list \<times> tcp_effect list" where
  "probeConnectionSafely probe env connection =
     (let deadline = (case kv_deadline env of None \<Rightarrow> [] | Some d \<Rightarrow> [ProbeDeadline (raw_id connection) d]);
          watched = [ProbeWatched (raw_id connection), ProbeCalled connection] @
            cancel_close_at env CancelDuringProbe connection @ [ProbeUnwatched (raw_id connection)] @
            cancel_close_at env CancelAfterStop connection;
          later = cancel_close_at env CancelLast connection
      in if kv_deadline env \<noteq> None \<and> kv_set_deadline env = Panicked
         then ((zero_assessment, True, None), deadline, [])
         else (case probe_answer probe (kv_probe env) of
                 Panicked \<Rightarrow> ((zero_assessment, True, None), deadline @ watched, later)
               | Returned a \<Rightarrow>
                   (case kv_probe_ctx env of
                      Some e \<Rightarrow> ((zero_assessment, False, Some e), deadline @ watched, later)
                    | None \<Rightarrow> ((a, False, None), deadline @ watched, later))))"

section \<open>The check\<close>

record tcp_check_result =
  tx_health :: Health
  tx_client :: "TcpClient option"
  tx_event :: "(observer \<times> attribute list HealthEvent) option"
  tx_effects :: "tcp_effect list"

definition tcp_completeCheckHealth ::
  "TcpClient option \<Rightarrow> HealthAssessment \<Rightarrow> gotime \<Rightarrow> string \<Rightarrow> gotime \<Rightarrow> tcp_effect list \<Rightarrow> tcp_check_result" where
  "tcp_completeCheckHealth c assessment startedAt tlsVersion endedAt effects =
     (let (health, core', observer, event) =
            Record (tcp_core c) ProtocolTCP assessment startedAt (tcp_healthEventAttributes c tlsVersion) endedAt
      in \<lparr>tx_health = health, tx_client = map_option (\<lambda>cl. cl\<lparr>tc_core := core'\<rparr>) c,
          tx_event = Some (observer, event), tx_effects = effects\<rparr>)"

text \<open>The switch over the dial.\<close>

definition assess_dial :: "bool \<Rightarrow> TcpResult \<Rightarrow> connectionMetadata \<Rightarrow> HealthAssessment" where
  "assess_dial tls result metadata =
     (let unhealthy = (\<lambda>failureClass message. \<lparr>ha_state = HealthUnhealthy, ha_failure = failureClass, ha_message = message\<rparr>)
      in if tr_outcome result = DialSuccess \<and> tls then
           \<lparr>ha_state = HealthHealthy, ha_failure = FailureNone, ha_message = ''TLS connection established''\<rparr>
         else if tr_outcome result = DialSuccess then
           \<lparr>ha_state = HealthHealthy, ha_failure = FailureNone, ha_message = ''TCP connection established''\<rparr>
         else if tr_outcome result = DialTimeout \<and> cm_handshake_failed metadata then
           unhealthy (tr_failure result) ''TLS handshake timed out''
         else if tr_outcome result = DialCanceled \<and> cm_handshake_failed metadata then
           unhealthy (tr_failure result) ''TLS handshake canceled''
         else if tr_outcome result = DialTLSError then unhealthy (tr_failure result) ''TLS handshake failed''
         else if tr_outcome result = DialTimeout then unhealthy (tr_failure result) ''TCP connection timed out''
         else if tr_outcome result = DialCanceled then unhealthy (tr_failure result) ''TCP connection canceled''
         else if errors_is (tr_err result) (Sentinel errNoConnection) then
           unhealthy FailureTransport ''TCP dial returned no connection''
         else unhealthy (tr_failure result) ''TCP connection failed'')"

text \<open>The switch over the probe.\<close>

definition assess_probe :: "HealthAssessment \<times> bool \<times> ctx_err option \<Rightarrow> HealthAssessment" where
  "assess_probe = (\<lambda>(assessment, panicked, contextErr).
     let unhealthy = (\<lambda>failureClass message. \<lparr>ha_state = HealthUnhealthy, ha_failure = failureClass, ha_message = message\<rparr>)
     in if panicked then unhealthy FailurePolicy ''TCP health probe panicked''
        else if contextErr = Some Canceled then unhealthy FailureCanceled ''TCP health probe canceled''
        else if contextErr = Some DeadlineExceeded then unhealthy FailureTimeout ''TCP health probe timed out''
        else if ha_state assessment \<noteq> HealthHealthy \<and> ha_state assessment \<noteq> HealthDegraded \<and>
                ha_state assessment \<noteq> HealthUnhealthy then
          unhealthy FailurePolicy ''TCP health probe returned an invalid state''
        else
          \<lparr>ha_state = ha_state assessment,
           ha_failure = (if ha_state assessment = HealthHealthy then FailureNone
                         else if ha_failure assessment = FailureNone then FailureRemoteResponse
                         else ha_failure assessment),
           ha_message = (if ha_message assessment = '''' then ''TCP health probe completed''
                         else ha_message assessment)\<rparr>)"

definition tcp_assess ::
  "TcpClient \<Rightarrow> tcp_check_env \<Rightarrow> TcpResult \<Rightarrow> connectionMetadata \<Rightarrow> HealthAssessment \<times> tcp_effect list" where
  "tcp_assess c env result metadata =
     (let dialed = assess_dial (nt_enabled (tc_tls c)) result metadata;
          shut = (case tr_conn result of None \<Rightarrow> [] | Some x \<Rightarrow> [ConnClosed (raw_id x)])
      in case (tn_probe (tc_check c), tr_conn result) of
           (Some probe, Some connection) \<Rightarrow>
             if ha_state dialed = HealthHealthy
             then (let (answer, fx, later) = probeConnectionSafely probe env connection
                   in (assess_probe answer, fx @ shut @ later))
             else (dialed, shut)
         | _ \<Rightarrow> (dialed, shut))"

text \<open>The context of a check: its deadline, when one is configured, and the deferred cancellation.\<close>

definition tcp_check_scope :: "duration \<Rightarrow> tcp_effect list \<Rightarrow> tcp_effect list" where
  "tcp_check_scope timeout effects = (if 0 < timeout then [CheckDeadline timeout] else []) @ effects @ [TcpCheckCancelled]"

definition tcp_Check :: "tcp_check_env \<Rightarrow> TcpClient option \<Rightarrow> bool \<Rightarrow> tcp_check_result" where
  "tcp_Check env c has_ctx =
     (case tcp_configured c of
        None \<Rightarrow> tcp_completeCheckHealth c
          \<lparr>ha_state = HealthUnhealthy, ha_failure = FailureConfiguration, ha_message = ''TCP client is not configured''\<rparr>
          (kv_started env) '''' (kv_ended env) []
      | Some cl \<Rightarrow>
          if \<not> tn_enabled (tc_check cl) then
            \<lparr>tx_health = health_of HealthUnknown FailureNone ''TCP health check is disabled'', tx_client = c,
             tx_event = None, tx_effects = []\<rparr>
          else if \<not> has_ctx then tcp_completeCheckHealth c
            \<lparr>ha_state = HealthUnhealthy, ha_failure = FailureRequest,
             ha_message = ''TCP health check context is required''\<rparr> (kv_started env) '''' (kv_ended env) []
          else
            (let ((result, metadata), fx) = dialObserved cl (kv_dial env);
                 (assessment, probed) = tcp_assess cl env result metadata
             in tcp_completeCheckHealth c assessment (kv_started env) (cm_tls_version metadata) (kv_ended env)
                  (tcp_check_scope (tn_timeout (tc_check cl)) (fx @ probed))))"

definition tcp_HealthCheckEnabled :: "TcpClient option \<Rightarrow> bool" where
  "tcp_HealthCheckEnabled c = (case c of None \<Rightarrow> False | Some c \<Rightarrow> tc_core c \<noteq> None \<and> tn_enabled (tc_check c))"

lemmas [accessors] = tcp_HealthCheckEnabled_def

definition tcp_Health :: "gotime \<Rightarrow> TcpClient option \<Rightarrow> Health" where
  "tcp_Health now c = (case c of
     None \<Rightarrow> health_of HealthUnknown FailureNone ''TCP client health is unavailable''
   | Some cl \<Rightarrow> (case tc_core cl of
       None \<Rightarrow> health_of HealthUnknown FailureNone ''TCP client health is unavailable''
     | Some core \<Rightarrow>
         if \<not> tn_enabled (tc_check cl) then cl_health core
         else ProjectStaleness (cl_health core) (tn_stale_after (tc_check cl)) ''TCP health check'' now))"

definition tcp_Snapshot :: "gotime \<Rightarrow> TcpClient option \<Rightarrow> ClientSnapshot" where
  "tcp_Snapshot now c = \<lparr>cs_name = tcp_name c, cs_protocol = tcp_protocol c,
     cs_policy = tcp_readiness c, cs_health = tcp_Health now c\<rparr>"

section \<open>What a check establishes\<close>

text \<open>How often the callback closed a connection, and how often the probe was called.\<close>

definition cancel_closes :: "nat \<Rightarrow> tcp_effect list \<Rightarrow> nat" where
  "cancel_closes k fx = tally (\<lambda>e. e = ConnClosedOnCancel k) fx"

definition probe_calls :: "tcp_effect list \<Rightarrow> nat" where
  "probe_calls fx = tally (\<lambda>e. \<exists>x. e = ProbeCalled x) fx"

lemma cancel_close_simps [simp]:
  "closes k (cancel_close_at env at x) = 0" "\<not> dialer_called (cancel_close_at env at x)"
  "cancel_closes k (cancel_close_at env CancelStopped x) = 0" "probe_calls (cancel_close_at env at x) = 0"
  by (simp_all add: cancel_close_at_def cancel_closes_def probe_calls_def)

lemma cancel_closes_simps [simp]:
  "cancel_closes k [] = 0" "cancel_closes k (fx @ gx) = cancel_closes k fx + cancel_closes k gx"
  "cancel_closes k (e # fx) = of_bool (e = ConnClosedOnCancel k) + cancel_closes k fx"
  "probe_calls [] = 0" "probe_calls (fx @ gx) = probe_calls fx + probe_calls gx"
  "probe_calls (e # fx) = of_bool (\<exists>x. e = ProbeCalled x) + probe_calls fx"
  by (simp_all add: cancel_closes_def probe_calls_def)

text \<open>The probe is called at most once; the callback closes the connection at most once, and only the one it watches.\<close>

definition cancelled :: "tcp_check_env \<Rightarrow> bool" where
  "cancelled env \<longleftrightarrow> (kv_probe_ctx env \<noteq> None \<or> kv_stop_ctx env \<noteq> None) \<and> kv_cancel env \<noteq> CancelStopped"

lemma probe_effects:
  assumes "probeConnectionSafely probe env x = (answer, fx, later)"
  shows "closes k fx = 0" "\<not> dialer_called fx" "closes k later = 0" "\<not> dialer_called later" "probe_calls later = 0"
    and "probe_calls fx = of_bool (kv_deadline env = None \<or> kv_set_deadline env \<noteq> Panicked)"
    and "cancel_closes k (fx @ later) =
      of_bool (raw_id x = k \<and> cancelled env) * probe_calls fx"
proof -
  have cc: "cancel_closes k (cancel_close_at env CancelDuringProbe x) + cancel_closes k (cancel_close_at env CancelAfterStop x) +
      cancel_closes k (cancel_close_at env CancelLast x) = of_bool (raw_id x = k \<and> cancelled env)"
    by (cases "kv_cancel env") (auto simp: cancel_close_at_def cancelled_def)
  show "closes k fx = 0" "\<not> dialer_called fx" "closes k later = 0" "\<not> dialer_called later" "probe_calls later = 0"
    "probe_calls fx = of_bool (kv_deadline env = None \<or> kv_set_deadline env \<noteq> Panicked)"
    using assms by (auto simp: probeConnectionSafely_def Let_def split: if_splits call.splits option.splits)
  show "cancel_closes k (fx @ later) = of_bool (raw_id x = k \<and> cancelled env) * probe_calls fx"
    using assms cc [symmetric]
    by (auto simp: probeConnectionSafely_def Let_def split: if_splits call.splits option.splits)
qed

text \<open>A probe can only report one of three states; a failure class accompanies every unhealthy one.\<close>

lemma assess_probe_spec:
  "ha_state (assess_probe a) \<in> {HealthHealthy, HealthDegraded, HealthUnhealthy}"
  "ha_state (assess_probe a) = HealthHealthy \<longleftrightarrow> ha_failure (assess_probe a) = FailureNone"
  "ha_state (assess_probe a) = HealthHealthy \<longleftrightarrow>
     (\<exists>h. a = (h, False, None) \<and> ha_state h = HealthHealthy)"
proof -
  obtain h p e where a: "a = (h, p, e)" by (cases a) auto
  show "ha_state (assess_probe a) \<in> {HealthHealthy, HealthDegraded, HealthUnhealthy}"
    "ha_state (assess_probe a) = HealthHealthy \<longleftrightarrow> ha_failure (assess_probe a) = FailureNone"
    by (auto simp: a assess_probe_def Let_def)
  have "e = None \<or> e = Some Canceled \<or> e = Some DeadlineExceeded" by (cases e rule: option.exhaust) (auto, metis ctx_err.exhaust)
  then show "ha_state (assess_probe a) = HealthHealthy \<longleftrightarrow> (\<exists>h. a = (h, False, None) \<and> ha_state h = HealthHealthy)"
    by (auto simp: a assess_probe_def Let_def)
qed

lemma assess_dial_spec:
  assumes "tcp_result_ok r"
  shows "ha_state (assess_dial tls r m) = (if tr_outcome r = DialSuccess then HealthHealthy else HealthUnhealthy)"
    and "ha_state (assess_dial tls r m) = HealthHealthy \<longleftrightarrow> ha_failure (assess_dial tls r m) = FailureNone"
    and "validFailureClass (ha_failure (assess_dial tls r m))" "plain_text (ha_message (assess_dial tls r m))"
proof -
  show "ha_state (assess_dial tls r m) = (if tr_outcome r = DialSuccess then HealthHealthy else HealthUnhealthy)"
    "validFailureClass (ha_failure (assess_dial tls r m))" "plain_text (ha_message (assess_dial tls r m))"
    using assms
    by (cases "tr_conn r"; cases "tr_err r"; simp add: assess_dial_def Let_def tcp_result_ok_def validFailureClass_def plain_text_def
        DefaultMaxHealthMessageBytes_def)+
  show "ha_state (assess_dial tls r m) = HealthHealthy \<longleftrightarrow> ha_failure (assess_dial tls r m) = FailureNone"
    using assms by (cases "tr_conn r"; cases "tr_err r"; simp add: assess_dial_def Let_def tcp_result_ok_def)
qed

text \<open>A panic of the probe, an ended context or an invalid state never makes a check healthy.\<close>

definition probe_healthy :: "ConnectionProbe \<Rightarrow> tcp_check_env \<Rightarrow> bool" where
  "probe_healthy probe env \<longleftrightarrow>
     \<not> (kv_deadline env \<noteq> None \<and> kv_set_deadline env = Panicked) \<and> kv_probe_ctx env = None \<and>
     (\<exists>h. probe_answer probe (kv_probe env) = Returned h \<and> ha_state h = HealthHealthy)"

lemma probe_safely_healthy:
  assumes "probeConnectionSafely probe env x = (answer, fx, later)"
  shows "ha_state (assess_probe answer) = HealthHealthy \<longleftrightarrow> probe_healthy probe env"
  unfolding assess_probe_spec(3) probe_healthy_def
  using assms
  by (cases "probe_answer probe (kv_probe env)"; cases "kv_probe_ctx env")
     (auto simp: probeConnectionSafely_def Let_def split: if_splits)

lemma tcp_assess_spec:
  assumes "tcp_result_ok r" "tcp_assess c env r m = (a, fx)"
  shows "ha_state a = HealthHealthy \<longleftrightarrow>
      tr_conn r \<noteq> None \<and> (\<forall>probe. tn_probe (tc_check c) = Some probe \<longrightarrow> probe_healthy probe env)"
    and "ha_state a = HealthHealthy \<longleftrightarrow> ha_failure a = FailureNone"
    and "ha_state a \<in> {HealthHealthy, HealthDegraded, HealthUnhealthy}"
    and "closes k fx = (case tr_conn r of None \<Rightarrow> 0 | Some x \<Rightarrow> of_bool (raw_id x = k))"
    and "tr_conn r = Some x \<Longrightarrow> \<exists>pre post. fx = pre @ ConnClosed (raw_id x) # post \<and> closes k pre = 0 \<and> closes k post = 0 \<and>
      probe_calls post = 0"
    and "\<not> dialer_called fx"
    and "probe_calls fx = of_bool (tn_probe (tc_check c) \<noteq> None \<and> tr_conn r \<noteq> None \<and>
      (kv_deadline env = None \<or> kv_set_deadline env \<noteq> Panicked))"
    and "cancel_closes k fx = of_bool (cancelled env \<and> map_option raw_id (tr_conn r) = Some k) * probe_calls fx"
proof -
  note d = assess_dial_spec [OF assms(1), of "nt_enabled (tc_tls c)" m]
  have s: "tr_outcome r = DialSuccess \<longleftrightarrow> tr_conn r \<noteq> None" using assms(1) unfolding tcp_result_ok_def by blast
  consider (plain) "a = assess_dial (nt_enabled (tc_tls c)) r m" "tn_probe (tc_check c) = None \<or> tr_conn r = None"
      "fx = (case tr_conn r of None \<Rightarrow> [] | Some x \<Rightarrow> [ConnClosed (raw_id x)])"
    | (probed) probe x answer pfx later where "tn_probe (tc_check c) = Some probe" "tr_conn r = Some x"
      "probeConnectionSafely probe env x = (answer, pfx, later)" "a = assess_probe answer"
      "fx = pfx @ [ConnClosed (raw_id x)] @ later"
  proof (cases "tn_probe (tc_check c) = None \<or> tr_conn r = None")
    case True
    then show ?thesis
      using assms(2) by (intro that(1)) (auto simp: tcp_assess_def Let_def split: option.splits)
  next
    case False
    then obtain probe x where p: "tn_probe (tc_check c) = Some probe" "tr_conn r = Some x" by auto
    obtain answer pfx later where a: "probeConnectionSafely probe env x = (answer, pfx, later)" by (metis prod_cases3)
    from p assms(2) d(1) s a show ?thesis
      by (intro that(2) [OF p a]) (simp_all add: tcp_assess_def Let_def)
  qed
  note c = this
  show "ha_state a = HealthHealthy \<longleftrightarrow>
      tr_conn r \<noteq> None \<and> (\<forall>probe. tn_probe (tc_check c) = Some probe \<longrightarrow> probe_healthy probe env)"
    by (cases rule: c) (use d(1) s in auto, simp_all add: probe_safely_healthy)
  show "ha_state a = HealthHealthy \<longleftrightarrow> ha_failure a = FailureNone"
    by (cases rule: c) (use d(2) in simp, simp only: assess_probe_spec(2))
  show "ha_state a \<in> {HealthHealthy, HealthDegraded, HealthUnhealthy}"
    by (cases rule: c) (use d(1) in simp, simp only: assess_probe_spec(1))
  show "closes k fx = (case tr_conn r of None \<Rightarrow> 0 | Some x \<Rightarrow> of_bool (raw_id x = k))"
    by (cases rule: c) (auto simp: probe_effects split: option.split)
  show "\<exists>pre post. fx = pre @ ConnClosed (raw_id x) # post \<and> closes k pre = 0 \<and> closes k post = 0 \<and> probe_calls post = 0"
    if "tr_conn r = Some x"
  proof (cases rule: c)
    case plain
    with that show ?thesis by (intro exI [of _ "[]"]) simp
  next
    case (probed probe y answer pfx later)
    with that probe_effects [OF probed(3)] show ?thesis by (intro exI [of _ pfx] exI [of _ later]) simp
  qed
  show "\<not> dialer_called fx"
    by (cases rule: c) (auto simp: probe_effects split: option.split)
  show calls: "probe_calls fx = of_bool (tn_probe (tc_check c) \<noteq> None \<and> tr_conn r \<noteq> None \<and>
      (kv_deadline env = None \<or> kv_set_deadline env \<noteq> Panicked))"
    by (cases rule: c) (auto simp: probe_effects split: option.split)
  show "cancel_closes k fx = of_bool (cancelled env \<and> map_option raw_id (tr_conn r) = Some k) * probe_calls fx"
  proof (cases rule: c)
    case plain
    then show ?thesis by (auto simp: calls split: option.split)
  next
    case (probed probe y answer pfx later)
    with probe_effects(5) [OF probed(3)] probe_effects(7) [OF probed(3), of k] show ?thesis by (auto simp: of_bool_def)
  qed
qed

lemma tcp_complete:
  assumes "tcp_completeCheckHealth c a t0 v t1 fx = res"
  shows "\<exists>obs ev. tx_event res = Some (obs, ev) \<and> he_state ev = h_state (tx_health res) \<and>
      he_failure ev = h_failure (tx_health res) \<and> he_message ev = h_message (tx_health res)"
    and "tcp_core c = Some core \<Longrightarrow> \<exists>core'. tcp_core (tx_client res) = Some core' \<and> cl_health core' = tx_health res \<and>
      cl_name core' = cl_name core"
    and "tx_effects res = fx"
    and "tcp_core c = Some core \<Longrightarrow> tx_health res = fst (UpdateHealth core
      \<lparr>h_state = ha_state a, h_failure = ha_failure a, h_checked_at = to_utc t1, h_duration = time_sub t1 t0,
       h_message = ha_message a\<rparr>)"
proof -
  obtain h core' obs ev where rec: "Record (tcp_core c) ProtocolTCP a t0 (tcp_healthEventAttributes c v) t1 = (h, core', obs, ev)"
    by (metis prod_cases4)
  note e = Record_event [OF rec]
  have res: "res = \<lparr>tx_health = h, tx_client = map_option (\<lambda>cl. cl\<lparr>tc_core := core'\<rparr>) c, tx_event = Some (obs, ev),
      tx_effects = fx\<rparr>"
    using assms by (simp add: tcp_completeCheckHealth_def rec)
  show "\<exists>obs ev. tx_event res = Some (obs, ev) \<and> he_state ev = h_state (tx_health res) \<and>
      he_failure ev = h_failure (tx_health res) \<and> he_message ev = h_message (tx_health res)"
    using e by (simp add: res)
  show "tx_effects res = fx" by (simp add: res)
  assume core: "tcp_core c = Some core"
  then obtain cl where cl: "c = Some cl" by (cases c) (auto simp: tcp_core_def)
  from rec core obtain k where k: "core' = Some k" "cl_health k = h" "cl_name k = cl_name core"
    by (auto simp: Record_def Let_def split: prod.splits dest: UpdateHealth_identity)
  then show "\<exists>core'. tcp_core (tx_client res) = Some core' \<and> cl_health core' = tx_health res \<and> cl_name core' = cl_name core"
    by (simp add: res tcp_core_def cl)
  show "tx_health res = fst (UpdateHealth core
      \<lparr>h_state = ha_state a, h_failure = ha_failure a, h_checked_at = to_utc t1, h_duration = time_sub t1 t0,
       h_message = ha_message a\<rparr>)"
    using rec core by (auto simp: res Record_def Let_def split: prod.splits)
qed

text \<open>An enabled check of a constructed client: what it recorded, and the fate of the connection.\<close>

lemma check_scope_closes [simp]:
  "closes k (tcp_check_scope t fx) = closes k fx" "dialer_called (tcp_check_scope t fx) = dialer_called fx"
  "cancel_closes k (tcp_check_scope t fx) = cancel_closes k fx" "probe_calls (tcp_check_scope t fx) = probe_calls fx"
  by (simp_all add: tcp_check_scope_def)

lemma tcp_check_enabled:
  assumes "tcp_configured (Some c) = Some c" "tn_enabled (tc_check c)" "tc_core c = Some core"
    and "tcp_Check env (Some c) True = res"
  obtains r m fx a pfx where "dialObserved c (kv_dial env) = ((r, m), fx)" "tcp_result_ok r"
    "tcp_assess c env r m = (a, pfx)" "tx_effects res = tcp_check_scope (tn_timeout (tc_check c)) (fx @ pfx)"
    "tx_health res = fst (UpdateHealth core
      \<lparr>h_state = ha_state a, h_failure = ha_failure a, h_checked_at = to_utc (kv_ended env),
       h_duration = time_sub (kv_ended env) (kv_started env), h_message = ha_message a\<rparr>)"
proof -
  obtain r m fx where d: "dialObserved c (kv_dial env) = ((r, m), fx)" by (metis prod.exhaust)
  obtain a pfx where a: "tcp_assess c env r m = (a, pfx)" by fastforce
  have res: "tcp_completeCheckHealth (Some c) a (kv_started env) (cm_tls_version m) (kv_ended env)
      (tcp_check_scope (tn_timeout (tc_check c)) (fx @ pfx)) = res"
    using assms d a by (simp add: tcp_Check_def)
  have core: "tcp_core (Some c) = Some core" using assms(3) by (simp add: tcp_core_def)
  have "tcp_result_ok r" using d by (rule dialObserved_parts)
  then show thesis using d a tcp_complete(3) [OF res] tcp_complete(4) [OF res core] by (intro that)
qed

text \<open>A dial calls no probe and has no callback of one.\<close>

lemma dial_unprobed:
  assumes "dialObserved c env = (r, fx)"
  shows "probe_calls fx = 0" "cancel_closes k fx = 0"
proof -
  have "probe_calls (snd (establishConnection c env)) = 0" "cancel_closes k (snd (establishConnection c env)) = 0"
    by (simp_all add: establishConnection_def dialConnection_def Let_def split: option.split prod.split)
  then show "probe_calls fx = 0" "cancel_closes k fx = 0"
    using assms by (auto simp: dialObserved_def Let_def split: prod.splits)
qed

text \<open>
  The connection the dialer handed over: the check closes it once, and calls no probe afterwards; if the
  probe was called and the context ended, the callback closes it a second time.
\<close>

lemma tcp_check_closes:
  assumes "tcp_configured (Some c) = Some c" "tn_enabled (tc_check c)" "tc_core c = Some core"
    and "dialer_called (tx_effects (tcp_Check env (Some c) True))" "dv_conn (kv_dial env) = Some k"
  shows "\<exists>pre post. tx_effects (tcp_Check env (Some c) True) = pre @ ConnClosed k # post \<and>
      closes k pre = 0 \<and> closes k post = 0 \<and> probe_calls post = 0"
    and "cancel_closes k (tx_effects (tcp_Check env (Some c) True)) =
      of_bool (cancelled env) * probe_calls (tx_effects (tcp_Check env (Some c) True))"
    and "probe_calls (tx_effects (tcp_Check env (Some c) True)) =
      of_bool (tn_probe (tc_check c) \<noteq> None \<and> tr_conn (fst (fst (dialObserved c (kv_dial env)))) \<noteq> None \<and>
        (kv_deadline env = None \<or> kv_set_deadline env \<noteq> Panicked))"
proof -
  obtain r m fx a pfx where p: "dialObserved c (kv_dial env) = ((r, m), fx)" "tcp_result_ok r"
    "tcp_assess c env r m = (a, pfx)" "tx_effects (tcp_Check env (Some c) True) = tcp_check_scope (tn_timeout (tc_check c)) (fx @ pfx)"
    using tcp_check_enabled [OF assms(1-3) refl] by metis
  note spec = tcp_assess_spec [OF p(2,3)] and dial = dial_unprobed [OF p(1)]
  have called: "dialer_called fx" using assms(4) spec(6) by (simp add: p(4))
  note own = dialObserved_owns(1) [OF p(1) called assms(5)] dialObserved_owns(2) [OF p(1)]
  show "probe_calls (tx_effects (tcp_Check env (Some c) True)) =
      of_bool (tn_probe (tc_check c) \<noteq> None \<and> tr_conn (fst (fst (dialObserved c (kv_dial env)))) \<noteq> None \<and>
        (kv_deadline env = None \<or> kv_set_deadline env \<noteq> Panicked))"
    by (simp add: p(1,4) spec(7) dial)
  show "cancel_closes k (tx_effects (tcp_Check env (Some c) True)) =
      of_bool (cancelled env) * probe_calls (tx_effects (tcp_Check env (Some c) True))"
    using own(2) assms(5) by (cases "tr_conn r") (auto simp: p(4) spec(7,8) dial)
  show "\<exists>pre post. tx_effects (tcp_Check env (Some c) True) = pre @ ConnClosed k # post \<and>
      closes k pre = 0 \<and> closes k post = 0 \<and> probe_calls post = 0"
  proof (cases "tr_conn r")
    case None
    then have one: "closes k fx = 1" "closes k pfx = 0" "probe_calls pfx = 0" using own(1) spec(4) [of k] spec(7) by simp_all
    obtain pre post where fx: "fx = pre @ ConnClosed k # post"
      using one(1) tally_pos [of "\<lambda>e. e = ConnClosed k" fx] by (force simp: closes_def dest: split_list)
    with one dial(1) show ?thesis
      by (intro exI [of _ "(if 0 < tn_timeout (tc_check c) then [CheckDeadline (tn_timeout (tc_check c))] else []) @ pre"]
          exI [of _ "post @ pfx @ [TcpCheckCancelled]"]) (simp add: p(4) tcp_check_scope_def)
  next
    case (Some x)
    then have k: "raw_id x = k" "closes k fx = 0" using own assms(5) by auto
    obtain pre post where pfx: "pfx = pre @ ConnClosed k # post" "closes k pre = 0" "closes k post = 0" "probe_calls post = 0"
      using spec(5) [OF Some, of k] k(1) by blast
    with k(2) show ?thesis
      by (intro exI [of _ "(if 0 < tn_timeout (tc_check c) then [CheckDeadline (tn_timeout (tc_check c))] else []) @ fx @ pre"]
          exI [of _ "post @ [TcpCheckCancelled]"]) (simp add: p(4) tcp_check_scope_def)
  qed
qed

end
