(* ===== verification/Ck_Registry.thy ===== *)
theory Ck_Registry
  imports Ck_Client "HOL-Library.AList" "HOL-Library.Multiset"
begin

text \<open>
  \<open>registry.go\<close> and \<open>registered_client.go\<close>: construction, the validated and atomic registration of
  clients, lookup, the passive snapshot with the projection of synthesized failures, the publication of
  check outcomes, and the release of idle connections. The map of clients is an association list, whose
  order is the order in which one \<open>range\<close> happens to visit it.
\<close>

section \<open>Registered clients\<close>

text \<open>
  What a caller-supplied client answers. Metadata methods may panic. The optional interfaces are fields:
  \<open>HealthChecker\<close>, \<open>HealthCheckConfigurable\<close> (its answer, when implemented) and \<open>IdleConnectionCloser\<close>
  (what its method does, when implemented). \<open>gc_id\<close> identifies the client; \<open>gc_nil_pointer\<close> is a typed
  nil pointer.
\<close>

record RegisteredClient =
  gc_id :: nat
  gc_nil_pointer :: bool
  gc_name :: "string call"
  gc_protocol :: "string call"
  gc_policy :: "ReadinessPolicy call"
  gc_checker :: bool
  gc_configurable :: "bool call option"
  gc_closer :: "unit call option"

record registryHealthOverride =
  ov_health :: Health
  ov_decided_at :: gotime

record registeredClientEntry =
  ge_client :: RegisteredClient
  ge_protocol :: string
  ge_policy :: ReadinessPolicy
  ge_enabled :: bool
  ge_synthetic :: "registryHealthOverride option"
  ge_slot :: bool

text \<open>\<open>ge_slot\<close> tells whether the token of the one-place channel \<open>checkSlot\<close> is in the channel; it is
  taken out for the time of a check.\<close>

record validatedRegistration =
  vr_name :: string
  vr_protocol :: string
  vr_policy :: ReadinessPolicy
  vr_enabled :: bool
  vr_client :: RegisteredClient

section \<open>Component identity\<close>

record ComponentInfo =
  ci_name :: string
  ci_kind :: string
  ci_description :: string
  ci_labels :: "attribute list"

definition defaultRegistryComponentInfo :: ComponentInfo where
  "defaultRegistryComponentInfo =
     \<lparr>ci_name = ''clients'', ci_kind = ''client_registry'',
      ci_description = ''Clientkit outbound client registry'', ci_labels = [(''kit'', ''clientkit'')]\<rparr>"

text \<open>The backward loop over the labels, from index \<open>n - 1\<close> down to 0.\<close>

fun drop_kit_labels :: "nat \<Rightarrow> attribute list \<Rightarrow> attribute list" where
  "drop_kit_labels 0 labels = labels"
| "drop_kit_labels (Suc n) labels =
     drop_kit_labels n (if fst (labels ! n) = ''kit'' then take n labels @ drop (n + 1) labels else labels)"

definition normalizeRegistryComponentInfo :: "ComponentInfo \<Rightarrow> ComponentInfo" where
  "normalizeRegistryComponentInfo info =
     (let base = defaultRegistryComponentInfo
      in \<lparr>ci_name = (if ci_name info \<noteq> '''' then ci_name info else ci_name base),
          ci_kind = (if ci_kind info \<noteq> '''' then ci_kind info else ci_kind base),
          ci_description = (if ci_description info \<noteq> '''' then ci_description info else ci_description base),
          ci_labels = (if length (ci_labels info) > 0
            then drop_kit_labels (length (ci_labels info)) (ci_labels info) @ [(''kit'', ''clientkit'')]
            else ci_labels base)\<rparr>)"

lemma drop_kit_labels_filter:
  "n \<le> length labels \<Longrightarrow>
   drop_kit_labels n labels = filter (\<lambda>l. fst l \<noteq> ''kit'') (take n labels) @ drop n labels"
proof (induction n arbitrary: labels)
  case (Suc n)
  then have n: "n < length labels" by simp
  then have t: "take (Suc n) labels = take n labels @ [labels ! n]"
    and d: "drop n labels = labels ! n # drop (Suc n) labels"
    by (simp_all add: take_Suc_conv_app_nth Cons_nth_drop_Suc)
  show ?case using Suc.IH n by (simp add: t d)
qed simp

text \<open>Whatever labels are configured, the component carries the kit label exactly once, last, and keeps
  the others in order.\<close>

lemma component_labels:
  assumes "labels = ci_labels (normalizeRegistryComponentInfo info)"
  shows "filter (\<lambda>l. fst l = ''kit'') labels = [(''kit'', ''clientkit'')]"
    and "last labels = (''kit'', ''clientkit'')"
    and "filter (\<lambda>l. fst l \<noteq> ''kit'') labels = filter (\<lambda>l. fst l \<noteq> ''kit'') (ci_labels info)"
  using drop_kit_labels_filter [of "length (ci_labels info)" "ci_labels info"]
  by (auto simp: assms normalizeRegistryComponentInfo_def defaultRegistryComponentInfo_def Let_def)

section \<open>Construction\<close>

definition DefaultMaxConcurrentChecks :: int where
  "DefaultMaxConcurrentChecks = 4"

record RegistryConfig =
  gf_max_checks :: int
  gf_component :: ComponentInfo
  gf_sanitizer :: "HealthSanitizer option"
  gf_disable_sanitizer :: bool

text \<open>\<open>rg_permits\<close> is the number of permits in the channel \<open>checkPermits\<close>, created on first use with the
  capacity \<open>normalizedMaxConcurrentChecks\<close>.\<close>

record Registry =
  rg_clients :: "(string \<times> registeredClientEntry) list"
  rg_max_checks :: int
  rg_permits :: nat
  rg_component :: ComponentInfo
  rg_sanitizer :: "HealthSanitizer option"
  rg_disable_sanitizer :: bool

datatype registry_error =
    RegistryNegativeChecks | RegistryComponentName string goerr | RegistrySanitizerSetAndDisabled
  | RegistryRequired | RegisterNil | RegisterNamePanicked | RegisterName name_error
  | RegisterProtocolPanicked | RegisterProtocol string protocol_error
  | RegisterPolicyPanicked | RegisterPolicy string readiness_error
  | RegisterEnablementPanicked string | RegisterCheckRequired string
  | RegisterDuplicate string | RegisterExists string

definition NewRegistry :: Registry where
  "NewRegistry = \<lparr>rg_clients = [], rg_max_checks = DefaultMaxConcurrentChecks, rg_permits = 0,
     rg_component = defaultRegistryComponentInfo, rg_sanitizer = Some DefaultHealthSanitizer,
     rg_disable_sanitizer = False\<rparr>"

text \<open>\<open>opskit.ValidateComponentName\<close> is the parameter \<open>validate_component\<close>.\<close>

definition NewRegistryWithConfig ::
  "(string \<Rightarrow> goerr option) \<Rightarrow> RegistryConfig \<Rightarrow> (registry_error, Registry) result" where
  "NewRegistryWithConfig validate_component cfg =
     (if gf_max_checks cfg < 0 then Inl RegistryNegativeChecks
      else
        (let checks = (if gf_max_checks cfg = 0 then DefaultMaxConcurrentChecks else gf_max_checks cfg);
             info = normalizeRegistryComponentInfo (gf_component cfg)
         in case validate_component (ci_name info) of
              Some e \<Rightarrow> Inl (RegistryComponentName (ci_name info) e)
            | None \<Rightarrow>
                if gf_disable_sanitizer cfg \<and> \<not> is_nil (gf_sanitizer cfg)
                then Inl RegistrySanitizerSetAndDisabled
                else Inr \<lparr>rg_clients = [], rg_max_checks = checks, rg_permits = 0, rg_component = info,
                  rg_sanitizer = (if \<not> gf_disable_sanitizer cfg \<and> is_nil (gf_sanitizer cfg)
                                  then Some DefaultHealthSanitizer else gf_sanitizer cfg),
                  rg_disable_sanitizer = gf_disable_sanitizer cfg\<rparr>))"

definition normalizedMaxConcurrentChecks :: "Registry option \<Rightarrow> int" where
  "normalizedMaxConcurrentChecks r = (case r of
     None \<Rightarrow> DefaultMaxConcurrentChecks
   | Some r \<Rightarrow> if rg_max_checks r \<le> 0 then DefaultMaxConcurrentChecks else rg_max_checks r)"

lemma max_checks_pos: "0 < normalizedMaxConcurrentChecks r"
  by (simp add: normalizedMaxConcurrentChecks_def DefaultMaxConcurrentChecks_def split: option.split)

section \<open>Registration\<close>

definition isNilRegisteredClient :: "RegisteredClient option \<Rightarrow> bool" where
  "isNilRegisteredClient c = (case c of None \<Rightarrow> True | Some c \<Rightarrow> gc_nil_pointer c)"

definition captured :: "'e \<Rightarrow> 'a call \<Rightarrow> ('e, 'a) result" where
  "captured e c = (case c of Returned x \<Rightarrow> Inr x | Panicked \<Rightarrow> Inl e)"

definition registeredClientHealthCheckEnabled :: "string \<Rightarrow> RegisteredClient \<Rightarrow> (registry_error, bool) result" where
  "registeredClientHealthCheckEnabled name c = (case gc_configurable c of
     None \<Rightarrow> Inr True
   | Some answer \<Rightarrow> captured (RegisterEnablementPanicked name) answer)"

definition validateRegistration :: "RegisteredClient option \<Rightarrow> (registry_error, validatedRegistration) result" where
  "validateRegistration client =
     (if isNilRegisteredClient client then Inl RegisterNil
      else case client of None \<Rightarrow> Inl RegisterNil | Some c \<Rightarrow>
        bind_result (captured RegisterNamePanicked (gc_name c)) (\<lambda>name.
        guard_error RegisterName (ValidateClientName name) (
        bind_result (captured RegisterProtocolPanicked (gc_protocol c)) (\<lambda>protocol.
        guard_error (RegisterProtocol name) (ValidateClientProtocol protocol) (
        bind_result (captured RegisterPolicyPanicked (gc_policy c)) (\<lambda>policy.
        guard_error (RegisterPolicy name) (validateReadinessPolicy policy) (
        let policy = normalizeReadinessPolicy policy
        in bind_result (if gc_checker c then registeredClientHealthCheckEnabled name c else Inr False) (\<lambda>enabled.
           if gc_checker c \<and> BlocksReadiness policy \<and> \<not> enabled then Inl (RegisterCheckRequired name)
           else Inr \<lparr>vr_name = name, vr_protocol = protocol, vr_policy = policy, vr_enabled = enabled,
                     vr_client = c\<rparr>))))))))"

text \<open>The first loop of \<open>RegisterAll\<close>, with the names of the batch so far.\<close>

fun validate_batch ::
  "string list \<Rightarrow> RegisteredClient option list \<Rightarrow> (registry_error, validatedRegistration list) result" where
  "validate_batch seen [] = Inr []"
| "validate_batch seen (c # cs) =
     bind_result (validateRegistration c) (\<lambda>v.
       if vr_name v \<in> set seen then Inl (RegisterDuplicate (vr_name v))
       else bind_result (validate_batch (vr_name v # seen) cs) (\<lambda>vs. Inr (v # vs)))"

fun first_registered :: "Registry \<Rightarrow> validatedRegistration list \<Rightarrow> registry_error option" where
  "first_registered r [] = None"
| "first_registered r (v # vs) =
     (case map_of (rg_clients r) (vr_name v) of
        Some _ \<Rightarrow> Some (RegisterExists (vr_name v))
      | None \<Rightarrow> first_registered r vs)"

definition entry_of :: "validatedRegistration \<Rightarrow> registeredClientEntry" where
  "entry_of v = \<lparr>ge_client = vr_client v, ge_protocol = vr_protocol v, ge_policy = vr_policy v,
     ge_enabled = vr_enabled v, ge_synthetic = None, ge_slot = True\<rparr>"

text \<open>The result is the error, if any, and the registry afterwards.\<close>

definition RegisterAll ::
  "Registry option \<Rightarrow> RegisteredClient option list \<Rightarrow> registry_error option \<times> Registry option" where
  "RegisterAll r cs = (case r of
     None \<Rightarrow> (Some RegistryRequired, None)
   | Some reg \<Rightarrow>
       if cs = [] then (None, r)
       else (case validate_batch [] cs of
          Inl e \<Rightarrow> (Some e, r)
        | Inr vs \<Rightarrow> (case first_registered reg vs of
            Some e \<Rightarrow> (Some e, r)
          | None \<Rightarrow> (None, Some (reg\<lparr>rg_clients :=
              foldl (\<lambda>m v. AList.update (vr_name v) (entry_of v) m) (rg_clients reg) vs\<rparr>)))))"

definition Register ::
  "Registry option \<Rightarrow> RegisteredClient option \<Rightarrow> registry_error option \<times> Registry option" where
  "Register r c = RegisterAll r [c]"

text \<open>\<open>MustRegister\<close> and \<open>MustRegisterAll\<close> panic with the error.\<close>

definition MustRegisterAll ::
  "Registry option \<Rightarrow> RegisteredClient option list \<Rightarrow> unit call \<times> Registry option" where
  "MustRegisterAll r cs = (case RegisterAll r cs of (e, r') \<Rightarrow>
     (if is_nil e then Returned () else Panicked, r'))"

definition MustRegister :: "Registry option \<Rightarrow> RegisteredClient option \<Rightarrow> unit call \<times> Registry option" where
  "MustRegister r c = MustRegisterAll r [c]"

definition Get :: "Registry option \<Rightarrow> string \<Rightarrow> RegisteredClient option" where
  "Get r name = (case r of None \<Rightarrow> None | Some r \<Rightarrow> map_option ge_client (map_of (rg_clients r) name))"

section \<open>Reading\<close>

definition registeredClientHealth :: "Health call \<Rightarrow> Health" where
  "registeredClientHealth answer =
     recovered (health_of HealthUnknown FailurePolicy ''client health evaluation panicked'') answer"

definition registry_sanitize_panic :: "Registry option \<Rightarrow> string \<Rightarrow> Health \<Rightarrow> Health \<times> bool" where
  "registry_sanitize_panic r name health = (case r of
     None \<Rightarrow> sanitizeHealthSafelyWithPanic name health (Some DefaultHealthSanitizer) False
   | Some r \<Rightarrow> sanitizeHealthSafelyWithPanic name health (rg_sanitizer r) (rg_disable_sanitizer r))"

definition registry_sanitize :: "Registry option \<Rightarrow> string \<Rightarrow> Health \<Rightarrow> Health" where
  "registry_sanitize r name health = fst (registry_sanitize_panic r name health)"

text \<open>One entry of the snapshot; \<open>reads\<close> gives the answer of the client's \<open>Health\<close> method.\<close>

definition effective_health :: "Registry \<Rightarrow> (nat \<Rightarrow> Health call) \<Rightarrow> string \<times> registeredClientEntry \<Rightarrow> Health" where
  "effective_health r reads = (\<lambda>(name, entry).
     let health = registeredClientHealth (reads (gc_id (ge_client entry)))
     in case ge_synthetic entry of
          None \<Rightarrow> registry_sanitize (Some r) name health
        | Some override \<Rightarrow>
            if \<not> time_after (h_checked_at health) (ov_decided_at override) then ov_health override
            else registry_sanitize (Some r) name health)"

definition client_snapshot ::
  "Registry \<Rightarrow> (nat \<Rightarrow> Health call) \<Rightarrow> string \<times> registeredClientEntry \<Rightarrow> ClientSnapshot" where
  "client_snapshot r reads ne =
     \<lparr>cs_name = fst ne, cs_protocol = ge_protocol (snd ne), cs_policy = ge_policy (snd ne),
      cs_health = effective_health r reads ne\<rparr>"

definition Snapshot :: "Registry option \<Rightarrow> (nat \<Rightarrow> Health call) \<Rightarrow> ClientSnapshot list" where
  "Snapshot r reads = (case r of
     None \<Rightarrow> []
   | Some r \<Rightarrow> sort_key cs_name (map (client_snapshot r reads) (rg_clients r)))"

record namedHealthChecker =
  nk_name :: string
  nk_protocol :: string
  nk_checker :: RegisteredClient
  nk_policy :: ReadinessPolicy

definition named_checker :: "string \<times> registeredClientEntry \<Rightarrow> namedHealthChecker option" where
  "named_checker = (\<lambda>(name, entry).
     if \<not> ge_enabled entry then None
     else if \<not> gc_checker (ge_client entry) then None
     else Some \<lparr>nk_name = name, nk_protocol = ge_protocol entry, nk_checker = ge_client entry,
                nk_policy = ge_policy entry\<rparr>)"

definition healthCheckersSnapshot :: "Registry option \<Rightarrow> namedHealthChecker list" where
  "healthCheckersSnapshot r = (case r of
     None \<Rightarrow> []
   | Some r \<Rightarrow> sort_key nk_name (List.map_filter named_checker (rg_clients r)))"

definition idleConnectionClosersSnapshot :: "Registry option \<Rightarrow> (string \<times> RegisteredClient) list" where
  "idleConnectionClosersSnapshot r = (case r of
     None \<Rightarrow> []
   | Some r \<Rightarrow> sort_key fst (List.map_filter
       (\<lambda>(name, entry). if is_nil (gc_closer (ge_client entry)) then None else Some (name, ge_client entry))
       (rg_clients r)))"

text \<open>Each call is recovered, so the loop reaches every closer; the result is the clients called.\<close>

definition CloseIdleConnections :: "Registry option \<Rightarrow> string list \<times> unit call" where
  "CloseIdleConnections r =
     foldl (\<lambda>(called, outcome) (name, c).
         case outcome of Panicked \<Rightarrow> (called, Panicked)
         | Returned _ \<Rightarrow> (called @ [name],
             case gc_closer c of None \<Rightarrow> Returned () | Some answer \<Rightarrow> Returned (recovered () answer)))
       ([], Returned ()) (idleConnectionClosersSnapshot r)"

section \<open>Publication of check outcomes\<close>

definition applyHealthCheckOutcome ::
  "Registry option \<Rightarrow> string \<Rightarrow> Health \<Rightarrow> gotime \<Rightarrow> bool \<Rightarrow> Registry option" where
  "applyHealthCheckOutcome r name health decidedAt synthetic = (case r of
     None \<Rightarrow> None
   | Some reg \<Rightarrow> (case map_of (rg_clients reg) name of
       None \<Rightarrow> r
     | Some entry \<Rightarrow>
         if (case ge_synthetic entry of None \<Rightarrow> False | Some ov \<Rightarrow> time_before decidedAt (ov_decided_at ov)) then r
         else Some (reg\<lparr>rg_clients := AList.update name
                (entry\<lparr>ge_synthetic := (if synthetic then Some \<lparr>ov_health = health, ov_decided_at = decidedAt\<rparr>
                                        else None)\<rparr>) (rg_clients reg)\<rparr>)))"

section \<open>The registry invariant\<close>

text \<open>What registration guarantees of every entry: valid identity and policy, and a blocking policy of
  a client with a health check only with the check enabled.\<close>

definition entry_ok :: "string \<Rightarrow> registeredClientEntry \<Rightarrow> bool" where
  "entry_ok name e \<longleftrightarrow>
     identifier_ok MaxClientNameBytes name \<and> identifier_ok MaxClientProtocolBytes (ge_protocol e) \<and>
     ge_policy e \<in> {ReadinessRequired, ReadinessOptional, ReadinessDegradedAllowed, ReadinessInformational} \<and>
     (ge_enabled e \<longrightarrow> gc_checker (ge_client e)) \<and>
     (BlocksReadiness (ge_policy e) \<and> gc_checker (ge_client e) \<longrightarrow> ge_enabled e)"

definition registry_inv :: "Registry \<Rightarrow> bool" where
  "registry_inv r \<longleftrightarrow> distinct (map fst (rg_clients r)) \<and> (\<forall>ne \<in> set (rg_clients r). entry_ok (fst ne) (snd ne))"

lemma NewRegistry_inv: "registry_inv NewRegistry"
  by (simp add: registry_inv_def NewRegistry_def)

lemma NewRegistryWithConfig_inv:
  "NewRegistryWithConfig vc cfg = Inr r \<Longrightarrow>
   registry_inv r \<and> 0 < rg_max_checks r \<and> vc (ci_name (rg_component r)) = None"
  by (auto simp: NewRegistryWithConfig_def registry_inv_def Let_def DefaultMaxConcurrentChecks_def
      split: if_splits option.splits)

lemma captured_Inr: "captured e c = Inr x \<longleftrightarrow> c = Returned x"
  by (cases c) (auto simp: captured_def)

lemma validateRegistration_ok:
  assumes "validateRegistration c = Inr v"
  shows "entry_ok (vr_name v) (entry_of v)" and "c = Some (vr_client v)"
    and "gc_name (vr_client v) = Returned (vr_name v)"
proof -
  from assms obtain cl name protocol policy where c: "c = Some cl" and v: "captured RegisterNamePanicked (gc_name cl) = Inr name"
    "ValidateClientName name = None" "ValidateClientProtocol protocol = None" "validateReadinessPolicy policy = None"
    and enabled: "(if gc_checker cl then registeredClientHealthCheckEnabled name cl else Inr False) = Inr (vr_enabled v)"
      "\<not> (gc_checker cl \<and> BlocksReadiness (normalizeReadinessPolicy policy) \<and> \<not> vr_enabled v)"
    and vs: "vr_name v = name" "vr_protocol v = protocol" "vr_policy v = normalizeReadinessPolicy policy" "vr_client v = cl"
    by (cases c) (auto simp: validateRegistration_def isNilRegisteredClient_def bind_result_Inr guard_error_Inr Let_def
        simp del: normalized_policy split: if_split_asm)
  from enabled(1) have "vr_enabled v \<longrightarrow> gc_checker cl" by (auto split: if_split_asm)
  with v enabled(2) vs show "entry_ok (vr_name v) (entry_of v)"
    by (simp add: entry_ok_def entry_of_def ValidateClientName_iff ValidateClientProtocol_iff validate_policy_range)
  show "c = Some (vr_client v)" "gc_name (vr_client v) = Returned (vr_name v)"
    using c v(1) vs by (simp_all add: captured_Inr)
qed

lemma validate_batch_ok:
  "validate_batch seen cs = Inr vs \<Longrightarrow>
   distinct (map vr_name vs) \<and> set (map vr_name vs) \<inter> set seen = {} \<and>
   (\<forall>v \<in> set vs. entry_ok (vr_name v) (entry_of v) \<and> gc_name (vr_client v) = Returned (vr_name v)) \<and>
   map (\<lambda>v. Some (vr_client v)) vs = cs"
proof (induction seen cs arbitrary: vs rule: validate_batch.induct)
  case (2 seen c cs)
  then obtain v vs' where v: "validateRegistration c = Inr v" "vr_name v \<notin> set seen"
    "validate_batch (vr_name v # seen) cs = Inr vs'" "vs = v # vs'"
    by (auto simp: bind_result_Inr split: if_splits)
  from 2(1) [OF v(2,3)] validateRegistration_ok [OF v(1)] v(2,4) show ?case by auto
qed simp

lemma map_of_key: "map_of m k = Some x \<Longrightarrow> k \<in> fst ` set m"
  by (drule map_of_SomeD) force

lemma first_registered_None:
  "first_registered r vs = None \<longleftrightarrow> set (map vr_name vs) \<inter> set (map fst (rg_clients r)) = {}"
  by (induction vs) (auto simp: map_of_eq_None_iff split: option.split dest: map_of_key)

text \<open>Inserting fresh names appends them.\<close>

lemma update_fresh: "k \<notin> set (map fst m) \<Longrightarrow> AList.update k x m = m @ [(k, x)]"
  by (induction m) auto

lemma update_all_fresh:
  "distinct (map vr_name vs) \<Longrightarrow> set (map vr_name vs) \<inter> set (map fst m) = {} \<Longrightarrow>
   foldl (\<lambda>m v. AList.update (vr_name v) (entry_of v) m) m vs = m @ map (\<lambda>v. (vr_name v, entry_of v)) vs"
  by (induction vs arbitrary: m) (auto simp: update_fresh)

text \<open>Registration is atomic: an error leaves the registry as it was; otherwise exactly the batch is
  added, under names that are new and distinct.\<close>

lemma RegisterAll_cases:
  assumes "RegisterAll (Some r) cs = (e, r')"
  obtains (error) x where "e = Some x" "r' = Some r"
  | (added) vs where "e = None" "r' = Some (r\<lparr>rg_clients := rg_clients r @ map (\<lambda>v. (vr_name v, entry_of v)) vs\<rparr>)"
      "map (\<lambda>v. Some (vr_client v)) vs = cs" "distinct (map vr_name vs)"
      "set (map vr_name vs) \<inter> set (map fst (rg_clients r)) = {}"
      "\<forall>v \<in> set vs. entry_ok (vr_name v) (entry_of v) \<and> gc_name (vr_client v) = Returned (vr_name v)"
proof (cases "cs = []")
  case True
  with assms show ?thesis by (intro added [of "[]"]) (auto simp: RegisterAll_def)
next
  case False
  show ?thesis
  proof (cases "validate_batch [] cs")
    case (Inl x)
    with assms False show ?thesis by (intro error [of x]) (auto simp: RegisterAll_def)
  next
    case (Inr vs)
    note ok = validate_batch_ok [OF Inr]
    show ?thesis
    proof (cases "first_registered r vs")
      case None
      with ok have "foldl (\<lambda>m v. AList.update (vr_name v) (entry_of v) m) (rg_clients r) vs =
          rg_clients r @ map (\<lambda>v. (vr_name v, entry_of v)) vs"
        by (intro update_all_fresh) (simp_all add: first_registered_None)
      then have "RegisterAll (Some r) cs = (None, Some (r\<lparr>rg_clients := rg_clients r @ map (\<lambda>v. (vr_name v, entry_of v)) vs\<rparr>))"
        by (simp add: RegisterAll_def False Inr None)
      with None ok assms show ?thesis
        by (intro added [of vs]) (simp_all add: first_registered_None)
    next
      case (Some x)
      with assms False Inr show ?thesis by (intro error [of x]) (auto simp: RegisterAll_def)
    qed
  qed
qed

lemma RegisterAll_inv:
  assumes "RegisterAll (Some r) cs = (e, Some r')" "registry_inv r"
  shows "registry_inv r'"
  using assms(1)
proof (cases rule: RegisterAll_cases)
  case (added vs)
  then show ?thesis using assms(2) by (auto simp: registry_inv_def comp_def)
qed (use assms(2) in simp)

text \<open>A registered client is found under its name, and nothing else changes.\<close>

lemma RegisterAll_Get:
  assumes "RegisterAll (Some r) cs = (None, r')"
  shows "Some c \<in> set cs \<Longrightarrow> gc_name c = Returned n \<Longrightarrow> Get r' n = Some c \<and> Get (Some r) n = None"
    and "\<forall>c. Some c \<in> set cs \<longrightarrow> gc_name c \<noteq> Returned n \<Longrightarrow> Get r' n = Get (Some r) n"
proof -
  from assms obtain vs where vs: "r' = Some (r\<lparr>rg_clients := rg_clients r @ map (\<lambda>v. (vr_name v, entry_of v)) vs\<rparr>)"
    "map (\<lambda>v. Some (vr_client v)) vs = cs" "distinct (map vr_name vs)"
    "set (map vr_name vs) \<inter> set (map fst (rg_clients r)) = {}"
    "\<forall>v \<in> set vs. gc_name (vr_client v) = Returned (vr_name v)"
    by (cases rule: RegisterAll_cases) auto
  have old: "map_of (rg_clients r) (vr_name v) = None" if "v \<in> set vs" for v
    using vs(4) that by (auto simp: map_of_eq_None_iff)
  have new: "map_of (map (\<lambda>v. (vr_name v, entry_of v)) vs) (vr_name v) = Some (entry_of v)" if "v \<in> set vs" for v
    using vs(3) that by (intro map_of_is_SomeI) (simp_all add: comp_def)
  show "Get r' n = Some c \<and> Get (Some r) n = None" if "Some c \<in> set cs" "gc_name c = Returned n"
  proof -
    from that(1) vs(2) obtain v where v: "v \<in> set vs" "c = vr_client v" by auto
    with vs(5) that(2) have "n = vr_name v" by simp
    with old [OF v(1)] new [OF v(1)] v show ?thesis
      by (simp add: Get_def vs(1) map_add_def entry_of_def)
  qed
  show "Get r' n = Get (Some r) n" if "\<forall>c. Some c \<in> set cs \<longrightarrow> gc_name c \<noteq> Returned n"
  proof -
    have "n \<notin> vr_name ` set vs" using that vs(2,5) by auto
    then have "map_of (map (\<lambda>v. (vr_name v, entry_of v)) vs) n = None" by (auto simp: map_of_eq_None_iff)
    then show ?thesis by (simp add: Get_def vs(1) map_add_def split: option.split)
  qed
qed

section \<open>What a snapshot shows\<close>

text \<open>The snapshot lists every registered name once, in increasing order.\<close>

lemma Snapshot_names: "map cs_name (Snapshot (Some r) reads) = sort (map fst (rg_clients r))"
proof (rule properties_for_sort [symmetric])
  have "image_mset cs_name (mset (map (client_snapshot r reads) (rg_clients r))) = mset (map fst (rg_clients r))"
    by (simp add: client_snapshot_def image_mset.compositionality comp_def)
  then show "mset (map cs_name (Snapshot (Some r) reads)) = mset (map fst (rg_clients r))"
    by (simp add: Snapshot_def)
qed (simp add: Snapshot_def)

lemma Snapshot_set: "set (Snapshot (Some r) reads) = client_snapshot r reads ` set (rg_clients r)"
  by (simp add: Snapshot_def)

lemma Snapshot_strict: "registry_inv r \<Longrightarrow> sorted_wrt (<) (map cs_name (Snapshot (Some r) reads))"
  by (simp add: Snapshot_names registry_inv_def strict_sorted_iff)

text \<open>The order in which the map is visited does not show.\<close>

lemma Snapshot_order:
  assumes "registry_inv r" "mset m = mset (rg_clients r)"
  shows "Snapshot (Some (r\<lparr>rg_clients := m\<rparr>)) reads = Snapshot (Some r) reads"
proof -
  have same: "client_snapshot (r\<lparr>rg_clients := m\<rparr>) reads = client_snapshot r reads"
    by (auto simp: client_snapshot_def effective_health_def registry_sanitize_def registry_sanitize_panic_def Let_def
        split: option.split)
  have "mset (map fst m) = mset (map fst (rg_clients r))" using assms(2) by simp
  then have d: "distinct (map fst m)" using assms(1) by (metis registry_inv_def mset_eq_imp_distinct_iff)
  have "cs_name \<circ> client_snapshot r reads = fst"
    by (auto simp: client_snapshot_def)
  then have "sort_key cs_name (map (client_snapshot r reads) m) =
      sort_key cs_name (map (client_snapshot r reads) (rg_clients r))"
    using d assms by (intro sort_key_unique) (auto simp: registry_inv_def dest: mset_eq_setD)
  then show ?thesis by (simp add: Snapshot_def same)
qed

lemma registry_sanitize_clients [simp]:
  "registry_sanitize (Some (r\<lparr>rg_clients := m\<rparr>)) = registry_sanitize (Some r)"
  by (intro ext) (simp add: registry_sanitize_def registry_sanitize_panic_def)

text \<open>A synthesized failure hides the client's own health exactly while that is not newer.\<close>

lemma effective_health_cases:
  "effective_health r reads (name, entry) =
     (let own = registeredClientHealth (reads (gc_id (ge_client entry)))
      in case ge_synthetic entry of
           None \<Rightarrow> registry_sanitize (Some r) name own
         | Some ov \<Rightarrow> if instant (h_checked_at own) \<le> instant (ov_decided_at ov) then ov_health ov
                    else registry_sanitize (Some r) name own)"
  by (auto simp: effective_health_def time_after_def Let_def split: option.split)

text \<open>Overrides a registry holds; everything it publishes then is publishable.\<close>

definition overrides_publishable :: "Registry \<Rightarrow> bool" where
  "overrides_publishable r \<longleftrightarrow>
     (\<forall>ne \<in> set (rg_clients r). \<forall>ov. ge_synthetic (snd ne) = Some ov \<longrightarrow> publishable (ov_health ov))"

context sanitizer
begin

lemma registry_publishable: "rg_sanitizer r = Some san \<Longrightarrow> publishable (registry_sanitize (Some r) n h)"
  by (auto simp: registry_sanitize_def registry_sanitize_panic_def contained_publishable
      simp flip: sanitizeHealthSafely_def)

lemma Snapshot_publishable:
  "rg_sanitizer r = Some san \<Longrightarrow> overrides_publishable r \<Longrightarrow> s \<in> set (Snapshot (Some r) reads) \<Longrightarrow>
   publishable (cs_health s)"
  by (auto simp: Snapshot_set client_snapshot_def effective_health_cases Let_def registry_publishable
      overrides_publishable_def split: option.split)

end

section \<open>What publication preserves\<close>

lemma update_same_keys: "k \<in> set (map fst m) \<Longrightarrow> map fst (AList.update k x m) = map fst m"
  by (induction m) auto

lemma set_update: "ne \<in> set (AList.update k x m) \<Longrightarrow> ne = (k, x) \<or> ne \<in> set m"
  by (induction m) (auto split: if_splits)

lemma applyHealthCheckOutcome_cases:
  assumes "applyHealthCheckOutcome (Some r) name h t synthetic = r'"
  obtains (unknown) "map_of (rg_clients r) name = None" "r' = Some r"
  | (older) e ov where "map_of (rg_clients r) name = Some e" "ge_synthetic e = Some ov"
      "instant t < instant (ov_decided_at ov)" "r' = Some r"
  | (applied) e where "map_of (rg_clients r) name = Some e"
      "\<forall>ov. ge_synthetic e = Some ov \<longrightarrow> instant (ov_decided_at ov) \<le> instant t"
      "r' = Some (r\<lparr>rg_clients := AList.update name (e\<lparr>ge_synthetic :=
         (if synthetic then Some \<lparr>ov_health = h, ov_decided_at = t\<rparr> else None)\<rparr>) (rg_clients r)\<rparr>)"
proof (cases "map_of (rg_clients r) name")
  case None
  with assms unknown show ?thesis by (simp add: applyHealthCheckOutcome_def)
next
  case (Some e)
  show ?thesis
  proof (cases "\<exists>ov. ge_synthetic e = Some ov \<and> instant t < instant (ov_decided_at ov)")
    case True
    then obtain ov where ov: "ge_synthetic e = Some ov" "instant t < instant (ov_decided_at ov)" by blast
    with assms Some older [OF Some ov] show ?thesis
      by (simp add: applyHealthCheckOutcome_def time_before_def)
  next
    case False
    with assms Some show ?thesis
      by (intro applied [OF Some]) (auto simp: applyHealthCheckOutcome_def time_before_def split: option.splits)
  qed
qed

text \<open>Publication changes the override of the named client only: membership, identity and policy of
  every client stay, and the invariant with them.\<close>

definition same_members :: "Registry \<Rightarrow> Registry \<Rightarrow> bool" where
  "same_members r r' \<longleftrightarrow>
     map (\<lambda>(n, e). (n, ge_client e, ge_protocol e, ge_policy e, ge_enabled e)) (rg_clients r') =
     map (\<lambda>(n, e). (n, ge_client e, ge_protocol e, ge_policy e, ge_enabled e)) (rg_clients r) \<and>
     rg_max_checks r' = rg_max_checks r \<and> rg_component r' = rg_component r \<and>
     rg_sanitizer r' = rg_sanitizer r \<and> rg_disable_sanitizer r' = rg_disable_sanitizer r"

lemma same_members_refl [simp]: "same_members r r"
  by (simp add: same_members_def)

lemma same_members_trans: "same_members r r' \<Longrightarrow> same_members r' r'' \<Longrightarrow> same_members r r''"
  by (simp add: same_members_def)

lemma map_update_entry:
  "map_of m n = Some e \<Longrightarrow> f (n, e') = f (n, e) \<Longrightarrow> map f (AList.update n e' m) = map f m"
  by (induction m) (auto split: if_splits)

lemma same_members_update:
  assumes "map_of (rg_clients r) n = Some e"
    and "ge_client e' = ge_client e" "ge_protocol e' = ge_protocol e" "ge_policy e' = ge_policy e"
      "ge_enabled e' = ge_enabled e"
  shows "same_members r (r\<lparr>rg_clients := AList.update n e' (rg_clients r)\<rparr>)"
  using assms by (simp add: same_members_def map_update_entry)

lemma same_members_inv:
  assumes "same_members r r'" "registry_inv r"
  shows "registry_inv r'"
proof -
  let ?f = "\<lambda>(n, e). (n, ge_client e, ge_protocol e, ge_policy e, ge_enabled e)"
  let ?ok = "\<lambda>(n, c, pr, po, en). entry_ok n \<lparr>ge_client = c, ge_protocol = pr, ge_policy = po, ge_enabled = en,
      ge_synthetic = None, ge_slot = True\<rparr>"
  have ok: "(\<forall>ne \<in> set (rg_clients x). entry_ok (fst ne) (snd ne)) \<longleftrightarrow> list_all ?ok (map ?f (rg_clients x))" for x
    by (auto simp: list_all_iff entry_ok_def)
  have names: "map fst (rg_clients x) = map fst (map ?f (rg_clients x))" for x
    by (simp add: comp_def case_prod_unfold)
  have f: "map ?f (rg_clients r') = map ?f (rg_clients r)" using assms(1) by (simp add: same_members_def)
  show ?thesis using assms(2) unfolding registry_inv_def ok names f .
qed

lemma applyHealthCheckOutcome_members:
  assumes "applyHealthCheckOutcome (Some r) name h t synthetic = Some r'"
  shows "same_members r r'"
  using assms by (cases rule: applyHealthCheckOutcome_cases) (auto intro: same_members_update)

lemma applyHealthCheckOutcome_other:
  assumes "applyHealthCheckOutcome (Some r) name h t synthetic = Some r'" "n \<noteq> name"
  shows "map_of (rg_clients r') n = map_of (rg_clients r) n"
  using assms(1) by (cases rule: applyHealthCheckOutcome_cases) (use assms(2) in \<open>auto simp: update_conv\<close>)

text \<open>A decision never replaces a younger one.\<close>

lemma applyHealthCheckOutcome_younger:
  assumes "applyHealthCheckOutcome (Some r) name h t synthetic = Some r'"
    and "map_of (rg_clients r) n = Some e" "ge_synthetic e = Some ov"
    and "map_of (rg_clients r') n = Some e'" "ge_synthetic e' \<noteq> ge_synthetic e"
  shows "n = name \<and> instant (ov_decided_at ov) \<le> instant t"
  using assms(1) by (cases rule: applyHealthCheckOutcome_cases)
    (use assms(2-5) in \<open>auto simp: update_conv split: if_splits\<close>)

text \<open>After a synthesized failure has been published, the snapshot shows it until the client reports
  something newer.\<close>

lemma synthetic_shows:
  assumes "applyHealthCheckOutcome (Some r) name h t True = Some r'" "map_of (rg_clients r) name = Some e"
    and "\<forall>ov. ge_synthetic e = Some ov \<longrightarrow> instant (ov_decided_at ov) \<le> instant t"
    and "instant (h_checked_at (registeredClientHealth (reads (gc_id (ge_client e))))) \<le> instant t"
    and "registry_inv r"
  shows "\<exists>s \<in> set (Snapshot (Some r') reads). cs_name s = name \<and> cs_health s = h"
proof -
  from assms(1) have "map_of (rg_clients r') name = Some (e\<lparr>ge_synthetic := Some \<lparr>ov_health = h, ov_decided_at = t\<rparr>\<rparr>)"
    by (cases rule: applyHealthCheckOutcome_cases) (use assms(2,3) in \<open>auto simp: update_conv\<close>)
  note m = map_of_SomeD [OF this]
  have "cs_name (client_snapshot r' reads ne) = name \<and> cs_health (client_snapshot r' reads ne) = h"
    if "ne = (name, e\<lparr>ge_synthetic := Some \<lparr>ov_health = h, ov_decided_at = t\<rparr>\<rparr>)" for ne
    using assms(4) by (simp add: that client_snapshot_def effective_health_cases Let_def)
  with m show ?thesis unfolding Snapshot_set by blast
qed

lemma applyHealthCheckOutcome_publishable:
  assumes "applyHealthCheckOutcome (Some r) name h t synthetic = Some r'" "overrides_publishable r"
    and "synthetic \<Longrightarrow> publishable h"
  shows "overrides_publishable r'"
  using assms(1) by (cases rule: applyHealthCheckOutcome_cases)
    (use assms(2,3) in \<open>auto simp: overrides_publishable_def dest!: set_update\<close>)

section \<open>Releasing idle connections\<close>

text \<open>Every closer is called once, in name order, whatever the earlier ones did.\<close>

lemma CloseIdleConnections_calls:
  "CloseIdleConnections r = (map fst (idleConnectionClosersSnapshot r), Returned ())"
proof -
  let ?f = "\<lambda>(called, outcome) (name :: string, c :: RegisteredClient). case outcome of Panicked \<Rightarrow> (called, Panicked)
         | Returned _ \<Rightarrow> (called @ [name],
             case gc_closer c of None \<Rightarrow> Returned () | Some answer \<Rightarrow> Returned (recovered () answer))"
  have "foldl ?f (called, Returned ()) xs = (called @ map fst xs, Returned ())" for called xs
  proof (induction xs arbitrary: called)
    case (Cons x xs)
    show ?case by (cases x) (auto simp: Cons.IH split: option.split)
  qed simp
  then show ?thesis by (simp add: CloseIdleConnections_def)
qed

lemma map_filter_set: "set (List.map_filter f xs) = {y. \<exists>x \<in> set xs. f x = Some y}"
  by (auto simp: List.map_filter_def image_iff) force

lemma idle_closers:
  "set (map fst (idleConnectionClosersSnapshot (Some r))) =
     {n. \<exists>e. (n, e) \<in> set (rg_clients r) \<and> gc_closer (ge_client e) \<noteq> None}"
  "sorted (map fst (idleConnectionClosersSnapshot r'))"
proof -
  show "sorted (map fst (idleConnectionClosersSnapshot r'))"
    by (simp add: idleConnectionClosersSnapshot_def split: option.split)
  show "set (map fst (idleConnectionClosersSnapshot (Some r))) =
     {n. \<exists>e. (n, e) \<in> set (rg_clients r) \<and> gc_closer (ge_client e) \<noteq> None}"
    by (simp add: idleConnectionClosersSnapshot_def map_filter_set)
       (force split: if_splits)
qed

text \<open>Cleanup reaches every client that can release idle connections, once, in name order, whether or not
  another one panics, and does not panic itself.\<close>

lemma idle_cleanup_reaches_all:
  "snd (CloseIdleConnections (Some r)) = Returned () \<and> sorted (fst (CloseIdleConnections (Some r))) \<and>
   set (fst (CloseIdleConnections (Some r))) = {n. \<exists>e. (n, e) \<in> set (rg_clients r) \<and> gc_closer (ge_client e) \<noteq> None}"
  by (simp only: CloseIdleConnections_calls fst_conv snd_conv idle_closers simp_thms)

end
