(* ===== verification/Ck_Opskit.thy ===== *)
theory Ck_Opskit
  imports Ck_Registry
begin

text \<open>
  \<open>opskit.go\<close>, without the concurrency of \<open>CheckAll\<close>: one client check with its context boundaries, panics
  and publication, the conversion of its result, the summary of a finished run, and the passive status,
  readiness and inspection projections. The functions of the \<open>opskit\<close> module are parameters.
\<close>

section \<open>Values of opskit\<close>

text \<open>Only the constants and fields the source writes; \<open>'d\<close> is \<open>opskit.Duration\<close>, \<open>'s\<close> is
  \<open>opskit.Status\<close>.\<close>

datatype op_state = StateReady | StateDegraded | StateNotReady | StateUnknown | StateFailed

datatype ReadinessImpact = ReadinessImpactBlocking | ReadinessImpactNonBlocking

record 'd CheckResult =
  cr_state :: op_state
  cr_ready :: bool
  cr_message :: string
  cr_checked_at :: "gotime option"
  cr_duration :: 'd
  cr_attributes :: "attribute list"

record 'd NamedCheck =
  nd_name :: string
  nd_kind :: string
  nd_result :: "'d CheckResult"

record 'd CheckSummary =
  sm_state :: op_state
  sm_ready :: bool
  sm_message :: string
  sm_checked_at :: "gotime option"
  sm_duration :: 'd
  sm_results :: "'d NamedCheck list"

record ReadinessItem =
  ri_name :: string
  ri_kind :: string
  ri_impact :: ReadinessImpact
  ri_ready :: bool
  ri_state :: op_state
  ri_reason :: string
  ri_message :: string

record ReadinessReport =
  rd_ready :: bool
  rd_reason :: string
  rd_items :: "ReadinessItem list"

record ('d, 's) opskit_code =
  ok_new_duration :: "duration \<Rightarrow> 'd"
  ok_zero_duration :: 'd
  ok_summarize :: "string \<Rightarrow> gotime \<Rightarrow> 'd NamedCheck list \<Rightarrow> 'd CheckSummary"
  ok_unknown :: "string \<Rightarrow> 's"
  ok_not_ready :: "string \<Rightarrow> 's"
  ok_degraded :: "string \<Rightarrow> 's"
  ok_ready :: "string \<Rightarrow> 's"

section \<open>One client check\<close>

record clientHealthCheckOutcome =
  ho_health :: Health
  ho_decided_at :: gotime
  ho_synthetic :: bool
  ho_context_rejected :: bool

text \<open>
  What one check meets, in the order the code asks: the select on the client's slot and on a permit
  (\<open>Some e\<close> when the context was chosen), the checker, the clock, and \<open>ctx.Err()\<close> after the checker,
  before and after the sanitizer. \<open>ks_clock\<close> and \<open>ks_accept_clock\<close> are the clock when a failure is
  synthesized before the acceptance and during it.
\<close>

record check_script =
  ks_slot :: "ctx_err option"
  ks_permit :: "ctx_err option"
  ks_check :: "Health call"
  ks_decided :: gotime
  ks_returned :: "ctx_err option"
  ks_accept :: "ctx_err option"
  ks_accepted :: "ctx_err option"
  ks_clock :: gotime
  ks_accept_clock :: gotime

definition clientHealthCheckContextFailure :: "ctx_err \<Rightarrow> string \<Rightarrow> gotime \<Rightarrow> Health" where
  "clientHealthCheckContextFailure err phase now =
     (let timed_out = (err = DeadlineExceeded)
      in \<lparr>h_state = HealthUnknown,
          h_failure = (if timed_out then FailureTimeout else FailureCanceled),
          h_checked_at = to_utc now, h_duration = 0,
          h_message = (if timed_out then ''client health check timed out '' @ phase
                       else ''client health check canceled '' @ phase)\<rparr>)"

definition clientHealthCheckContextOutcome :: "ctx_err \<Rightarrow> string \<Rightarrow> gotime \<Rightarrow> clientHealthCheckOutcome" where
  "clientHealthCheckContextOutcome err phase now =
     (let health = clientHealthCheckContextFailure err phase now
      in \<lparr>ho_health = health, ho_decided_at = h_checked_at health, ho_synthetic = True,
          ho_context_rejected = True\<rparr>)"

text \<open>From the call of the checker to the release of the permit.\<close>

definition run_checker :: "check_script \<Rightarrow> clientHealthCheckOutcome" where
  "run_checker s = (case ks_returned s of
     Some e \<Rightarrow> clientHealthCheckContextOutcome e ''before result acceptance'' (ks_clock s)
   | None \<Rightarrow> (case ks_check s of
       Returned h \<Rightarrow> \<lparr>ho_health = h, ho_decided_at = to_utc (ks_decided s), ho_synthetic = False,
                      ho_context_rejected = False\<rparr>
     | Panicked \<Rightarrow>
         \<lparr>ho_health = \<lparr>h_state = HealthUnhealthy, h_failure = FailurePolicy, h_checked_at = to_utc (ks_clock s),
                        h_duration = 0, h_message = ''client health check panicked''\<rparr>,
          ho_decided_at = to_utc (ks_clock s), ho_synthetic = True, ho_context_rejected = False\<rparr>))"

definition checkHealthSafely :: "check_script \<Rightarrow> clientHealthCheckOutcome" where
  "checkHealthSafely s = (case ks_permit s of
     Some e \<Rightarrow> clientHealthCheckContextOutcome e ''before execution'' (ks_clock s)
   | None \<Rightarrow> run_checker s)"

text \<open>The acceptance of an outcome, with the two context checks around the sanitizer.\<close>

definition accept_outcome ::
  "Registry option \<Rightarrow> string \<Rightarrow> check_script \<Rightarrow> clientHealthCheckOutcome \<Rightarrow> clientHealthCheckOutcome" where
  "accept_outcome r name s outcome =
     (if ho_context_rejected outcome then outcome
      else (case ks_accept s of
        Some e \<Rightarrow> clientHealthCheckContextOutcome e ''before result acceptance'' (ks_accept_clock s)
      | None \<Rightarrow>
          (let (health, panicked) = registry_sanitize_panic r name (ho_health outcome);
               outcome = outcome\<lparr>ho_health := health\<rparr>;
               outcome = (if panicked then outcome\<lparr>ho_synthetic := True, ho_decided_at := to_utc (ks_accept_clock s)\<rparr>
                          else outcome)
           in case ks_accepted s of
                Some e \<Rightarrow> clientHealthCheckContextOutcome e ''before result acceptance'' (ks_accept_clock s)
              | None \<Rightarrow> outcome)))"

text \<open>\<open>reg\<close> is the registry when the outcome is published.\<close>

definition publish_outcome :: "Registry option \<Rightarrow> string \<Rightarrow> clientHealthCheckOutcome \<Rightarrow> Registry option" where
  "publish_outcome reg name outcome =
     applyHealthCheckOutcome reg name (ho_health outcome) (ho_decided_at outcome) (ho_synthetic outcome)"

definition checkClientHealth ::
  "Registry option \<Rightarrow> namedHealthChecker \<Rightarrow> check_script \<Rightarrow> Health \<times> Registry option" where
  "checkClientHealth r entry s = (case ks_slot s of
     Some e \<Rightarrow>
       (let outcome = clientHealthCheckContextOutcome e ''before execution'' (ks_clock s)
        in (ho_health outcome, publish_outcome r (nk_name entry) outcome))
   | None \<Rightarrow>
       (let outcome = accept_outcome r (nk_name entry) s (checkHealthSafely s)
        in (ho_health outcome, publish_outcome r (nk_name entry) outcome)))"

section \<open>Results and summary\<close>

definition unavailableClientChecks :: "('d, 's) opskit_code \<Rightarrow> string \<Rightarrow> gotime \<Rightarrow> gotime \<Rightarrow> 'd CheckSummary" where
  "unavailableClientChecks ok message startedAt now =
     (let checkedAt = to_utc now
      in \<lparr>sm_state = StateUnknown, sm_ready = False, sm_message = message, sm_checked_at = Some checkedAt,
          sm_duration = ok_new_duration ok (time_sub checkedAt startedAt), sm_results = []\<rparr>)"

definition opskitNamedClientCheck ::
  "('d, 's) opskit_code \<Rightarrow> string \<Rightarrow> string \<Rightarrow> ReadinessPolicy \<Rightarrow> Health \<Rightarrow> 'd NamedCheck" where
  "opskitNamedClientCheck ok name protocol policy health =
     (let attributes = [(''readiness'', policy_string policy), (''health_state'', health_state_string (h_state health))] @
            (if h_failure health \<noteq> FailureNone then [(''failure_class'', failure_string (h_failure health))] else []);
          ready = readinessSatisfied policy (h_state health);
          (state, ready) =
            (if h_state health = HealthHealthy then (StateReady, True)
             else if h_state health = HealthDegraded then (StateDegraded, ready)
             else if \<not> BlocksReadiness policy then (StateDegraded, True)
             else if h_state health = HealthUnhealthy then (StateNotReady, False)
             else (StateUnknown, False))
      in \<lparr>nd_name = name, nd_kind = protocol, nd_result =
          \<lparr>cr_state = state, cr_ready = ready, cr_message = h_message health,
           cr_checked_at = (if \<not> is_zero (h_checked_at health) then Some (to_utc (h_checked_at health)) else None),
           cr_duration = ok_new_duration ok (h_duration health), cr_attributes = attributes\<rparr>\<rparr>)"

text \<open>\<open>CheckAll\<close> before any worker starts, and after the last one has ended. \<open>ctx\<close> is \<open>ctx.Err()\<close>.\<close>

definition check_all_unavailable ::
  "('d, 's) opskit_code \<Rightarrow> Registry option \<Rightarrow> gotime \<Rightarrow> gotime \<Rightarrow> 'd CheckSummary option" where
  "check_all_unavailable ok r startedAt now =
     (if is_nil r then Some (unavailableClientChecks ok ''client registry is missing'' (to_utc startedAt) now)
      else if healthCheckersSnapshot r = [] then
        Some (unavailableClientChecks ok ''no enabled client checks'' (to_utc startedAt) now)
      else None)"

definition summarize_slots ::
  "('d, 's) opskit_code \<Rightarrow> gotime \<Rightarrow> 'd NamedCheck option list \<Rightarrow> ctx_err option \<Rightarrow> 'd CheckSummary" where
  "summarize_slots ok startedAt slots ctx =
     (let results = List.map_filter (\<lambda>x. x) slots;
          summary = ok_summarize ok '''' (to_utc startedAt) results
      in if ctx \<noteq> None \<or> length results < length slots
         then summary\<lparr>sm_state := StateFailed, sm_ready := False, sm_message := ''client checks incomplete''\<rparr>
         else summary)"

section \<open>Passive projections\<close>

text \<open>The loop and the switch of \<open>Status\<close>: the constructor to call and its message.\<close>

definition status_flags :: "ClientSnapshot list \<Rightarrow> bool \<times> bool \<times> bool" where
  "status_flags clients = foldl (\<lambda>(unhealthy, unknown, degraded) c.
     if readinessSatisfied (cs_policy c) (h_state (cs_health c)) then
       (unhealthy, unknown, if h_state (cs_health c) \<noteq> HealthHealthy then True else degraded)
     else if h_state (cs_health c) = HealthUnknown then (unhealthy, True, degraded)
     else (True, unknown, degraded)) (False, False, False) clients"

definition aggregate_status :: "ClientSnapshot list \<Rightarrow> op_state \<times> string" where
  "aggregate_status clients =
     (if clients = [] then (StateUnknown, ''no clients registered'')
      else (case status_flags clients of (unhealthy, unknown, degraded) \<Rightarrow>
        if unhealthy then (StateNotReady, ''one or more readiness-blocking clients are not ready'')
        else if unknown then (StateUnknown, ''one or more readiness-blocking clients have unknown health'')
        else if degraded then (StateDegraded, ''clients degraded but ready'')
        else (StateReady, ''clients healthy'')))"

definition Status :: "('d, 's) opskit_code \<Rightarrow> Registry option \<Rightarrow> (nat \<Rightarrow> Health call) \<Rightarrow> 's" where
  "Status ok r reads = (case aggregate_status (Snapshot r reads) of (state, message) \<Rightarrow>
     (case state of StateNotReady \<Rightarrow> ok_not_ready ok message | StateDegraded \<Rightarrow> ok_degraded ok message
      | StateReady \<Rightarrow> ok_ready ok message | _ \<Rightarrow> ok_unknown ok message))"

definition opskitReadinessState :: "HealthState \<Rightarrow> op_state" where
  "opskitReadinessState s = (case s of
     HealthHealthy \<Rightarrow> StateReady | HealthDegraded \<Rightarrow> StateDegraded | HealthUnhealthy \<Rightarrow> StateNotReady
   | _ \<Rightarrow> StateUnknown)"

definition readiness_item :: "ClientSnapshot \<Rightarrow> ReadinessItem" where
  "readiness_item c =
     (let blocks = BlocksReadiness (cs_policy c)
      in \<lparr>ri_name = cs_name c, ri_kind = cs_protocol c,
          ri_impact = (if blocks then ReadinessImpactBlocking else ReadinessImpactNonBlocking),
          ri_ready = (if blocks then readinessSatisfied (cs_policy c) (h_state (cs_health c))
                      else h_state (cs_health c) = HealthHealthy),
          ri_state = opskitReadinessState (h_state (cs_health c)),
          ri_reason = policy_string (cs_policy c), ri_message = h_message (cs_health c)\<rparr>)"

text \<open>The loop of \<open>Readiness\<close>: the items, the number of blocking clients and the readiness so far.\<close>

fun readiness_loop :: "ClientSnapshot list \<Rightarrow> ReadinessItem list \<Rightarrow> nat \<Rightarrow> bool \<Rightarrow> ReadinessItem list \<times> nat \<times> bool" where
  "readiness_loop [] items blocking ready = (items, blocking, ready)"
| "readiness_loop (c # cs) items blocking ready =
     (if \<not> participatesInReadiness (cs_policy c) then readiness_loop cs items blocking ready
      else (let item = readiness_item c
            in if BlocksReadiness (cs_policy c)
               then readiness_loop cs (items @ [item]) (blocking + 1) (if \<not> ri_ready item then False else ready)
               else readiness_loop cs (items @ [item]) blocking ready))"

definition Readiness :: "Registry option \<Rightarrow> (nat \<Rightarrow> Health call) \<Rightarrow> ReadinessReport" where
  "Readiness r reads =
     (let clients = Snapshot r reads
      in if clients = [] then \<lparr>rd_ready = False, rd_reason = ''no clients registered'', rd_items = []\<rparr>
         else (case readiness_loop clients [] 0 True of (items, blocking, ready) \<Rightarrow>
           if blocking = 0 then \<lparr>rd_ready = True, rd_reason = ''no required clients'', rd_items = items\<rparr>
           else \<lparr>rd_ready = ready,
                 rd_reason = (if ready then ''all readiness-blocking client policies are satisfied''
                              else ''one or more readiness-blocking client policies are not satisfied''),
                 rd_items = items\<rparr>))"

text \<open>\<open>Inspect\<close>; the context is polled before and after the snapshot.\<close>

definition Inspect ::
  "ctx_err option \<Rightarrow> ctx_err option \<Rightarrow> Registry option \<Rightarrow> (nat \<Rightarrow> Health call) \<Rightarrow> (ctx_err, ClientSnapshot list) result" where
  "Inspect before after r reads = (case before of
     Some e \<Rightarrow> Inl e
   | None \<Rightarrow> (case after of Some e \<Rightarrow> Inl e | None \<Rightarrow> Inr (Snapshot r reads)))"

definition registry_component_info :: "Registry option \<Rightarrow> ComponentInfo" where
  "registry_component_info r = (case r of
     None \<Rightarrow> defaultRegistryComponentInfo
   | Some r \<Rightarrow> if ci_name (rg_component r) = '''' then defaultRegistryComponentInfo else rg_component r)"

section \<open>What one check publishes\<close>

lemma context_failure_publishable:
  "phase \<in> {''before execution'', ''before result acceptance''} \<Longrightarrow>
   publishable (clientHealthCheckContextFailure e phase now)"
  by (cases e) (auto simp: clientHealthCheckContextFailure_def intro!: publishable_plain
      simp: validFailureClass_def plain_text_def DefaultMaxHealthMessageBytes_def to_utc_def)

lemma context_outcome_fields [simp]:
  "ho_synthetic (clientHealthCheckContextOutcome e ph now)"
  "ho_context_rejected (clientHealthCheckContextOutcome e ph now)"
  "ho_health (clientHealthCheckContextOutcome e ph now) = clientHealthCheckContextFailure e ph now"
  "ho_decided_at (clientHealthCheckContextOutcome e ph now) = to_utc now"
  by (simp_all add: clientHealthCheckContextOutcome_def clientHealthCheckContextFailure_def Let_def)

lemma context_failure_fields [simp]:
  "h_state (clientHealthCheckContextFailure e ph now) = HealthUnknown"
  "h_failure (clientHealthCheckContextFailure e ph now) =
     (case e of DeadlineExceeded \<Rightarrow> FailureTimeout | Canceled \<Rightarrow> FailureCanceled)"
  by (cases e; simp add: clientHealthCheckContextFailure_def Let_def)+

text \<open>The outcome of a check: a context failure, or the sanitized result of the checker when no context
  boundary was crossed; it is synthetic unless the checker and the sanitizer both returned.\<close>

definition outcome_of :: "Registry option \<Rightarrow> string \<Rightarrow> check_script \<Rightarrow> clientHealthCheckOutcome" where
  "outcome_of r name s = (case ks_slot s of
     Some e \<Rightarrow> clientHealthCheckContextOutcome e ''before execution'' (ks_clock s)
   | None \<Rightarrow> accept_outcome r name s (checkHealthSafely s))"

lemma checkClientHealth_outcome:
  "checkClientHealth r entry s =
     (ho_health (outcome_of r (nk_name entry) s), publish_outcome r (nk_name entry) (outcome_of r (nk_name entry) s))"
  by (simp add: checkClientHealth_def outcome_of_def Let_def split: option.split)

definition crossed_context :: "check_script \<Rightarrow> ctx_err option" where
  "crossed_context s = (case ks_slot s of Some e \<Rightarrow> Some e | None \<Rightarrow> (case ks_permit s of Some e \<Rightarrow> Some e
     | None \<Rightarrow> (case ks_returned s of Some e \<Rightarrow> Some e | None \<Rightarrow> (case ks_accept s of Some e \<Rightarrow> Some e
       | None \<Rightarrow> ks_accepted s))))"

lemma outcome_of_crossed:
  assumes "crossed_context s = Some e"
  shows "\<exists>ph t. ph \<in> {''before execution'', ''before result acceptance''} \<and>
     outcome_of r n s = clientHealthCheckContextOutcome e ph t"
proof -
  have "outcome_of r n s \<in> {clientHealthCheckContextOutcome e ''before execution'' (ks_clock s),
      clientHealthCheckContextOutcome e ''before result acceptance'' (ks_clock s),
      clientHealthCheckContextOutcome e ''before result acceptance'' (ks_accept_clock s)}"
    using assms
    by (cases "ks_check s")
      (auto simp: crossed_context_def outcome_of_def accept_outcome_def checkHealthSafely_def run_checker_def
        split: option.splits prod.splits)
  then show ?thesis by blast
qed

lemma outcome_of_accepted:
  assumes "crossed_context s = None"
  shows "outcome_of r n s =
     (let (h, panicked) = registry_sanitize_panic r n (ho_health (run_checker s))
      in \<lparr>ho_health = h,
          ho_decided_at = to_utc (if panicked then ks_accept_clock s
            else if ks_check s = Panicked then ks_clock s else ks_decided s),
          ho_synthetic = (panicked \<or> ks_check s = Panicked), ho_context_rejected = False\<rparr>)"
proof -
  from assms have n: "ks_slot s = None" "ks_permit s = None" "ks_returned s = None" "ks_accept s = None" "ks_accepted s = None"
    by (simp_all add: crossed_context_def split: option.splits)
  have f: "\<not> ho_context_rejected (run_checker s)" "ho_synthetic (run_checker s) \<longleftrightarrow> ks_check s = Panicked"
    "ho_decided_at (run_checker s) = to_utc (if ks_check s = Panicked then ks_clock s else ks_decided s)"
    by (cases "ks_check s"; simp add: run_checker_def n)+
  obtain h p where hp: "registry_sanitize_panic r n (ho_health (run_checker s)) = (h, p)" by fastforce
  have "outcome_of r n s = (if p then (run_checker s)\<lparr>ho_health := h, ho_synthetic := True, ho_decided_at := to_utc (ks_accept_clock s)\<rparr>
      else (run_checker s)\<lparr>ho_health := h\<rparr>)"
    using f(1) by (simp add: outcome_of_def checkHealthSafely_def accept_outcome_def n hp)
  with f hp show ?thesis
    by (intro clientHealthCheckOutcome.equality) simp_all
qed

text \<open>A check that crossed a context boundary is reported as unknown with the class of the context; the
  result of the checker is not used.\<close>

lemma check_rejected:
  assumes "crossed_context s = Some e" "checkClientHealth r entry s = (h, r')"
  shows "h_state h = HealthUnknown \<and> h_failure h = (case e of DeadlineExceeded \<Rightarrow> FailureTimeout | Canceled \<Rightarrow> FailureCanceled)"
    and "publishable h"
  using outcome_of_crossed [OF assms(1), of r "nk_name entry"] assms(2)
  by (auto simp: checkClientHealth_outcome context_failure_publishable)

lemma check_members:
  assumes "checkClientHealth (Some r) entry s = (h, Some r')"
  shows "same_members r r'"
  using assms
  by (auto simp: checkClientHealth_outcome publish_outcome_def intro: applyHealthCheckOutcome_members)

lemma apply_some: "\<exists>r'. applyHealthCheckOutcome (Some r) n h t sy = Some r'"
  by (cases rule: applyHealthCheckOutcome_cases [OF refl]) auto

lemma check_some: "\<exists>h r'. checkClientHealth (Some r) entry s = (h, Some r')"
  using apply_some by (simp add: checkClientHealth_outcome publish_outcome_def)

context sanitizer
begin

text \<open>Whatever the checker does, what a check returns and publishes is publishable.\<close>

lemma sanitize_panic_publishable:
  "rg_sanitizer r = Some san \<Longrightarrow> registry_sanitize_panic (Some r) n h = (h', p) \<Longrightarrow> publishable h'"
  using registry_publishable [of r n h] by (simp add: registry_sanitize_def)

lemma outcome_publishable:
  "rg_sanitizer r = Some san \<Longrightarrow> publishable (ho_health (outcome_of (Some r) n s))"
proof (cases "crossed_context s")
  case (Some e)
  with outcome_of_crossed [OF Some, of "Some r" n] show ?thesis
    by (auto simp: context_failure_publishable)
next
  case None
  assume "rg_sanitizer r = Some san"
  then show ?thesis
    by (auto simp: outcome_of_accepted [OF None] Let_def split: prod.split dest: sanitize_panic_publishable)
qed

lemma check_publishable:
  assumes "rg_sanitizer r = Some san" "checkClientHealth (Some r) entry s = (h, Some r')"
  shows "publishable h" and "overrides_publishable r \<Longrightarrow> overrides_publishable r'"
  using assms outcome_publishable [OF assms(1)]
  by (auto simp: checkClientHealth_outcome publish_outcome_def intro: applyHealthCheckOutcome_publishable)

end

section \<open>Results\<close>

text \<open>A named check is ready exactly when the policy is satisfied, for every policy a registry holds.\<close>

lemma named_check_ready:
  assumes "validateReadinessPolicy policy = None"
  shows "cr_ready (nd_result (opskitNamedClientCheck ok n pr policy h)) \<longleftrightarrow> readinessSatisfied policy (h_state h)"
  using assms
  by (auto simp: opskitNamedClientCheck_def Let_def readiness_defs split: ReadinessPolicy.splits)

lemma named_check_fields:
  "nd_name (opskitNamedClientCheck ok n pr policy h) = n"
  "nd_kind (opskitNamedClientCheck ok n pr policy h) = pr"
  "cr_state (nd_result (opskitNamedClientCheck ok n pr policy h)) = StateReady \<longleftrightarrow> h_state h = HealthHealthy"
  by (auto simp: opskitNamedClientCheck_def Let_def)

section \<open>Status and readiness agree\<close>

lemma status_flags_spec:
  "status_flags clients =
     (\<exists>c \<in> set clients. \<not> readinessSatisfied (cs_policy c) (h_state (cs_health c)) \<and> h_state (cs_health c) \<noteq> HealthUnknown,
      \<exists>c \<in> set clients. \<not> readinessSatisfied (cs_policy c) (h_state (cs_health c)) \<and> h_state (cs_health c) = HealthUnknown,
      \<exists>c \<in> set clients. readinessSatisfied (cs_policy c) (h_state (cs_health c)) \<and> h_state (cs_health c) \<noteq> HealthHealthy)"
proof (induction clients rule: rev_induct)
  case (snoc c cs)
  then show ?case unfolding status_flags_def by auto
qed (simp add: status_flags_def)

lemma readiness_loop_spec:
  "readiness_loop clients items blocking ready =
     (items @ map readiness_item (filter (\<lambda>c. participatesInReadiness (cs_policy c)) clients),
      blocking + length (filter (\<lambda>c. BlocksReadiness (cs_policy c)) clients),
      ready \<and> (\<forall>c \<in> set clients. BlocksReadiness (cs_policy c) \<longrightarrow>
        readinessSatisfied (cs_policy c) (h_state (cs_health c))))"
  by (induction clients items blocking ready rule: readiness_loop.induct)
     (auto simp: Let_def readiness_item_def dest: blocking_participates)

lemma readiness_ready_iff:
  "rd_ready (Readiness r reads) \<longleftrightarrow> Snapshot r reads \<noteq> [] \<and>
     (\<forall>c \<in> set (Snapshot r reads). BlocksReadiness (cs_policy c) \<longrightarrow>
        readinessSatisfied (cs_policy c) (h_state (cs_health c)))"
  by (auto simp: Readiness_def Let_def readiness_loop_spec filter_empty_conv)

lemma readiness_items:
  "rd_items (Readiness r reads) =
     map readiness_item (filter (\<lambda>c. participatesInReadiness (cs_policy c)) (Snapshot r reads))"
  by (auto simp: Readiness_def Let_def readiness_loop_spec)

lemma snapshot_policy_valid:
  assumes "registry_inv r" "c \<in> set (Snapshot (Some r) reads)"
  shows "validateReadinessPolicy (cs_policy c) = None"
  using assms
  by (auto simp: registry_inv_def Snapshot_set client_snapshot_def entry_ok_def readiness_defs)

lemma aggregate_status_ready:
  assumes "\<forall>c \<in> set clients. validateReadinessPolicy (cs_policy c) = None"
  shows "fst (aggregate_status clients) \<in> {StateReady, StateDegraded} \<longleftrightarrow> clients \<noteq> [] \<and>
     (\<forall>c \<in> set clients. BlocksReadiness (cs_policy c) \<longrightarrow> readinessSatisfied (cs_policy c) (h_state (cs_health c)))"
proof -
  have "readinessSatisfied (cs_policy c) (h_state (cs_health c))"
    if "c \<in> set clients" "\<not> BlocksReadiness (cs_policy c)" for c
    using not_blocking_satisfied that assms by blast
  then show ?thesis
    by (auto simp: aggregate_status_def status_flags_spec)
qed

text \<open>The aggregate status is ready or degraded exactly when readiness is reported.\<close>

lemma status_readiness:
  assumes "registry_inv r"
  shows "rd_ready (Readiness (Some r) reads) \<longleftrightarrow>
     fst (aggregate_status (Snapshot (Some r) reads)) \<in> {StateReady, StateDegraded}"
  using aggregate_status_ready [of "Snapshot (Some r) reads"] snapshot_policy_valid [OF assms]
  by (simp add: readiness_ready_iff)

lemma aggregate_status_healthy:
  assumes "\<forall>c \<in> set clients. validateReadinessPolicy (cs_policy c) = None"
  shows "fst (aggregate_status clients) = StateReady \<longleftrightarrow>
     clients \<noteq> [] \<and> (\<forall>c \<in> set clients. h_state (cs_health c) = HealthHealthy)"
proof -
  have v: "readinessSatisfied (cs_policy c) HealthHealthy" if "c \<in> set clients" for c
    using healthy_satisfies_valid that assms by blast
  show ?thesis
  proof (cases "\<forall>c \<in> set clients. h_state (cs_health c) = HealthHealthy")
    case True
    with v show ?thesis by (auto simp: aggregate_status_def status_flags_spec)
  next
    case False
    then show ?thesis by (auto simp: aggregate_status_def status_flags_spec)
  qed
qed

end
