(* ===== verification/Ck_CheckAll.thy ===== *)
theory Ck_CheckAll
  imports Ck_Opskit Ck_Steps
begin

text \<open>
  The concurrency of \<open>Registry.CheckAll\<close> in \<open>opskit.go\<close>: any number of overlapping calls, each with its
  scheduling loop and its workers, over one registry with a slot per client and a bounded number of
  permits. A step is one atomic action of one goroutine: a channel operation, a poll of the context,
  or a section under the registry mutex.
\<close>

section \<open>Workers, calls and their steps\<close>

text \<open>Where a worker is: at the range over \<open>jobs\<close>; with an index, before \<open>ctx.Err()\<close>; at the select on the
  slot; at the select on a permit; inside the checker; with the outcome of \<open>checkHealthSafely\<close>; after
  publication; gone.\<close>

datatype worker_phase =
    Idle
  | Received nat
  | Waiting nat
  | Holding nat
  | Checking nat
  | Judged nat clientHealthCheckOutcome
  | Published nat Health
  | Exited

record 'd check_call =
  ca_ctx :: "ctx_err option"
  ca_checkers :: "namedHealthChecker list"
  ca_next :: nat
  ca_closed :: bool
  ca_slots :: "'d NamedCheck option list"
  ca_workers :: "worker_phase list"

abbreviation call_worker :: "'d check_call \<Rightarrow> nat \<Rightarrow> worker_phase" where
  "call_worker c w \<equiv> ca_workers c ! w"

definition put_worker :: "nat \<Rightarrow> worker_phase \<Rightarrow> 'd check_call \<Rightarrow> 'd check_call" where
  "put_worker w p c = c\<lparr>ca_workers := (ca_workers c)[w := p]\<rparr>"

definition checker_name :: "'d check_call \<Rightarrow> nat \<Rightarrow> string" where
  "checker_name c i = nk_name (ca_checkers c ! i)"

definition set_slot :: "string \<Rightarrow> bool \<Rightarrow> Registry \<Rightarrow> Registry" where
  "set_slot name free r = (case map_of (rg_clients r) name of
     None \<Rightarrow> r
   | Some e \<Rightarrow> r\<lparr>rg_clients := AList.update name (e\<lparr>ge_slot := free\<rparr>) (rg_clients r)\<rparr>)"

text \<open>The token is in the channel, it is not, or there is no such client.\<close>

definition slot_free :: "Registry \<Rightarrow> string \<Rightarrow> bool" where
  "slot_free r name = (case map_of (rg_clients r) name of None \<Rightarrow> False | Some e \<Rightarrow> ge_slot e)"

definition slot_taken :: "Registry \<Rightarrow> string \<Rightarrow> bool" where
  "slot_taken r name = (case map_of (rg_clients r) name of None \<Rightarrow> False | Some e \<Rightarrow> \<not> ge_slot e)"

definition max_permits :: "Registry \<Rightarrow> nat" where
  "max_permits r = nat (normalizedMaxConcurrentChecks (Some r))"

text \<open>
  The permits are a buffered channel: acquiring one is a \<open>select\<close> between sending to it, possible while it is
  not full, and the end of the context; releasing one receives from it.
\<close>

inductive acquireCheckPermit :: "Registry option \<Rightarrow> ctx_err option \<Rightarrow> bool \<Rightarrow> Registry option \<Rightarrow> bool" where
  no_registry: "acquireCheckPermit None ctx False None"
| permit_sent: "acquireCheckPermit (Some r) ctx True (Some (r\<lparr>rg_permits := rg_permits r + 1\<rparr>))"
    if "rg_permits r < max_permits r"
| context_done: "acquireCheckPermit (Some r) ctx False (Some r)"
    if "ctx \<noteq> None"

inductive_simps acquired_permit [simp]: "acquireCheckPermit (Some r) ctx True (Some r')"
inductive_simps refused_permit [simp]: "acquireCheckPermit (Some r) ctx False (Some r')"

definition releaseCheckPermit :: "Registry \<Rightarrow> Registry option" where
  "releaseCheckPermit r = (if 0 < rg_permits r then Some (r\<lparr>rg_permits := rg_permits r - 1\<rparr>) else None)"

lemma released_permit [simp]:
  "releaseCheckPermit r = Some r' \<longleftrightarrow> 0 < rg_permits r \<and> r' = r\<lparr>rg_permits := rg_permits r - 1\<rparr>"
  by (auto simp: releaseCheckPermit_def)

text \<open>The workers and slots a call starts with, once it has found checkers.\<close>

definition start_call :: "Registry \<Rightarrow> ctx_err option \<Rightarrow> 'd check_call" where
  "start_call r ctx =
     (let checkers = healthCheckersSnapshot (Some r);
          workerCount = (if max_permits r > length checkers then length checkers else max_permits r)
      in \<lparr>ca_ctx = ctx, ca_checkers = checkers, ca_next = 0, ca_closed = False,
          ca_slots = replicate (length checkers) None, ca_workers = replicate workerCount Idle\<rparr>)"

text \<open>
  The steps of one call. \<open>schedule\<close> is the rendezvous on the unbuffered \<open>jobs\<close>; \<open>stop\<close> the select that
  chose the context. A script says what the checker, the polls and the clock answer; its last poll is
  the state of the context at the step.
\<close>

inductive call_step ::
  "('d, 's) opskit_code \<Rightarrow> Registry \<Rightarrow> 'd check_call \<Rightarrow> Registry \<Rightarrow> 'd check_call \<Rightarrow> bool" for ok where
  schedule: "call_step ok r c r (put_worker w (Received (ca_next c)) (c\<lparr>ca_next := ca_next c + 1\<rparr>))"
    if "\<not> ca_closed c" "ca_next c < length (ca_checkers c)" "w < length (ca_workers c)" "call_worker c w = Idle"
| stop: "call_step ok r c r (c\<lparr>ca_closed := True\<rparr>)"
    if "\<not> ca_closed c" "ca_next c < length (ca_checkers c)" "ca_ctx c \<noteq> None"
| scheduled: "call_step ok r c r (c\<lparr>ca_closed := True\<rparr>)"
    if "\<not> ca_closed c" "ca_next c = length (ca_checkers c)"
| skip: "call_step ok r c r (put_worker w Idle c)"
    if "w < length (ca_workers c)" "call_worker c w = Received i" "ca_ctx c \<noteq> None"
| enter: "call_step ok r c r (put_worker w (Waiting i) c)"
    if "w < length (ca_workers c)" "call_worker c w = Received i" "ca_ctx c = None"
| slot_rejected: "call_step ok r c r'
      (put_worker w Idle (c\<lparr>ca_slots := (ca_slots c)[i := Some (opskitNamedClientCheck ok
         (nk_name (ca_checkers c ! i)) (nk_protocol (ca_checkers c ! i)) (nk_policy (ca_checkers c ! i)) (ho_health out))]\<rparr>))"
    if "w < length (ca_workers c)" "call_worker c w = Waiting i" "ca_ctx c = Some e"
       "out = clientHealthCheckContextOutcome e ''before execution'' now"
       "publish_outcome (Some r) (checker_name c i) out = Some r'"
| slot_received: "call_step ok r c (set_slot (checker_name c i) False r) (put_worker w (Holding i) c)"
    if "w < length (ca_workers c)" "call_worker c w = Waiting i" "slot_free r (checker_name c i)"
| permit_rejected: "call_step ok r c r'
      (put_worker w (Judged i (clientHealthCheckContextOutcome e ''before execution'' now)) c)"
    if "w < length (ca_workers c)" "call_worker c w = Holding i" "ca_ctx c = Some e"
       "acquireCheckPermit (Some r) (ca_ctx c) False (Some r')"
| permit_acquired: "call_step ok r c r' (put_worker w (Checking i) c)"
    if "w < length (ca_workers c)" "call_worker c w = Holding i"
       "acquireCheckPermit (Some r) (ca_ctx c) True (Some r')"
| checked: "call_step ok r c r' (put_worker w (Judged i (run_checker s)) c)"
    if "w < length (ca_workers c)" "call_worker c w = Checking i" "ks_returned s = ca_ctx c"
       "releaseCheckPermit r = Some r'"
| publish: "call_step ok r c r' (put_worker w (Published i (ho_health out)) c)"
    if "w < length (ca_workers c)" "call_worker c w = Judged i judged"
       "ks_accept s = None \<or> ks_accept s = ca_ctx c" "ks_accepted s = ca_ctx c"
       "out = accept_outcome (Some r) (checker_name c i) s judged"
       "publish_outcome (Some r) (checker_name c i) out = Some r'"
| release: "call_step ok r c (set_slot (checker_name c i) True r)
      (put_worker w Idle (c\<lparr>ca_slots := (ca_slots c)[i := Some (opskitNamedClientCheck ok
         (nk_name (ca_checkers c ! i)) (nk_protocol (ca_checkers c ! i)) (nk_policy (ca_checkers c ! i)) h)]\<rparr>))"
    if "w < length (ca_workers c)" "call_worker c w = Published i h" "slot_taken r (checker_name c i)"
| exit: "call_step ok r c r (put_worker w Exited c)"
    if "w < length (ca_workers c)" "call_worker c w = Idle" "ca_closed c"

section \<open>The system\<close>

record 'd check_system =
  sy_registry :: Registry
  sy_calls :: "'d check_call list"

text \<open>Besides the steps of the calls: a context ends, a call starts, clients are registered.\<close>

inductive system_step :: "('d, 's) opskit_code \<Rightarrow> 'd check_system \<Rightarrow> 'd check_system \<Rightarrow> bool" for ok where
  act: "system_step ok s \<lparr>sy_registry = r', sy_calls = (sy_calls s)[k := c']\<rparr>"
    if "k < length (sy_calls s)" "call_step ok (sy_registry s) (sy_calls s ! k) r' c'"
| context_ends: "system_step ok s (s\<lparr>sy_calls := (sy_calls s)[k := (sy_calls s ! k)\<lparr>ca_ctx := Some e\<rparr>]\<rparr>)"
    if "k < length (sy_calls s)" "ca_ctx (sy_calls s ! k) = None"
| call: "system_step ok s (s\<lparr>sy_calls := sy_calls s @ [start_call (sy_registry s) ctx]\<rparr>)"
    if "healthCheckersSnapshot (Some (sy_registry s)) \<noteq> []"
| registers: "system_step ok s (s\<lparr>sy_registry := r'\<rparr>)"
    if "RegisterAll (Some (sy_registry s)) cs = (e, Some r')"

inductive_cases call_stepE: "call_step ok r c r' c'"
inductive_cases system_stepE: "system_step ok s s'"

inductive reachable_checks :: "('d, 's) opskit_code \<Rightarrow> Registry \<Rightarrow> 'd check_system \<Rightarrow> bool" for ok r0 where
  initial: "reachable_checks ok r0 \<lparr>sy_registry = r0, sy_calls = []\<rparr>"
| further: "reachable_checks ok r0 s \<Longrightarrow> system_step ok s s' \<Longrightarrow> reachable_checks ok r0 s'"

section \<open>Registry operations of a check\<close>

definition names_of :: "Registry \<Rightarrow> string set" where
  "names_of r = fst ` set (rg_clients r)"

text \<open>What never changes, and what only grows, while checks run and clients are registered.\<close>

definition grows :: "Registry \<Rightarrow> Registry \<Rightarrow> bool" where
  "grows r r' \<longleftrightarrow> names_of r \<subseteq> names_of r' \<and> rg_max_checks r' = rg_max_checks r \<and>
     rg_sanitizer r' = rg_sanitizer r \<and> rg_disable_sanitizer r' = rg_disable_sanitizer r"

lemma grows_refl [simp]: "grows r r"
  by (simp add: grows_def)

lemma grows_permits [simp]: "grows r (r\<lparr>rg_permits := k\<rparr>)"
  by (simp add: grows_def names_of_def)

lemma grows_trans: "grows r r' \<Longrightarrow> grows r' r'' \<Longrightarrow> grows r r''"
  by (auto simp: grows_def)

lemma names_update: "map_of m n = Some e \<Longrightarrow> fst ` set (AList.update n e' m) = fst ` set m"
  by (induction m) (auto split: if_splits)

lemma slot_simps [simp]:
  "slot_free (r\<lparr>rg_permits := k\<rparr>) = slot_free r" "slot_taken (r\<lparr>rg_permits := k\<rparr>) = slot_taken r"
  "names_of (r\<lparr>rg_permits := k\<rparr>) = names_of r" "max_permits (r\<lparr>rg_permits := k\<rparr>) = max_permits r"
  by (simp_all add: slot_free_def slot_taken_def names_of_def max_permits_def normalizedMaxConcurrentChecks_def fun_eq_iff)

lemma slot_exclusive: "slot_free r n \<Longrightarrow> \<not> slot_taken r n"
  by (auto simp: slot_free_def slot_taken_def split: option.splits)

lemma slot_known: "n \<in> names_of r \<Longrightarrow> slot_taken r n \<longleftrightarrow> \<not> slot_free r n"
  by (auto simp: slot_free_def slot_taken_def names_of_def split: option.split dest: weak_map_of_SomeI)

lemma set_slot_spec:
  assumes "slot_free r n \<or> slot_taken r n"
  shows "slot_free (set_slot n b r) m \<longleftrightarrow> (if m = n then b else slot_free r m)"
    and "names_of (set_slot n b r) = names_of r" "rg_permits (set_slot n b r) = rg_permits r"
    and "grows r (set_slot n b r)" and "max_permits (set_slot n b r) = max_permits r"
proof -
  obtain e where e: "map_of (rg_clients r) n = Some e"
    using assms by (auto simp: slot_free_def slot_taken_def split: option.splits)
  show "slot_free (set_slot n b r) m \<longleftrightarrow> (if m = n then b else slot_free r m)"
    using e by (auto simp: set_slot_def slot_free_def update_conv split: option.split)
  show "names_of (set_slot n b r) = names_of r" "rg_permits (set_slot n b r) = rg_permits r"
    using e by (simp_all add: set_slot_def names_of_def names_update)
  then show "grows r (set_slot n b r)" "max_permits (set_slot n b r) = max_permits r"
    using e by (simp_all add: grows_def set_slot_def max_permits_def normalizedMaxConcurrentChecks_def)
qed

lemma publish_spec:
  assumes "publish_outcome (Some r) n out = Some r'"
  shows "slot_free r' m = slot_free r m" "names_of r' = names_of r" "rg_permits r' = rg_permits r"
    "grows r r'" "max_permits r' = max_permits r"
proof -
  consider "r' = r" | e ov where "map_of (rg_clients r) n = Some e"
      "r' = r\<lparr>rg_clients := AList.update n (e\<lparr>ge_synthetic := ov\<rparr>) (rg_clients r)\<rparr>"
    using assms unfolding publish_outcome_def by (cases rule: applyHealthCheckOutcome_cases) blast+
  note c = this
  show "slot_free r' m = slot_free r m"
    by (cases rule: c) (simp, auto simp: slot_free_def update_conv split: option.split)
  show n: "names_of r' = names_of r" and "rg_permits r' = rg_permits r"
    by (cases rule: c; simp add: names_of_def names_update)+
  show "grows r r'" "max_permits r' = max_permits r"
    using n by (cases rule: c; simp add: grows_def max_permits_def normalizedMaxConcurrentChecks_def)+
qed

section \<open>Tokens and permits are conserved\<close>

fun phase_index :: "worker_phase \<Rightarrow> nat option" where
  "phase_index (Received i) = Some i"
| "phase_index (Waiting i) = Some i"
| "phase_index (Holding i) = Some i"
| "phase_index (Checking i) = Some i"
| "phase_index (Judged i _) = Some i"
| "phase_index (Published i _) = Some i"
| "phase_index _ = None"

fun held_index :: "worker_phase \<Rightarrow> nat option" where
  "held_index (Holding i) = Some i"
| "held_index (Checking i) = Some i"
| "held_index (Judged i _) = Some i"
| "held_index (Published i _) = Some i"
| "held_index _ = None"

fun is_checking :: "worker_phase \<Rightarrow> bool" where
  "is_checking (Checking _) = True"
| "is_checking _ = False"

definition holds_name :: "'d check_call \<Rightarrow> string \<Rightarrow> worker_phase \<Rightarrow> bool" where
  "holds_name c n p = (case held_index p of None \<Rightarrow> False | Some i \<Rightarrow> checker_name c i = n)"

definition holders :: "string \<Rightarrow> 'd check_call \<Rightarrow> nat" where
  "holders n c = tally (holds_name c n) (ca_workers c)"

definition running :: "'d check_call \<Rightarrow> nat" where
  "running c = tally is_checking (ca_workers c)"

lemma put_worker_simps [simp]:
  "ca_ctx (put_worker w p c) = ca_ctx c" "ca_checkers (put_worker w p c) = ca_checkers c"
  "ca_next (put_worker w p c) = ca_next c" "ca_closed (put_worker w p c) = ca_closed c"
  "ca_slots (put_worker w p c) = ca_slots c" "ca_workers (put_worker w p c) = (ca_workers c)[w := p]"
  "checker_name (put_worker w p c) = checker_name c"
  by (simp_all add: put_worker_def checker_name_def fun_eq_iff)

lemma checker_name_simps [simp]:
  "checker_name (c\<lparr>ca_next := x\<rparr>) = checker_name c" "checker_name (c\<lparr>ca_closed := y\<rparr>) = checker_name c"
  "checker_name (c\<lparr>ca_slots := z\<rparr>) = checker_name c" "checker_name (c\<lparr>ca_ctx := u\<rparr>) = checker_name c"
  by (simp_all add: checker_name_def fun_eq_iff)

lemma holds_name_cong: "checker_name c' = checker_name c \<Longrightarrow> holds_name c' = holds_name c"
  by (auto simp: holds_name_def fun_eq_iff split: option.split)

lemma holds_name_simps [simp]:
  "holds_name (put_worker w p c) = holds_name c"
  "holds_name (c\<lparr>ca_next := x\<rparr>) = holds_name c" "holds_name (c\<lparr>ca_closed := y\<rparr>) = holds_name c"
  "holds_name (c\<lparr>ca_slots := z\<rparr>) = holds_name c" "holds_name (c\<lparr>ca_ctx := u\<rparr>) = holds_name c"
  by (rule holds_name_cong; simp)+

text \<open>A worker's move changes a count by what it was and what it becomes.\<close>

lemma tally_move [simp]:
  "i < length xs \<Longrightarrow> P (xs ! i) = P x \<Longrightarrow> tally P (xs[i := x]) = tally P xs"
  "i < length xs \<Longrightarrow> \<not> P (xs ! i) \<Longrightarrow> P x \<Longrightarrow> tally P (xs[i := x]) = Suc (tally P xs)"
  "i < length xs \<Longrightarrow> P (xs ! i) \<Longrightarrow> \<not> P x \<Longrightarrow> Suc (tally P (xs[i := x])) = tally P xs"
  using tally_update [of i xs P x] by auto

lemma held_simps [simp]: "held_index p = None \<Longrightarrow> \<not> holds_name c n p"
  "held_index p = Some i \<Longrightarrow> holds_name c n p \<longleftrightarrow> checker_name c i = n"
  by (auto simp: holds_name_def)

lemma call_step_permits:
  assumes "call_step ok r c r' c'"
  shows "rg_permits r' + running c = rg_permits r + running c'"
  using assms
proof cases
  case (checked w i s)
  with tally_update [of w "ca_workers c" is_checking "Judged i (run_checker s)"] show ?thesis
    by (simp add: running_def del: tally_move)
qed (auto simp: running_def set_slot_spec publish_spec)

lemma call_step_tokens:
  assumes "call_step ok r c r' c'"
  shows "of_bool (slot_free r' n) + holders n c' = of_bool (slot_free r n) + holders n c"
  using assms
proof cases
  case (slot_received w i)
  with tally_update [of w "ca_workers c" "holds_name c n" "Holding i"]
  show ?thesis by (auto simp: holders_def set_slot_spec)
next
  case (release w i h)
  with tally_update [of w "ca_workers c" "holds_name c n" Idle] slot_exclusive [of r "checker_name c i"]
  show ?thesis by (auto simp: holders_def set_slot_spec)
qed (auto simp: holders_def publish_spec)

lemma call_step_grows:
  assumes "call_step ok r c r' c'"
  shows "grows r r'" "names_of r' = names_of r" "max_permits r' = max_permits r"
    and "rg_permits r \<le> max_permits r \<Longrightarrow> rg_permits r' \<le> max_permits r'"
    and "ca_checkers c' = ca_checkers c" "ca_ctx c' = ca_ctx c"
  using assms by (cases; auto simp: set_slot_spec publish_spec)+

section \<open>Every index is handled at most once\<close>

definition at_index :: "nat \<Rightarrow> 'd check_call \<Rightarrow> nat" where
  "at_index i c = tally (\<lambda>p. phase_index p = Some i) (ca_workers c)"

definition filled :: "nat \<Rightarrow> 'd check_call \<Rightarrow> bool" where
  "filled i c \<longleftrightarrow> i < length (ca_slots c) \<and> ca_slots c ! i \<noteq> None"

text \<open>An index the loop has handed out is with one worker or has its result; only a worker that saw an
  ended context drops it.\<close>

definition account :: "nat \<Rightarrow> 'd check_call \<Rightarrow> nat" where
  "account i c = at_index i c + of_bool (filled i c)"

definition index_inv :: "'d check_call \<Rightarrow> bool" where
  "index_inv c \<longleftrightarrow>
     length (ca_slots c) = length (ca_checkers c) \<and> ca_next c \<le> length (ca_checkers c) \<and>
     (\<forall>i. account i c \<le> of_bool (i < ca_next c)) \<and>
     (ca_ctx c = None \<longrightarrow> (\<forall>i. account i c = of_bool (i < ca_next c))) \<and>
     (ca_closed c \<longrightarrow> ca_next c = length (ca_checkers c) \<or> ca_ctx c \<noteq> None) \<and>
     ca_workers c \<noteq> [] \<and> (Exited \<in> set (ca_workers c) \<longrightarrow> ca_closed c)"

lemma index_of_worker:
  assumes "index_inv c" "w < length (ca_workers c)" "phase_index (call_worker c w) = Some i"
  shows "i < ca_next c" "i < length (ca_checkers c)" "\<not> filled i c" "at_index i c = 1"
proof -
  have "1 \<le> at_index i c" unfolding at_index_def using assms(2,3) by (intro tally_ge)
  moreover have "account i c \<le> of_bool (i < ca_next c)" using assms(1) by (simp add: index_inv_def)
  ultimately show "i < ca_next c" "\<not> filled i c" "at_index i c = 1"
    by (auto simp: account_def of_bool_def split: if_splits)
  then show "i < length (ca_checkers c)" using assms(1) by (simp add: index_inv_def)
qed

lemma filled_simps [simp]:
  "filled i (put_worker w p c) = filled i c"
  "filled i (c\<lparr>ca_next := x\<rparr>) = filled i c" "filled i (c\<lparr>ca_closed := y\<rparr>) = filled i c"
  "filled i (c\<lparr>ca_ctx := u\<rparr>) = filled i c"
  "j < length (ca_slots c) \<Longrightarrow> filled i (c\<lparr>ca_slots := (ca_slots c)[j := Some z]\<rparr>) \<longleftrightarrow> i = j \<or> filled i c"
  by (auto simp: filled_def nth_list_update)

text \<open>How a step changes the account of an index.\<close>

lemma at_index_put:
  assumes "w < length (ca_workers c)" "ca_workers c' = (ca_workers c)[w := p]"
  shows "at_index i c' + of_bool (phase_index (call_worker c w) = Some i) = at_index i c + of_bool (phase_index p = Some i)"
  unfolding at_index_def assms(2) by (rule tally_update [OF assms(1)])

lemma call_step_account:
  assumes "call_step ok r c r' c'" "index_inv c"
  shows "account i c' \<le> account i c + of_bool (i = ca_next c \<and> ca_next c' = Suc (ca_next c))"
    and "ca_ctx c = None \<Longrightarrow> account i c' = account i c + of_bool (i = ca_next c \<and> ca_next c' = Suc (ca_next c))"
proof -
  have len: "length (ca_slots c) = length (ca_checkers c)" using assms(2) by (simp add: index_inv_def)
  have "account i c' \<le> account i c + of_bool (i = ca_next c \<and> ca_next c' = Suc (ca_next c)) \<and>
    (ca_ctx c = None \<longrightarrow> account i c' = account i c + of_bool (i = ca_next c \<and> ca_next c' = Suc (ca_next c)))"
    using assms(1)
  proof cases
    case (schedule w)
    with at_index_put [of w c c' "Received (ca_next c)" i] show ?thesis by (auto simp: account_def)
  next
    case (skip w j)
    with at_index_put [of w c c' Idle i] show ?thesis by (auto simp: account_def)
  next
    case (slot_rejected w j e out now)
    note j = index_of_worker [OF assms(2) slot_rejected(2), of j]
    from slot_rejected at_index_put [of w c c' Idle i] j len show ?thesis by (auto simp: account_def)
  next
    case (release w j h)
    note j = index_of_worker [OF assms(2) release(3), of j]
    from release at_index_put [of w c c' Idle i] j len show ?thesis by (auto simp: account_def)
  qed (auto simp: account_def at_index_def)
  then show "account i c' \<le> account i c + of_bool (i = ca_next c \<and> ca_next c' = Suc (ca_next c))"
    and "ca_ctx c = None \<Longrightarrow> account i c' = account i c + of_bool (i = ca_next c \<and> ca_next c' = Suc (ca_next c))"
    by blast+
qed

lemma call_step_frame:
  assumes "call_step ok r c r' c'" "index_inv c"
  shows "length (ca_slots c') = length (ca_slots c)" "ca_workers c' \<noteq> []"
    and "ca_next c' = ca_next c \<or> ca_next c' = Suc (ca_next c) \<and> ca_next c < length (ca_checkers c)"
    and "ca_closed c' \<longrightarrow> ca_next c' = length (ca_checkers c') \<or> ca_ctx c' \<noteq> None"
    and "Exited \<in> set (ca_workers c') \<longrightarrow> ca_closed c'"
  using assms
  by (cases; auto simp: index_inv_def dest!: set_update_subset_insert [THEN subsetD])+

lemma call_step_index:
  assumes "call_step ok r c r' c'" "index_inv c"
  shows "index_inv c'"
proof -
  note f = call_step_frame [OF assms] and g = call_step_grows [OF assms(1)] and a = call_step_account [OF assms]
  have i: "\<forall>i. account i c \<le> of_bool (i < ca_next c)" "ca_ctx c = None \<longrightarrow> (\<forall>i. account i c = of_bool (i < ca_next c))"
    "length (ca_slots c) = length (ca_checkers c)" "ca_next c \<le> length (ca_checkers c)"
    using assms(2) by (simp_all add: index_inv_def)
  have "account i c' \<le> of_bool (i < ca_next c')" for i
    using a(1) [of i] spec [OF i(1), of i] f(3) by (auto simp: of_bool_def split: if_splits)
  moreover have "account i c' = of_bool (i < ca_next c')" if "ca_ctx c' = None" for i
    using a(2) [of i] i(2) f(3) g(6) that by (auto simp: of_bool_def split: if_splits)
  ultimately show ?thesis using f g(5,6) i(3,4) by (auto simp: index_inv_def)
qed

section \<open>A worker performs one client check\<close>

text \<open>
  The refinement: whatever the interleaving, the result a call records for a checker is that of one
  \<open>checkClientHealth\<close>, seen as an atomic action, whose polls of the context are those of the context of the
  call: not ended up to some poll, and ended with the error of that context from then on.
\<close>

definition polls :: "check_script \<Rightarrow> ctx_err option list" where
  "polls s = [ks_slot s, ks_permit s, ks_returned s, ks_accept s, ks_accepted s]"

definition context_polls :: "ctx_err option \<Rightarrow> check_script \<Rightarrow> bool" where
  "context_polls ctx s \<longleftrightarrow> set (polls s) \<subseteq> {None, ctx} \<and> sorted_wrt (\<lambda>x y. x = None \<or> y = x) (polls s)"

lemma context_polls_ends: "context_polls None s \<Longrightarrow> context_polls ctx s"
  by (auto simp: context_polls_def polls_def)

definition phase_ok :: "Registry \<Rightarrow> 'd check_call \<Rightarrow> worker_phase \<Rightarrow> bool" where
  "phase_ok r c p \<longleftrightarrow> (case p of
     Judged i out \<Rightarrow> \<exists>s. context_polls (ca_ctx c) s \<and> ks_slot s = None \<and> out = checkHealthSafely s
   | Published i h \<Rightarrow> \<exists>s. context_polls (ca_ctx c) s \<and> h = fst (checkClientHealth (Some r) (ca_checkers c ! i) s)
   | _ \<Rightarrow> True)"

definition check_of :: "('d, 's) opskit_code \<Rightarrow> Registry \<Rightarrow> namedHealthChecker \<Rightarrow> check_script \<Rightarrow> 'd NamedCheck" where
  "check_of ok r k s = opskitNamedClientCheck ok (nk_name k) (nk_protocol k) (nk_policy k)
     (fst (checkClientHealth (Some r) k s))"

text \<open>A result that one check of the client gives under the context of the call.\<close>

definition result_of :: "('d, 's) opskit_code \<Rightarrow> Registry \<Rightarrow> ctx_err option \<Rightarrow> namedHealthChecker \<Rightarrow> 'd NamedCheck \<Rightarrow> bool" where
  "result_of ok r ctx k x \<longleftrightarrow> (\<exists>s. context_polls ctx s \<and> x = check_of ok r k s)"

definition result_inv :: "('d, 's) opskit_code \<Rightarrow> Registry \<Rightarrow> 'd check_call \<Rightarrow> bool" where
  "result_inv ok r c \<longleftrightarrow> (\<forall>p \<in> set (ca_workers c). phase_ok r c p) \<and>
     (\<forall>i x. i < length (ca_slots c) \<longrightarrow> ca_slots c ! i = Some x \<longrightarrow> result_of ok r (ca_ctx c) (ca_checkers c ! i) x)"

lemma outcome_of_grows:
  assumes "grows r r'"
  shows "outcome_of (Some r') n s = outcome_of (Some r) n s"
proof -
  have "registry_sanitize_panic (Some r') = registry_sanitize_panic (Some r)"
    using assms by (simp add: grows_def registry_sanitize_panic_def fun_eq_iff)
  then show ?thesis unfolding outcome_of_def accept_outcome_def by (rule ssubst) (rule refl)
qed

lemma check_health_grows: "grows r r' \<Longrightarrow> fst (checkClientHealth (Some r') k s) = fst (checkClientHealth (Some r) k s)"
  by (simp add: checkClientHealth_outcome outcome_of_grows)

lemma phase_ok_grows:
  "grows r r' \<Longrightarrow> ca_checkers c' = ca_checkers c \<Longrightarrow> ca_ctx c' = ca_ctx c \<Longrightarrow> phase_ok r' c' p = phase_ok r c p"
  by (auto simp: phase_ok_def check_health_grows split: worker_phase.split)

lemma phase_ok_simps [simp]:
  "phase_ok r c Idle" "phase_ok r c Exited" "phase_ok r c (Received i)" "phase_ok r c (Waiting i)"
  "phase_ok r c (Holding i)" "phase_ok r c (Checking i)"
  by (simp_all add: phase_ok_def)

lemma result_inv_grows: "grows r r' \<Longrightarrow> result_inv ok r' c = result_inv ok r c"
  by (simp add: result_inv_def phase_ok_grows result_of_def check_of_def check_health_grows)

text \<open>Any outcome of the checker and any answers around the sanitizer come from one script.\<close>

lemma judged_rejected:
  "\<exists>s. context_polls (Some e) s \<and> ks_slot s = None \<and>
     clientHealthCheckContextOutcome e ''before execution'' now = checkHealthSafely s"
  by (rule exI [of _ "\<lparr>ks_slot = None, ks_permit = Some e, ks_check = Panicked, ks_decided = now, ks_returned = Some e,
      ks_accept = Some e, ks_accepted = Some e, ks_clock = now, ks_accept_clock = now\<rparr>"])
    (simp add: checkHealthSafely_def context_polls_def polls_def)

lemma judged_run:
  "\<exists>s'. context_polls (ks_returned s) s' \<and> ks_slot s' = None \<and> run_checker s = checkHealthSafely s'"
  by (rule exI [of _ "s\<lparr>ks_slot := None, ks_permit := None, ks_accept := ks_returned s, ks_accepted := ks_returned s\<rparr>"])
    (simp add: checkHealthSafely_def run_checker_def context_polls_def polls_def split: option.split call.split)

lemma accept_outcome_cong:
  "ks_accept s = ks_accept t \<Longrightarrow> ks_accepted s = ks_accepted t \<Longrightarrow> ks_accept_clock s = ks_accept_clock t \<Longrightarrow>
   accept_outcome r n s out = accept_outcome r n t out"
  unfolding accept_outcome_def by presburger

text \<open>An outcome of the checker that no context end rejected saw no end of the context.\<close>

lemma checkHealthSafely_rejected:
  "ho_context_rejected (checkHealthSafely s) \<longleftrightarrow> ks_permit s \<noteq> None \<or> ks_returned s \<noteq> None"
  by (auto simp: checkHealthSafely_def run_checker_def split: option.split call.split)

lemma published_accepted:
  assumes "context_polls ctx s" "ks_slot s = None" "ks_accept t = None \<or> ks_accept t = ctx" "ks_accepted t = ctx"
  shows "\<exists>s'. context_polls ctx s' \<and> ho_health (accept_outcome (Some r) (nk_name k) t (checkHealthSafely s)) =
    fst (checkClientHealth (Some r) k s')"
proof (cases "ho_context_rejected (checkHealthSafely s)")
  case True
  then have "ho_health (accept_outcome (Some r) (nk_name k) t (checkHealthSafely s)) = fst (checkClientHealth (Some r) k s)"
    using assms(2) by (simp add: checkClientHealth_def accept_outcome_def Let_def)
  with assms(1) show ?thesis by blast
next
  case False
  let ?s = "s\<lparr>ks_accept := ks_accept t, ks_accepted := ks_accepted t, ks_accept_clock := ks_accept_clock t\<rparr>"
  have "checkHealthSafely ?s = checkHealthSafely s"
    by (simp add: checkHealthSafely_def run_checker_def split: option.split call.split)
  then have "ho_health (accept_outcome (Some r) (nk_name k) t (checkHealthSafely s)) = fst (checkClientHealth (Some r) k ?s)"
    using assms(2) accept_outcome_cong [of ?s t "Some r" "nk_name k"] by (simp add: checkClientHealth_def Let_def)
  moreover have "context_polls ctx ?s"
    using False assms by (auto simp: checkHealthSafely_rejected context_polls_def polls_def)
  ultimately show ?thesis by blast
qed

lemma rejected_slot:
  "\<exists>s. context_polls (Some e) s \<and> clientHealthCheckContextFailure e ''before execution'' now = fst (checkClientHealth r k s)"
  by (rule exI [of _ "\<lparr>ks_slot = Some e, ks_permit = Some e, ks_check = Panicked, ks_decided = now, ks_returned = Some e,
      ks_accept = Some e, ks_accepted = Some e, ks_clock = now, ks_accept_clock = now\<rparr>"])
    (simp add: checkClientHealth_def context_polls_def polls_def)

lemma result_inv_put:
  assumes "result_inv ok r c" "ca_checkers c' = ca_checkers c" "ca_ctx c' = ca_ctx c"
    and "ca_workers c' = (ca_workers c)[w := p]" "phase_ok r c p"
    and "ca_slots c' = ca_slots c \<or>
      (\<exists>i x. ca_slots c' = (ca_slots c)[i := Some x] \<and> result_of ok r (ca_ctx c) (ca_checkers c ! i) x)"
  shows "result_inv ok r c'"
proof -
  have "phase_ok r c' q" if "q \<in> set (ca_workers c')" for q
    using that assms set_update_subset_insert [of "ca_workers c" w p] phase_ok_grows [of r r c' c q]
    by (auto simp: result_inv_def)
  moreover have "result_of ok r (ca_ctx c) (ca_checkers c ! i) x" if "i < length (ca_slots c')" "ca_slots c' ! i = Some x" for i x
  proof (cases "ca_slots c' = ca_slots c")
    case True
    with that assms(1) show ?thesis by (simp add: result_inv_def)
  next
    case False
    with assms(6) obtain j y where "ca_slots c' = (ca_slots c)[j := Some y]" "result_of ok r (ca_ctx c) (ca_checkers c ! j) y" by blast
    with that assms(1) show ?thesis by (cases "i = j") (auto simp: result_inv_def)
  qed
  ultimately show ?thesis using assms(2,3) by (simp add: result_inv_def)
qed

lemma worker_phase_ok: "result_inv ok r c \<Longrightarrow> w < length (ca_workers c) \<Longrightarrow> phase_ok r c (call_worker c w)"
  by (simp add: result_inv_def)

lemma result_inv_moved:
  "result_inv ok r c \<Longrightarrow> phase_ok r c p \<Longrightarrow> ca_checkers c' = ca_checkers c \<Longrightarrow> ca_ctx c' = ca_ctx c \<Longrightarrow>
   ca_slots c' = ca_slots c \<Longrightarrow> ca_workers c' = (ca_workers c)[w := p] \<Longrightarrow> result_inv ok r c'"
  by (erule result_inv_put) simp_all

lemma judged_phases:
  "ca_ctx c = Some e \<Longrightarrow> phase_ok r c (Judged i (clientHealthCheckContextOutcome e ''before execution'' now))"
  "ks_returned s = ca_ctx c \<Longrightarrow> phase_ok r c (Judged i (run_checker s))"
  using judged_rejected judged_run [of s] by (simp_all add: phase_ok_def)

lemma result_inv_closed: "result_inv ok r (c\<lparr>ca_closed := b\<rparr>) = result_inv ok r c"
  using phase_ok_grows [of r r "c\<lparr>ca_closed := b\<rparr>" c] by (simp add: result_inv_def)

text \<open>The steps that fill a slot or change what a worker holds as a result.\<close>

lemma published_phase:
  assumes "result_inv ok r c" "w < length (ca_workers c)" "call_worker c w = Judged i judged"
    and "ks_accept s = None \<or> ks_accept s = ca_ctx c" "ks_accepted s = ca_ctx c"
  shows "phase_ok r c (Published i (ho_health (accept_outcome (Some r) (checker_name c i) s judged)))"
proof -
  from worker_phase_ok [OF assms(1,2)] assms(3)
  obtain s' where "context_polls (ca_ctx c) s'" "ks_slot s' = None" "judged = checkHealthSafely s'" by (auto simp: phase_ok_def)
  with published_accepted [of "ca_ctx c" s' s r "ca_checkers c ! i"] assms(4,5) show ?thesis
    by (auto simp: phase_ok_def checker_name_def)
qed

lemma call_step_result:
  assumes "call_step ok r c r' c'" "result_inv ok r c"
  shows "result_inv ok r' c'"
proof -
  note moved = result_inv_moved [OF assms(2), of _ c']
  have "result_inv ok r c'"
    using assms(1)
  proof cases
    case (slot_rejected w i e out now)
    obtain s where "context_polls (Some e) s" "clientHealthCheckContextFailure e ''before execution'' now =
        fst (checkClientHealth (Some r) (ca_checkers c ! i) s)"
      using rejected_slot by blast
    with slot_rejected show ?thesis
      by (intro result_inv_put [OF assms(2), of c' w Idle]) (auto simp: result_of_def check_of_def)
  next
    case (release w i h)
    from worker_phase_ok [OF assms(2) release(3)] release(4)
    obtain s where "context_polls (ca_ctx c) s" "h = fst (checkClientHealth (Some r) (ca_checkers c ! i) s)"
      by (auto simp: phase_ok_def)
    with release show ?thesis
      by (intro result_inv_put [OF assms(2), of c' w Idle]) (auto simp: result_of_def check_of_def)
  next
    case (publish w i judged s out)
    with published_phase [OF assms(2), of w i judged s] show ?thesis by (intro moved) simp_all
  next
    case stop
    with assms(2) show ?thesis by (simp add: result_inv_closed)
  next
    case scheduled
    with assms(2) show ?thesis by (simp add: result_inv_closed)
  qed (rule moved; simp add: judged_phases)+
  then show ?thesis using result_inv_grows call_step_grows(1) [OF assms(1)] by blast
qed

section \<open>The system invariant\<close>

definition names_inv :: "Registry \<Rightarrow> 'd check_call \<Rightarrow> bool" where
  "names_inv r c \<longleftrightarrow> sorted_wrt (<) (map nk_name (ca_checkers c)) \<and> nk_name ` set (ca_checkers c) \<subseteq> names_of r"

definition system_inv :: "('d, 's) opskit_code \<Rightarrow> 'd check_system \<Rightarrow> bool" where
  "system_inv ok s \<longleftrightarrow>
     registry_inv (sy_registry s) \<and>
     rg_permits (sy_registry s) = sum_list (map running (sy_calls s)) \<and>
     rg_permits (sy_registry s) \<le> max_permits (sy_registry s) \<and>
     (\<forall>n. of_bool (slot_free (sy_registry s) n) + sum_list (map (holders n) (sy_calls s)) =
          of_bool (n \<in> names_of (sy_registry s))) \<and>
     (\<forall>c \<in> set (sy_calls s). index_inv c \<and> result_inv ok (sy_registry s) c \<and> names_inv (sy_registry s) c)"

definition unused_registry :: "Registry \<Rightarrow> bool" where
  "unused_registry r \<longleftrightarrow> registry_inv r \<and> rg_permits r = 0 \<and> (\<forall>ne \<in> set (rg_clients r). ge_slot (snd ne))"

lemma registry_inv_permits [simp]: "registry_inv (r\<lparr>rg_permits := k\<rparr>) = registry_inv r"
  by (simp add: registry_inv_def)

lemma set_slot_inv: "registry_inv r \<Longrightarrow> registry_inv (set_slot n b r)"
  by (auto simp: set_slot_def split: option.split intro: same_members_inv [OF same_members_update])

lemma publish_inv: "publish_outcome (Some r) n out = Some r' \<Longrightarrow> registry_inv r \<Longrightarrow> registry_inv r'"
  unfolding publish_outcome_def by (blast intro: same_members_inv applyHealthCheckOutcome_members)

lemma call_step_registry: "call_step ok r c r' c' \<Longrightarrow> registry_inv r \<Longrightarrow> registry_inv r'"
  by (erule call_stepE) (auto intro: set_slot_inv publish_inv)

lemma names_inv_grows: "grows r r' \<Longrightarrow> ca_checkers c' = ca_checkers c \<Longrightarrow> names_inv r c \<Longrightarrow> names_inv r' c'"
  by (auto simp: names_inv_def grows_def)

lemma unused_initial: "unused_registry r \<Longrightarrow> system_inv ok \<lparr>sy_registry = r, sy_calls = []\<rparr>"
proof -
  assume u: "unused_registry r"
  have "slot_free r n \<longleftrightarrow> n \<in> names_of r" for n
  proof (cases "map_of (rg_clients r) n")
    case None
    then have "n \<notin> names_of r" by (simp add: names_of_def map_of_eq_None_iff)
    with None show ?thesis by (simp add: slot_free_def)
  next
    case (Some e)
    with u map_of_SomeD [OF Some] map_of_key [OF Some] show ?thesis
      by (auto simp: slot_free_def names_of_def unused_registry_def)
  qed
  with u show ?thesis by (simp add: unused_registry_def system_inv_def)
qed

lemma named_checker_name: "named_checker x = Some k \<Longrightarrow> nk_name k = fst x"
  by (auto simp: named_checker_def split: prod.splits if_splits)

lemma started_checkers:
  assumes "registry_inv r"
  shows "sorted_wrt (<) (map nk_name (healthCheckersSnapshot (Some r)))"
    and "nk_name ` set (healthCheckersSnapshot (Some r)) \<subseteq> names_of r"
proof -
  have d: "distinct (map nk_name (List.map_filter named_checker m)) \<and> nk_name ` set (List.map_filter named_checker m) \<subseteq> fst ` set m"
    if "distinct (map fst m)" for m :: "(string \<times> registeredClientEntry) list"
    using that
  proof (induction m)
    case (Cons x m)
    then have IH: "distinct (map nk_name (List.map_filter named_checker m))"
      "nk_name ` set (List.map_filter named_checker m) \<subseteq> fst ` set m" "fst x \<notin> fst ` set m"
      by simp_all
    then have "nk_name k \<notin> nk_name ` set (List.map_filter named_checker m)" if "named_checker x = Some k" for k
      using named_checker_name [OF that] by auto
    with IH(1,2) show ?case
      by (cases "named_checker x") (auto simp: List.map_filter_simps dest: named_checker_name)
  qed (simp add: List.map_filter_simps)
  with assms have m: "distinct (map nk_name (List.map_filter named_checker (rg_clients r)))"
    "nk_name ` set (List.map_filter named_checker (rg_clients r)) \<subseteq> names_of r"
    by (simp_all add: registry_inv_def names_of_def)
  from m(2) show "nk_name ` set (healthCheckersSnapshot (Some r)) \<subseteq> names_of r"
    by (simp add: healthCheckersSnapshot_def)
  have "distinct (map nk_name (healthCheckersSnapshot (Some r)))"
    using m(1) by (simp add: healthCheckersSnapshot_def distinct_map)
  then show "sorted_wrt (<) (map nk_name (healthCheckersSnapshot (Some r)))"
    by (simp add: healthCheckersSnapshot_def strict_sorted_iff)
qed

lemma started_call:
  assumes "registry_inv r" "healthCheckersSnapshot (Some r) \<noteq> []"
  shows "index_inv (start_call r ctx)" "result_inv ok r (start_call r ctx)" "names_inv r (start_call r ctx)"
    and "running (start_call r ctx) = 0" "holders n (start_call r ctx) = 0"
proof -
  have "0 < max_permits r" using max_checks_pos by (simp add: max_permits_def)
  with assms(2) show "index_inv (start_call r ctx)"
    by (simp add: index_inv_def start_call_def Let_def account_def at_index_def filled_def)
  show "result_inv ok r (start_call r ctx)" by (simp add: result_inv_def start_call_def Let_def)
  show "names_inv r (start_call r ctx)"
    using started_checkers [OF assms(1)] by (simp add: names_inv_def start_call_def Let_def)
  show "running (start_call r ctx) = 0" "holders n (start_call r ctx) = 0"
    by (simp_all add: running_def holders_def start_call_def Let_def)
qed

lemma registered_system:
  assumes "RegisterAll (Some r) cs = (e, Some r')" "registry_inv r"
  shows "grows r r'" "rg_permits r' = rg_permits r" "max_permits r' = max_permits r"
    and "n \<in> names_of r \<Longrightarrow> slot_free r' n = slot_free r n"
    and "n \<notin> names_of r \<Longrightarrow> slot_free r' n \<longleftrightarrow> n \<in> names_of r'"
proof -
  obtain vs where r': "r' = r\<lparr>rg_clients := rg_clients r @ map (\<lambda>v. (vr_name v, entry_of v)) vs\<rparr>"
    using assms(1)
  proof (cases rule: RegisterAll_cases)
    case (error x)
    then show ?thesis by (intro that [of "[]"]) simp
  next
    case (added vs)
    then show ?thesis by (intro that [of vs]) simp
  qed
  show "grows r r'" "rg_permits r' = rg_permits r" "max_permits r' = max_permits r"
    by (auto simp: r' grows_def names_of_def max_permits_def normalizedMaxConcurrentChecks_def)
  show "n \<in> names_of r \<Longrightarrow> slot_free r' n = slot_free r n"
    by (auto simp: r' slot_free_def names_of_def map_add_def split: option.split dest: weak_map_of_SomeI)
  have slots: "map_of (map (\<lambda>v. (vr_name v, entry_of v)) vs) n = Some x \<Longrightarrow> ge_slot x" for x
    by (auto simp: entry_of_def dest!: map_of_SomeD)
  assume new: "n \<notin> names_of r"
  then have old: "map_of (rg_clients r) n = None" by (simp add: names_of_def map_of_eq_None_iff)
  show "slot_free r' n \<longleftrightarrow> n \<in> names_of r'"
  proof (cases "map_of (map (\<lambda>v. (vr_name v, entry_of v)) vs) n")
    case None
    then have "n \<notin> names_of r'" using new by (auto simp: r' names_of_def map_of_eq_None_iff)
    with None old show ?thesis by (simp add: r' slot_free_def map_add_def)
  next
    case (Some x)
    note k = map_of_key [OF Some] and f = slots [OF Some]
    then have "n \<in> names_of r'" by (simp add: r' names_of_def image_Un)
    with Some f old show ?thesis by (simp add: r' slot_free_def map_add_def)
  qed
qed

lemma calls_update:
  assumes "k < length cs" "P c'" "\<forall>c \<in> set cs. P c"
  shows "\<forall>c \<in> set (cs[k := c']). P c"
  using assms set_update_subset_insert [of cs k c'] by auto

lemma calls_inv: "system_inv ok s \<Longrightarrow> k < length (sy_calls s) \<Longrightarrow>
    index_inv (sy_calls s ! k) \<and> result_inv ok (sy_registry s) (sy_calls s ! k) \<and> names_inv (sy_registry s) (sy_calls s ! k)"
  by (simp add: system_inv_def)

lemma act_inv:
  assumes "call_step ok (sy_registry s) (sy_calls s ! k) r' c'" "k < length (sy_calls s)" "system_inv ok s"
  shows "system_inv ok \<lparr>sy_registry = r', sy_calls = (sy_calls s)[k := c']\<rparr>"
proof -
  let ?r = "sy_registry s" and ?c = "sy_calls s ! k"
  have c: "index_inv ?c" "result_inv ok ?r ?c" "names_inv ?r ?c" using calls_inv [OF assms(3,2)] by simp_all
  note st = assms(1) and g = call_step_grows [OF assms(1)]
  have "rg_permits r' = sum_list (map running ((sy_calls s)[k := c']))"
    using sum_list_exchange [OF assms(2), of running c' "rg_permits ?r" "rg_permits r'"] call_step_permits [OF st] assms(3)
    by (simp add: system_inv_def)
  moreover have "of_bool (slot_free r' n) + sum_list (map (holders n) ((sy_calls s)[k := c'])) = of_bool (n \<in> names_of r')" for n
    using sum_list_exchange [OF assms(2), of "holders n" c' "of_bool (slot_free r' n)" "of_bool (slot_free ?r n)"]
      call_step_tokens [OF st, of n] assms(3) g(2)
    by (simp add: system_inv_def add.commute)
  moreover have "\<forall>c \<in> set ((sy_calls s)[k := c']). index_inv c \<and> result_inv ok r' c \<and> names_inv r' c"
    using call_step_index [OF st c(1)] call_step_result [OF st c(2)] names_inv_grows [OF g(1) g(5) c(3)] assms(3)
    by (intro calls_update [OF assms(2)])
       (auto simp: system_inv_def result_inv_grows [OF g(1)] intro: names_inv_grows [OF g(1) refl])
  moreover have "registry_inv r'" "rg_permits r' \<le> max_permits r'"
    using call_step_registry [OF st] g(4) assms(3) by (simp_all add: system_inv_def)
  ultimately show ?thesis by (simp add: system_inv_def)
qed

lemma phase_ok_ends: "ca_ctx c = None \<Longrightarrow> phase_ok r c p \<Longrightarrow> phase_ok r (c\<lparr>ca_ctx := e\<rparr>) p"
  by (cases p) (auto simp: phase_ok_def intro: context_polls_ends)

lemma result_of_ends: "result_of ok r None k x \<Longrightarrow> result_of ok r e k x"
  unfolding result_of_def by (blast intro: context_polls_ends)

text \<open>The end of a context touches neither the registry nor the bookkeeping of the call.\<close>

lemma ended_call:
  "index_inv c \<Longrightarrow> index_inv (c\<lparr>ca_ctx := Some e'\<rparr>)"
  "ca_ctx c = None \<Longrightarrow> result_inv ok r c \<Longrightarrow> result_inv ok r (c\<lparr>ca_ctx := e\<rparr>)"
  "names_inv r (c\<lparr>ca_ctx := e\<rparr>) = names_inv r c" "running (c\<lparr>ca_ctx := e\<rparr>) = running c"
  "holders n (c\<lparr>ca_ctx := e\<rparr>) = holders n c"
proof -
  have "account i (c\<lparr>ca_ctx := x\<rparr>) = account i c" for i x by (simp add: account_def at_index_def)
  then show "index_inv c \<Longrightarrow> index_inv (c\<lparr>ca_ctx := Some e'\<rparr>)" by (simp add: index_inv_def)
  show "result_inv ok r (c\<lparr>ca_ctx := e\<rparr>)" if "ca_ctx c = None" "result_inv ok r c"
    using that by (auto simp: result_inv_def intro: phase_ok_ends result_of_ends)
  show "names_inv r (c\<lparr>ca_ctx := e\<rparr>) = names_inv r c" "running (c\<lparr>ca_ctx := e\<rparr>) = running c"
    "holders n (c\<lparr>ca_ctx := e\<rparr>) = holders n c"
    by (simp_all add: names_inv_def running_def holders_def)
qed

lemma context_inv:
  assumes "k < length (sy_calls s)" "ca_ctx (sy_calls s ! k) = None" "system_inv ok s"
  shows "system_inv ok (s\<lparr>sy_calls := (sy_calls s)[k := (sy_calls s ! k)\<lparr>ca_ctx := Some e\<rparr>]\<rparr>)"
proof -
  let ?cs = "(sy_calls s)[k := (sy_calls s ! k)\<lparr>ca_ctx := Some e\<rparr>]"
  have "\<forall>c \<in> set ?cs. index_inv c \<and> result_inv ok (sy_registry s) c \<and> names_inv (sy_registry s) c"
    using assms(2,3) calls_inv [OF assms(3,1)]
    by (intro calls_update [OF assms(1)]) (simp_all add: ended_call system_inv_def)
  moreover have "map running ?cs = map running (sy_calls s)" "map (holders n) ?cs = map (holders n) (sy_calls s)" for n
    using assms(1) by (simp_all add: map_update list_update_same_conv ended_call)
  ultimately show ?thesis using assms(3) by (simp add: system_inv_def)
qed

lemma register_inv:
  assumes "RegisterAll (Some (sy_registry s)) cs = (e, Some r')" "system_inv ok s"
  shows "system_inv ok (s\<lparr>sy_registry := r'\<rparr>)"
proof -
  have r: "registry_inv (sy_registry s)" using assms(2) by (simp add: system_inv_def)
  note g = registered_system [OF assms(1) r]
  have "of_bool (slot_free r' n) + sum_list (map (holders n) (sy_calls s)) = of_bool (n \<in> names_of r')" for n
  proof -
    have "of_bool (slot_free (sy_registry s) n) + sum_list (map (holders n) (sy_calls s)) = of_bool (n \<in> names_of (sy_registry s))"
      using assms(2) by (simp add: system_inv_def)
    with g(1) g(4,5) [of n] show ?thesis by (cases "n \<in> names_of (sy_registry s)") (auto simp: grows_def)
  qed
  moreover have "registry_inv r'" by (rule RegisterAll_inv [OF assms(1) r])
  ultimately show ?thesis
    using assms(2) g(2,3)
    by (auto simp: system_inv_def result_inv_grows [OF g(1)] intro: names_inv_grows [OF g(1) refl])
qed

lemma start_inv:
  assumes "healthCheckersSnapshot (Some (sy_registry s)) \<noteq> []" "system_inv ok s"
  shows "system_inv ok (s\<lparr>sy_calls := sy_calls s @ [start_call (sy_registry s) ctx]\<rparr>)"
proof -
  have r: "registry_inv (sy_registry s)" using assms(2) by (simp add: system_inv_def)
  from assms(2) show ?thesis by (simp add: system_inv_def started_call [OF r assms(1)])
qed

lemma system_step_inv: "system_step ok s s' \<Longrightarrow> system_inv ok s \<Longrightarrow> system_inv ok s'"
  by (erule system_stepE) (auto intro: act_inv context_inv start_inv register_inv)

lemma reachable_system_inv:
  assumes "unused_registry r0" "reachable_checks ok r0 s"
  shows "system_inv ok s"
  using assms(2) by induction (auto intro: unused_initial [OF assms(1)] system_step_inv)

section \<open>Bounded concurrency and mutual exclusion\<close>

definition busy :: "'d check_system \<Rightarrow> nat \<Rightarrow> nat \<Rightarrow> nat \<Rightarrow> bool" where
  "busy s k w i \<longleftrightarrow> k < length (sy_calls s) \<and> w < length (ca_workers (sy_calls s ! k)) \<and>
     held_index (call_worker (sy_calls s ! k) w) = Some i"

lemma sum_list_two:
  fixes f :: "'a \<Rightarrow> nat"
  assumes "i < j" "j < length xs"
  shows "f (xs ! i) + f (xs ! j) \<le> sum_list (map f xs)"
  using assms
proof (induction xs arbitrary: i j)
  case (Cons x xs)
  obtain l where j: "j = Suc l" using Cons.prems(1) by (cases j) auto
  show ?case
  proof (cases i)
    case 0
    with Cons.prems j member_le_sum_list [of "f (xs ! l)" "map f xs"] show ?thesis by simp
  next
    case (Suc m)
    with Cons.prems j Cons.IH [of m l] show ?thesis by simp
  qed
qed simp

lemma busy_holders:
  assumes "busy s k w i"
  shows "1 \<le> holders (checker_name (sy_calls s ! k) i) (sy_calls s ! k)"
  using assms unfolding holders_def busy_def by (intro tally_ge) auto

lemma one_holder:
  assumes "\<forall>n. sum_list (map (holders n) (sy_calls s)) \<le> 1" "busy s k w i" "busy s k' w' i'"
    and "checker_name (sy_calls s ! k) i = checker_name (sy_calls s ! k') i'"
  shows "k = k' \<and> w = w'"
proof -
  let ?n = "checker_name (sy_calls s ! k) i"
  have h: "1 \<le> holders ?n (sy_calls s ! k)" "1 \<le> holders ?n (sy_calls s ! k')"
    using busy_holders [OF assms(2)] busy_holders [OF assms(3)] assms(4) by simp_all
  have l: "k < length (sy_calls s)" "k' < length (sy_calls s)" using assms(2,3) by (simp_all add: busy_def)
  have "k = k'"
    using sum_list_two [of k k' "sy_calls s" "holders ?n"] sum_list_two [of k' k "sy_calls s" "holders ?n"] h l
      spec [OF assms(1), of ?n]
    by (cases k k' rule: linorder_cases) auto
  moreover have "holders ?n (sy_calls s ! k) \<le> 1"
    using member_le_sum_list [of "holders ?n (sy_calls s ! k)" "map (holders ?n) (sy_calls s)"] l spec [OF assms(1), of ?n] by force
  then have "w = w'"
    using assms(2-4) \<open>k = k'\<close> unfolding holders_def busy_def
    by (intro tally_unique [of "holds_name (sy_calls s ! k) ?n"]) auto
  ultimately show ?thesis by simp
qed

lemma system_tokens: "system_inv ok s \<Longrightarrow> sum_list (map (holders n) (sy_calls s)) \<le> 1"
proof -
  assume "system_inv ok s"
  then have "of_bool (slot_free (sy_registry s) n) + sum_list (map (holders n) (sy_calls s)) = of_bool (n \<in> names_of (sy_registry s))"
    by (simp add: system_inv_def)
  then have "sum_list (map (holders n) (sy_calls s)) \<le> of_bool (n \<in> names_of (sy_registry s))" by linarith
  also have "\<dots> \<le> 1" by simp
  finally show ?thesis .
qed

lemma system_step_max:
  assumes "system_step ok s s'" "system_inv ok s"
  shows "max_permits (sy_registry s') = max_permits (sy_registry s)"
  using assms by cases (auto simp: call_step_grows registered_system system_inv_def)

lemma reachable_max:
  assumes "unused_registry r0" "reachable_checks ok r0 s"
  shows "max_permits (sy_registry s) = max_permits r0"
  using assms(2) by induction (auto simp: system_step_max reachable_system_inv [OF assms(1)])

section \<open>What the registry publishes meanwhile\<close>

lemma overrides_simps [simp]:
  "overrides_publishable (r\<lparr>rg_permits := k\<rparr>) = overrides_publishable r"
  by (simp add: overrides_publishable_def)

lemma set_slot_overrides: "overrides_publishable r \<Longrightarrow> overrides_publishable (set_slot n b r)"
  by (fastforce simp: set_slot_def overrides_publishable_def split: option.split dest: set_update map_of_SomeD)

lemma registered_overrides:
  assumes "RegisterAll (Some r) cs = (e, Some r')" "overrides_publishable r"
  shows "overrides_publishable r'"
  using assms(1)
  by (cases rule: RegisterAll_cases) (use assms(2) in \<open>auto simp: overrides_publishable_def entry_of_def\<close>)

lemma rejected_publishable:
  "ho_context_rejected (checkHealthSafely s) \<Longrightarrow> publishable (ho_health (checkHealthSafely s))"
  by (auto simp: checkHealthSafely_def run_checker_def context_failure_publishable split: option.splits call.splits)

context sanitizer
begin

lemma accept_publishable:
  assumes "rg_sanitizer r = Some san" "ho_context_rejected out \<longrightarrow> publishable (ho_health out)"
  shows "publishable (ho_health (accept_outcome (Some r) n s out))"
  using assms
  by (auto simp: accept_outcome_def Let_def context_failure_publishable split: option.split prod.split
      dest: sanitize_panic_publishable)

lemma call_step_overrides:
  assumes "call_step ok r c r' c'" "result_inv ok r c" "rg_sanitizer r = Some san" "overrides_publishable r"
  shows "overrides_publishable r'"
  using assms(1)
proof cases
  case (slot_rejected w i e out now)
  then show ?thesis using assms(4)
    by (auto simp: publish_outcome_def intro: applyHealthCheckOutcome_publishable context_failure_publishable)
next
  case (publish w i judged s out)
  have "phase_ok r c (call_worker c w)" using publish(2) by (rule worker_phase_ok [OF assms(2)])
  then have "ho_context_rejected judged \<longrightarrow> publishable (ho_health judged)"
    using rejected_publishable by (auto simp: publish(3) phase_ok_def)
  then have "publishable (ho_health out)" unfolding publish(6) by (rule accept_publishable [OF assms(3)])
  then show ?thesis using publish(7) assms(4)
    by (auto simp: publish_outcome_def intro: applyHealthCheckOutcome_publishable)
qed (use assms(4) in \<open>auto intro: set_slot_overrides\<close>)

lemma system_step_overrides:
  assumes "system_step ok s s'" "system_inv ok s" "rg_sanitizer (sy_registry s) = Some san"
    and "overrides_publishable (sy_registry s)"
  shows "overrides_publishable (sy_registry s') \<and> rg_sanitizer (sy_registry s') = Some san"
  using assms(1)
proof cases
  case (act k r' c')
  have "result_inv ok (sy_registry s) (sy_calls s ! k)" using act(2) assms(2) by (simp add: system_inv_def)
  from call_step_overrides [OF act(3) this assms(3,4)] call_step_grows(1) [OF act(3)] assms(3) show ?thesis
    by (simp add: act(1) grows_def)
next
  case (registers r' cs e)
  from registered_overrides [OF registers(2) assms(4)] registered_system(1) [OF registers(2)] assms(2,3) show ?thesis
    by (simp add: registers(1) grows_def system_inv_def)
qed (use assms(3,4) in simp_all)

lemma reachable_overrides:
  assumes "unused_registry r0" "rg_sanitizer r0 = Some san" "overrides_publishable r0" "reachable_checks ok r0 s"
  shows "overrides_publishable (sy_registry s) \<and> rg_sanitizer (sy_registry s) = Some san"
  using assms(4)
proof induction
  case (further s s')
  then show ?case
    by (elim conjE) (rule system_step_overrides [OF further(2) reachable_system_inv [OF assms(1) further(1)]])
qed (use assms(2,3) in simp)

end

section \<open>No deadlock, and every step is progress\<close>

definition call_finished :: "'d check_call \<Rightarrow> bool" where
  "call_finished c \<longleftrightarrow> ca_closed c \<and> (\<forall>p \<in> set (ca_workers c). p = Exited)"

definition goroutine_step :: "('d, 's) opskit_code \<Rightarrow> 'd check_system \<Rightarrow> 'd check_system \<Rightarrow> bool" where
  "goroutine_step ok s s' \<longleftrightarrow> (\<exists>k r' c'. k < length (sy_calls s) \<and>
     call_step ok (sy_registry s) (sy_calls s ! k) r' c' \<and> s' = \<lparr>sy_registry = r', sy_calls = (sy_calls s)[k := c']\<rparr>)"

lemma goroutine_system_step: "goroutine_step ok s s' \<Longrightarrow> system_step ok s s'"
  by (auto simp: goroutine_step_def intro: act)

lemma goroutine_stepI:
  "k < length (sy_calls s) \<Longrightarrow> call_step ok (sy_registry s) (sy_calls s ! k) r' c' \<Longrightarrow> \<exists>s'. goroutine_step ok s s'"
  by (auto simp: goroutine_step_def)

lemma checking_progress:
  assumes "system_inv ok s" "k < length (sy_calls s)" "w < length (ca_workers (sy_calls s ! k))"
    and "call_worker (sy_calls s ! k) w = Checking i"
  shows "\<exists>s'. goroutine_step ok s s'"
proof -
  have "1 \<le> running (sy_calls s ! k)" unfolding running_def using assms(3,4) by (intro tally_ge) auto
  then have "0 < rg_permits (sy_registry s)"
    using assms(1,2) member_le_sum_list [of "running (sy_calls s ! k)" "map running (sy_calls s)"]
    by (force simp: system_inv_def)
  then show ?thesis
    by (intro goroutine_stepI [OF assms(2) checked [OF assms(3,4), where s = "\<lparr>ks_slot = None, ks_permit = None,
        ks_check = Panicked, ks_decided = zero_time, ks_returned = ca_ctx (sy_calls s ! k), ks_accept = None,
        ks_accepted = None, ks_clock = zero_time, ks_accept_clock = zero_time\<rparr>"]]) simp_all
qed

lemma judged_progress:
  assumes "k < length (sy_calls s)" "w < length (ca_workers (sy_calls s ! k))"
    and "call_worker (sy_calls s ! k) w = Judged i judged"
  shows "\<exists>s'. goroutine_step ok s s'"
proof -
  let ?t = "\<lparr>ks_slot = None, ks_permit = None, ks_check = Panicked, ks_decided = zero_time, ks_returned = None,
      ks_accept = None, ks_accepted = ca_ctx (sy_calls s ! k), ks_clock = zero_time, ks_accept_clock = zero_time\<rparr>"
  let ?out = "accept_outcome (Some (sy_registry s)) (checker_name (sy_calls s ! k) i) ?t judged"
  obtain r' where "publish_outcome (Some (sy_registry s)) (checker_name (sy_calls s ! k) i) ?out = Some r'"
    using apply_some unfolding publish_outcome_def by blast
  then show ?thesis
    by (intro goroutine_stepI [OF assms(1) publish [OF assms(2,3), of ?t ?out]]) simp_all
qed

lemma published_progress:
  assumes "system_inv ok s" "k < length (sy_calls s)" "w < length (ca_workers (sy_calls s ! k))"
    and "call_worker (sy_calls s ! k) w = Published i h"
  shows "\<exists>s'. goroutine_step ok s s'"
proof -
  let ?c = "sy_calls s ! k" and ?r = "sy_registry s"
  let ?n = "checker_name ?c i"
  have "1 \<le> holders ?n ?c" using assms by (intro busy_holders [of s k w]) (simp add: busy_def)
  then have "1 \<le> sum_list (map (holders ?n) (sy_calls s))"
    using assms(2) member_le_sum_list [of "holders ?n ?c" "map (holders ?n) (sy_calls s)"] by force
  moreover have "of_bool (slot_free ?r ?n) + sum_list (map (holders ?n) (sy_calls s)) = of_bool (?n \<in> names_of ?r)"
    using assms(1) by (simp add: system_inv_def)
  ultimately have "\<not> slot_free ?r ?n" "?n \<in> names_of ?r" by (auto simp: of_bool_def split: if_splits)
  then show ?thesis by (intro goroutine_stepI [OF assms(2) release [OF assms(3,4)]]) (simp add: slot_known)
qed

lemma holding_progress:
  assumes "system_inv ok s" "k < length (sy_calls s)" "w < length (ca_workers (sy_calls s ! k))"
    and "call_worker (sy_calls s ! k) w = Holding i" "\<forall>c \<in> set (sy_calls s). \<forall>p \<in> set (ca_workers c). \<not> is_checking p"
  shows "\<exists>s'. goroutine_step ok s s'"
proof -
  have "running c = 0" if "c \<in> set (sy_calls s)" for c
    using tally_pos [of is_checking "ca_workers c"] assms(5) that by (auto simp: running_def)
  then have "rg_permits (sy_registry s) = 0" using assms(1) by (simp add: system_inv_def sum_list_eq_0_iff)
  then show ?thesis
    using max_checks_pos by (intro goroutine_stepI [OF assms(2) permit_acquired [OF assms(3,4)]]) (simp add: max_permits_def)
qed

lemma waiting_progress:
  assumes "system_inv ok s" "k < length (sy_calls s)" "w < length (ca_workers (sy_calls s ! k))"
    and "call_worker (sy_calls s ! k) w = Waiting i" "\<forall>c \<in> set (sy_calls s). \<forall>p \<in> set (ca_workers c). held_index p = None"
  shows "\<exists>s'. goroutine_step ok s s'"
proof -
  let ?c = "sy_calls s ! k" and ?r = "sy_registry s"
  let ?n = "checker_name ?c i"
  have "holders ?n c = 0" if "c \<in> set (sy_calls s)" for c
    using tally_pos [of "holds_name c ?n" "ca_workers c"] assms(5) that by (auto simp: holders_def holds_name_def)
  then have "sum_list (map (holders ?n) (sy_calls s)) = 0" by (simp add: sum_list_eq_0_iff)
  moreover have "of_bool (slot_free ?r ?n) + sum_list (map (holders ?n) (sy_calls s)) = of_bool (?n \<in> names_of ?r)"
    using assms(1) by (simp add: system_inv_def)
  moreover have c: "index_inv ?c" "names_inv ?r ?c" using assms(1,2) by (simp_all add: system_inv_def)
  from index_of_worker(2) [OF c(1) assms(3), of i] assms(4) c(2) have "?n \<in> names_of ?r"
    by (auto simp: names_inv_def checker_name_def)
  ultimately have "(of_bool (slot_free ?r ?n) :: nat) + 0 = of_bool True" by metis
  then have "slot_free ?r ?n" by (simp add: of_bool_def split: if_splits)
  then show ?thesis by (intro goroutine_stepI [OF assms(2) slot_received [OF assms(3,4)]])
qed

lemma received_progress:
  assumes "k < length (sy_calls s)" "w < length (ca_workers (sy_calls s ! k))" "call_worker (sy_calls s ! k) w = Received i"
  shows "\<exists>s'. goroutine_step ok s s'"
  using skip [OF assms(2,3)] enter [OF assms(2,3)] goroutine_stepI [OF assms(1)]
  by (cases "ca_ctx (sy_calls s ! k) = None") blast+

lemma idle_progress:
  assumes "k < length (sy_calls s)" "\<not> call_finished (sy_calls s ! k)" "index_inv (sy_calls s ! k)"
    and "\<forall>p \<in> set (ca_workers (sy_calls s ! k)). p = Idle \<or> p = Exited"
  shows "\<exists>s'. goroutine_step ok s s'"
proof -
  let ?c = "sy_calls s ! k"
  note step = goroutine_stepI [OF assms(1)]
  have i: "ca_workers ?c \<noteq> []" "Exited \<in> set (ca_workers ?c) \<longrightarrow> ca_closed ?c" "ca_next ?c \<le> length (ca_checkers ?c)"
    using assms(3) by (simp_all add: index_inv_def)
  show ?thesis
  proof (cases "ca_closed ?c")
    case True
    with assms(2,4) obtain p where "p \<in> set (ca_workers ?c)" "p = Idle" by (auto simp: call_finished_def)
    then obtain w where "w < length (ca_workers ?c)" "call_worker ?c w = Idle" by (auto simp: in_set_conv_nth)
    with True show ?thesis by (intro step [OF exit])
  next
    case False
    with i(1,2) assms(4) have "0 < length (ca_workers ?c)" "call_worker ?c 0 = Idle" by (cases "ca_workers ?c"; auto)+
    with False i(3) show ?thesis
      using step [OF schedule [of ?c 0]] step [OF scheduled [of ?c]]
      by (cases "ca_next ?c < length (ca_checkers ?c)") auto
  qed
qed

lemma worker_at:
  assumes "c \<in> set (sy_calls s)" "p \<in> set (ca_workers c)"
  obtains k w where "k < length (sy_calls s)" "w < length (ca_workers (sy_calls s ! k))" "call_worker (sy_calls s ! k) w = p"
  using assms by (auto simp: in_set_conv_nth)

lemma system_progress:
  assumes "system_inv ok s" "c \<in> set (sy_calls s)" "\<not> call_finished c"
  shows "\<exists>s'. goroutine_step ok s s'"
proof (rule ccontr)
  assume stuck: "\<nexists>s'. goroutine_step ok s s'"
  have 1: "\<not> is_checking p" if m: "c \<in> set (sy_calls s)" "p \<in> set (ca_workers c)" for c p
  proof -
    obtain k w where w: "k < length (sy_calls s)" "w < length (ca_workers (sy_calls s ! k))" "call_worker (sy_calls s ! k) w = p"
      using m by (rule worker_at)
    show ?thesis using checking_progress [OF assms(1) w(1,2)] w(3) stuck by (cases p) auto
  qed
  then have free: "\<forall>c \<in> set (sy_calls s). \<forall>p \<in> set (ca_workers c). \<not> is_checking p" by blast
  have 2: "held_index p = None" if m: "c \<in> set (sy_calls s)" "p \<in> set (ca_workers c)" for c p
  proof -
    obtain k w where w: "k < length (sy_calls s)" "w < length (ca_workers (sy_calls s ! k))" "call_worker (sy_calls s ! k) w = p"
      using m by (rule worker_at)
    show ?thesis
      using holding_progress [OF assms(1) w(1,2) _ free] judged_progress [OF w(1,2)] published_progress [OF assms(1) w(1,2)]
        w(3) stuck 1 [OF m]
      by (cases p) auto
  qed
  then have none: "\<forall>c \<in> set (sy_calls s). \<forall>p \<in> set (ca_workers c). held_index p = None" by blast
  have 3: "p = Idle \<or> p = Exited" if m: "c \<in> set (sy_calls s)" "p \<in> set (ca_workers c)" for c p
  proof -
    obtain k w where w: "k < length (sy_calls s)" "w < length (ca_workers (sy_calls s ! k))" "call_worker (sy_calls s ! k) w = p"
      using m by (rule worker_at)
    show ?thesis
      using waiting_progress [OF assms(1) w(1,2) _ none] received_progress [OF w(1,2)] w(3) stuck 2 [OF m]
      by (cases p) auto
  qed
  obtain k where k: "k < length (sy_calls s)" "c = sy_calls s ! k" using assms(2) by (auto simp: in_set_conv_nth)
  have "index_inv c" using assms(1,2) by (simp add: system_inv_def)
  with idle_progress [OF k(1)] k assms(2,3) 3 stuck show False by blast
qed

text \<open>The work left: each step of a goroutine lowers it, whatever the scheduler does.\<close>

fun phase_work :: "worker_phase \<Rightarrow> nat" where
  "phase_work Exited = 0"
| "phase_work Idle = 1"
| "phase_work (Published _ _) = 2"
| "phase_work (Judged _ _) = 3"
| "phase_work (Checking _) = 4"
| "phase_work (Holding _) = 5"
| "phase_work (Waiting _) = 6"
| "phase_work (Received _) = 7"

definition call_work :: "'d check_call \<Rightarrow> nat" where
  "call_work c = 8 * (length (ca_checkers c) - ca_next c) + of_bool (\<not> ca_closed c) +
     sum_list (map phase_work (ca_workers c))"

definition system_work :: "'d check_system \<Rightarrow> nat" where
  "system_work s = sum_list (map call_work (sy_calls s))"

lemma work_put:
  "w < length ps \<Longrightarrow>
   sum_list (map phase_work (ps[w := p])) + phase_work (ps ! w) = sum_list (map phase_work ps) + phase_work p"
  by (rule sum_list_exchange) simp_all

lemma call_step_work:
  assumes "call_step ok r c r' c'"
  shows "call_work c' < call_work c"
  using assms
proof cases
  case (schedule w)
  with work_put [of w "ca_workers c" "Received (ca_next c)"] show ?thesis by (simp add: call_work_def)
next
  case (skip w i)
  with work_put [of w "ca_workers c" Idle] show ?thesis by (simp add: call_work_def)
next
  case (enter w i)
  with work_put [of w "ca_workers c" "Waiting i"] show ?thesis by (simp add: call_work_def)
next
  case (slot_rejected w i e out now)
  with work_put [of w "ca_workers c" Idle] show ?thesis by (simp add: call_work_def)
next
  case (slot_received w i)
  with work_put [of w "ca_workers c" "Holding i"] show ?thesis by (simp add: call_work_def)
next
  case (permit_rejected w i e now)
  with work_put [of w "ca_workers c" "Judged i (clientHealthCheckContextOutcome e ''before execution'' now)"]
  show ?thesis by (simp add: call_work_def)
next
  case (permit_acquired w i)
  with work_put [of w "ca_workers c" "Checking i"] show ?thesis by (simp add: call_work_def)
next
  case (checked w i s)
  with work_put [of w "ca_workers c" "Judged i (run_checker s)"] show ?thesis by (simp add: call_work_def)
next
  case (publish w i judged s out)
  with work_put [of w "ca_workers c" "Published i (ho_health out)"] show ?thesis by (simp add: call_work_def)
next
  case (release w i h)
  with work_put [of w "ca_workers c" Idle] show ?thesis by (simp add: call_work_def)
next
  case (exit w)
  with work_put [of w "ca_workers c" Exited] show ?thesis by (simp add: call_work_def)
qed (simp_all add: call_work_def)

lemma goroutine_step_work:
  assumes "goroutine_step ok s s'"
  shows "system_work s' < system_work s"
proof -
  obtain k r' c' where k: "k < length (sy_calls s)" "call_step ok (sy_registry s) (sy_calls s ! k) r' c'"
    and s': "s' = \<lparr>sy_registry = r', sy_calls = (sy_calls s)[k := c']\<rparr>"
    using assms by (auto simp: goroutine_step_def)
  have "call_work c' < call_work (sy_calls s ! k)" by (rule call_step_work [OF k(2)])
  with sum_list_exchange [OF k(1), of call_work c' "call_work (sy_calls s ! k)" "call_work c'"]
  show ?thesis by (simp add: system_work_def s')
qed

text \<open>Left to themselves, the goroutines bring every call to its end.\<close>

interpretation checks: measured_system "goroutine_step ok" "system_inv ok" system_work
    "\<lambda>s. \<forall>c \<in> set (sy_calls s). call_finished c" for ok
  by unfold_locales (auto intro: system_step_inv goroutine_system_step goroutine_step_work system_progress)

lemma goroutine_step_calls:
  assumes "goroutine_step ok s s'"
  shows "map ca_ctx (sy_calls s') = map ca_ctx (sy_calls s)" "map ca_checkers (sy_calls s') = map ca_checkers (sy_calls s)"
  using assms by (auto simp: goroutine_step_def map_update call_step_grows list_update_same_conv)

lemma goroutine_run:
  assumes "(goroutine_step ok)\<^sup>*\<^sup>* s s'" "reachable_checks ok r0 s"
  shows "reachable_checks ok r0 s'" "map ca_ctx (sy_calls s') = map ca_ctx (sy_calls s)"
    "map ca_checkers (sy_calls s') = map ca_checkers (sy_calls s)"
  using assms by (induction rule: rtranclp_induct) (auto dest: goroutine_step_calls goroutine_system_step intro: further)

section \<open>What a finished call reports\<close>

definition call_results :: "'d check_call \<Rightarrow> 'd NamedCheck list" where
  "call_results c = List.map_filter (\<lambda>x. x) (ca_slots c)"

text \<open>The results are, in name order, at most one per checker, each from one check of that client.\<close>

lemma slots_in_order:
  assumes "list_all2 (\<lambda>k x. x = None \<or> (\<exists>y. x = Some y \<and> P k y)) ks xs"
  shows "\<exists>ks'. ks' \<in> set (subseqs ks) \<and> list_all2 P ks' (List.map_filter (\<lambda>x. x) xs)"
  using assms
proof induction
  case (Cons k ks x xs)
  then obtain ks' where ks': "ks' \<in> set (subseqs ks)" "list_all2 P ks' (List.map_filter (\<lambda>x. x) xs)"
    by blast
  show ?case
  proof (cases x)
    case None
    with ks' show ?thesis by (intro exI [of _ ks']) (simp add: List.map_filter_simps Let_def)
  next
    case (Some y)
    with ks' Cons.hyps(1) show ?thesis
      by (intro exI [of _ "k # ks'"]) (simp add: List.map_filter_simps Let_def)
  qed
qed (simp add: List.map_filter_simps)

lemma results_spec:
  assumes "system_inv ok s" "c \<in> set (sy_calls s)"
  shows "\<exists>ks. ks \<in> set (subseqs (ca_checkers c)) \<and>
    list_all2 (result_of ok (sy_registry s) (ca_ctx c)) ks (call_results c)"
proof -
  have c: "index_inv c" "result_inv ok (sy_registry s) c" using assms by (simp_all add: system_inv_def)
  then have len: "length (ca_slots c) = length (ca_checkers c)" by (simp add: index_inv_def)
  have "ca_slots c ! i = None \<or> (\<exists>y. ca_slots c ! i = Some y \<and> result_of ok (sy_registry s) (ca_ctx c) (ca_checkers c ! i) y)"
    if "i < length (ca_checkers c)" for i
    using c(2) that len by (cases "ca_slots c ! i") (auto simp: result_inv_def)
  with len show ?thesis unfolding call_results_def
    by (intro slots_in_order) (simp add: list_all2_conv_all_nth)
qed

lemma finished_slots:
  assumes "index_inv c" "call_finished c" "ca_ctx c = None" "i < length (ca_checkers c)"
  shows "ca_slots c ! i \<noteq> None"
proof -
  have "at_index i c = 0"
    using assms(2) tally_pos [of "\<lambda>p. phase_index p = Some i" "ca_workers c"] by (auto simp: at_index_def call_finished_def)
  moreover have "account i c = of_bool (i < ca_next c)" "ca_next c = length (ca_checkers c)"
    using assms(1-3) by (auto simp: index_inv_def call_finished_def)
  ultimately have "filled i c" using assms(4) by (simp add: account_def of_bool_def split: if_splits)
  then show ?thesis by (simp add: filled_def)
qed

lemma all_results:
  "list_all2 (\<lambda>k x. \<exists>y. x = Some y \<and> P k y) ks xs \<Longrightarrow> list_all2 P ks (List.map_filter (\<lambda>x. x) xs)"
  by (induction rule: list_all2_induct) (auto simp: List.map_filter_simps)

lemma finished_results:
  assumes "system_inv ok s" "c \<in> set (sy_calls s)" "call_finished c" "ca_ctx c = None"
  shows "list_all2 (result_of ok (sy_registry s) None) (ca_checkers c) (call_results c)"
    and "map nd_name (call_results c) = map nk_name (ca_checkers c)"
    and "summarize_slots ok t (ca_slots c) None = ok_summarize ok '''' (to_utc t) (call_results c)"
proof -
  have c: "index_inv c" "result_inv ok (sy_registry s) c" using assms(1,2) by (simp_all add: system_inv_def)
  then have len: "length (ca_slots c) = length (ca_checkers c)" by (simp add: index_inv_def)
  have "\<exists>y. ca_slots c ! i = Some y \<and> result_of ok (sy_registry s) None (ca_checkers c ! i) y"
    if "i < length (ca_checkers c)" for i
    using finished_slots [OF c(1) assms(3,4) that] c(2) that len assms(4) by (auto simp: result_inv_def)
  with len have "list_all2 (\<lambda>k x. \<exists>y. x = Some y \<and> result_of ok (sy_registry s) None k y) (ca_checkers c) (ca_slots c)"
    by (simp add: list_all2_conv_all_nth)
  then show r: "list_all2 (result_of ok (sy_registry s) None) (ca_checkers c) (call_results c)"
    unfolding call_results_def by (rule all_results)
  then show "map nd_name (call_results c) = map nk_name (ca_checkers c)"
    by (induction rule: list_all2_induct) (auto simp: result_of_def check_of_def named_check_fields)
  from r have "length (call_results c) = length (ca_slots c)" by (simp add: len list_all2_lengthD)
  then show "summarize_slots ok t (ca_slots c) None = ok_summarize ok '''' (to_utc t) (call_results c)"
    by (simp add: summarize_slots_def call_results_def Let_def)
qed

section \<open>The end of the context of a call\<close>

text \<open>
  Once the context of a call has ended, nothing that has not been published before is accepted any more:
  every result that is still recorded is the failure of that context.
\<close>

definition late_health :: "ctx_err \<Rightarrow> Health \<Rightarrow> bool" where
  "late_health e h \<longleftrightarrow> (\<exists>now. h = clientHealthCheckContextFailure e ''before execution'' now \<or>
     h = clientHealthCheckContextFailure e ''before result acceptance'' now)"

definition late_result :: "('d, 's) opskit_code \<Rightarrow> ctx_err \<Rightarrow> namedHealthChecker \<Rightarrow> 'd NamedCheck \<Rightarrow> bool" where
  "late_result ok e k x \<longleftrightarrow> (\<exists>h. late_health e h \<and>
     x = opskitNamedClientCheck ok (nk_name k) (nk_protocol k) (nk_policy k) h)"

text \<open>No result is recorded for an index, and none is waiting to be.\<close>

definition pending :: "nat \<Rightarrow> 'd check_call \<Rightarrow> bool" where
  "pending i c \<longleftrightarrow> i < length (ca_slots c) \<and> ca_slots c ! i = None \<and> (\<forall>h. Published i h \<notin> set (ca_workers c))"

definition late_phase :: "ctx_err \<Rightarrow> nat \<Rightarrow> worker_phase \<Rightarrow> bool" where
  "late_phase e i p \<longleftrightarrow> (case p of
     Judged j out \<Rightarrow> ho_context_rejected out \<longrightarrow> late_health e (ho_health out)
   | Published j h \<Rightarrow> j = i \<longrightarrow> late_health e h
   | _ \<Rightarrow> True)"

definition late_inv :: "('d, 's) opskit_code \<Rightarrow> ctx_err \<Rightarrow> nat \<Rightarrow> 'd check_call \<Rightarrow> bool" where
  "late_inv ok e i c \<longleftrightarrow> ca_ctx c = Some e \<and> (\<forall>p \<in> set (ca_workers c). late_phase e i p) \<and>
     (\<forall>x. i < length (ca_slots c) \<longrightarrow> ca_slots c ! i = Some x \<longrightarrow> late_result ok e (ca_checkers c ! i) x)"

lemma late_phase_simps [simp]:
  "late_phase e i Idle" "late_phase e i Exited" "late_phase e i (Received j)" "late_phase e i (Waiting j)"
  "late_phase e i (Holding j)" "late_phase e i (Checking j)"
  "late_phase e i (Judged j out) \<longleftrightarrow> (ho_context_rejected out \<longrightarrow> late_health e (ho_health out))"
  "late_phase e i (Published j h) \<longleftrightarrow> (j = i \<longrightarrow> late_health e h)"
  by (simp_all add: late_phase_def)

lemma late_health_simps [simp]:
  "late_health e (clientHealthCheckContextFailure e ''before execution'' now)"
  "late_health e (clientHealthCheckContextFailure e ''before result acceptance'' now)"
  by (auto simp: late_health_def)

lemma late_resultI:
  "late_health e h \<Longrightarrow> late_result ok e k (opskitNamedClientCheck ok (nk_name k) (nk_protocol k) (nk_policy k) h)"
  unfolding late_result_def by blast

lemma late_judged:
  assumes "context_polls (Some e) s" "ho_context_rejected (checkHealthSafely s)"
  shows "late_health e (ho_health (checkHealthSafely s))"
  using assms by (auto simp: checkHealthSafely_def run_checker_def context_polls_def polls_def split: option.splits call.splits)

lemma late_start:
  assumes "result_inv ok r c" "ca_ctx c = Some e" "pending i c"
  shows "late_inv ok e i c"
proof -
  have "late_phase e i p" if "p \<in> set (ca_workers c)" for p
  proof (cases p)
    case (Judged j out)
    with assms(1,2) that have "phase_ok r c (Judged j out)" by (simp add: result_inv_def)
    with assms(2) late_judged show ?thesis by (auto simp: phase_ok_def Judged)
  qed (use assms(3) that in \<open>auto simp: pending_def\<close>)
  with assms(2,3) show ?thesis by (simp add: late_inv_def pending_def)
qed

lemma late_accepted:
  assumes "ks_accept s = None \<or> ks_accept s = Some e" "ks_accepted s = Some e"
    and "ho_context_rejected out \<longrightarrow> late_health e (ho_health out)"
  shows "late_health e (ho_health (accept_outcome r n s out))"
  using assms by (auto simp: accept_outcome_def Let_def split: option.split prod.split)

lemma late_put:
  assumes "late_inv ok e i c" "ca_checkers c' = ca_checkers c" "ca_ctx c' = ca_ctx c"
    and "ca_workers c' = (ca_workers c)[w := p]" "late_phase e i p"
    and "ca_slots c' = ca_slots c \<or> (\<exists>j x. ca_slots c' = (ca_slots c)[j := Some x] \<and>
      (j = i \<longrightarrow> late_result ok e (ca_checkers c ! i) x))"
  shows "late_inv ok e i c'"
proof -
  have "late_phase e i q" if "q \<in> set (ca_workers c')" for q
    using assms(1,4,5) that set_update_subset_insert [of "ca_workers c" w p] by (auto simp: late_inv_def)
  moreover have "late_result ok e (ca_checkers c ! i) x" if "i < length (ca_slots c')" "ca_slots c' ! i = Some x" for x
    using assms(6)
  proof (elim disjE exE conjE)
    fix j y assume "ca_slots c' = (ca_slots c)[j := Some y]" "j = i \<longrightarrow> late_result ok e (ca_checkers c ! i) y"
    with assms(1) that show ?thesis by (cases "j = i") (auto simp: late_inv_def)
  qed (use assms(1) that in \<open>simp add: late_inv_def\<close>)
  ultimately show ?thesis using assms(1-3) by (simp add: late_inv_def)
qed

lemma late_call_step:
  assumes "call_step ok r c r' c'" "late_inv ok e i c"
  shows "late_inv ok e i c'"
proof -
  note put = late_put [OF assms(2), of c', OF _ _ _ _ disjI1]
    and fill = late_put [OF assms(2), of c', OF _ _ _ _ disjI2, OF _ _ _ _ exI, OF _ _ _ _ exI, OF _ _ _ _ conjI]
    and ctx = assms(2) [unfolded late_inv_def, THEN conjunct1]
  have phase: "late_phase e i (call_worker c w)" if "w < length (ca_workers c)" for w
    using assms(2) that by (simp add: late_inv_def)
  show ?thesis
    using assms(1)
  proof cases
    case (slot_rejected w j e' out now)
    with ctx show ?thesis by (intro fill [of w Idle]) (auto intro!: late_resultI)
  next
    case (permit_rejected w j e' now)
    with ctx show ?thesis
      by (intro put [of w "Judged j (clientHealthCheckContextOutcome e' ''before execution'' now)"]) auto
  next
    case (checked w j s)
    with ctx show ?thesis by (intro put [of w "Judged j (run_checker s)"]) (auto simp: run_checker_def)
  next
    case (publish w j judged s out)
    have "late_health e (ho_health out)"
      unfolding publish(6) using publish(4,5) ctx phase [OF publish(2)] publish(3) by (intro late_accepted) auto
    with publish show ?thesis by (intro put [of w "Published j (ho_health out)"]) auto
  next
    case (release w j h)
    with phase [OF release(3)] show ?thesis by (intro fill [of w Idle]) (auto intro!: late_resultI)
  next
    case stop
    with assms(2) show ?thesis by (simp add: late_inv_def)
  next
    case scheduled
    with assms(2) show ?thesis by (simp add: late_inv_def)
  qed (rule put, simp, simp, simp, simp, simp)+
qed

lemma late_system_step:
  assumes "system_step ok s s'" "k < length (sy_calls s)" "late_inv ok e i (sy_calls s ! k)"
  shows "k < length (sy_calls s') \<and> ca_checkers (sy_calls s' ! k) = ca_checkers (sy_calls s ! k) \<and>
     late_inv ok e i (sy_calls s' ! k)"
  using assms(1)
proof cases
  case (act l r' c')
  with assms(2,3) late_call_step [OF act(3)] call_step_grows(5) [OF act(3)] show ?thesis by (cases "k = l") auto
next
  case (context_ends l e')
  with assms(2,3) show ?thesis by (cases "k = l") (auto simp: late_inv_def)
qed (use assms(2,3) in \<open>auto simp: nth_append\<close>)

text \<open>From the moment the context of a call ends.\<close>

lemma late_results:
  assumes "system_inv ok s" "(system_step ok)\<^sup>*\<^sup>* s s'" "k < length (sy_calls s)"
    and "ca_ctx (sy_calls s ! k) = Some e" "pending i (sy_calls s ! k)"
    and "i < length (ca_slots (sy_calls s' ! k))" "ca_slots (sy_calls s' ! k) ! i = Some x"
  shows "late_result ok e (ca_checkers (sy_calls s' ! k) ! i) x"
proof -
  have start: "late_inv ok e i (sy_calls s ! k)"
    using late_start calls_inv [OF assms(1,3)] assms(4,5) by blast
  from assms(2) have "k < length (sy_calls s') \<and> late_inv ok e i (sy_calls s' ! k)"
    by (induction rule: rtranclp_induct) (use start assms(3) late_system_step in blast)+
  with assms(6,7) show ?thesis by (simp add: late_inv_def)
qed

lemma system_run:
  assumes "(system_step ok)\<^sup>*\<^sup>* s s'" "reachable_checks ok r0 s"
  shows "reachable_checks ok r0 s'" "length (sy_calls s) \<le> length (sy_calls s')"
proof -
  show "reachable_checks ok r0 s'" using assms by (induction rule: rtranclp_induct) (auto intro: further)
  show "length (sy_calls s) \<le> length (sy_calls s')"
    using assms(1) by (induction rule: rtranclp_induct) (auto elim!: system_stepE)
qed

end
