(* ===== verification/Ck_Compose.thy ===== *)
theory Ck_Compose
  imports Http_Check Tcp_Check Ck_CheckAll
begin

text \<open>
  The composition of the client families with the registry: the contract between a registered client and
  the registry (\<open>registered_client.go\<close>) as a locale, its interpretations on the HTTP and the TCP client, and
  what follows for a registry that holds both.
\<close>

section \<open>The view the registry has of a client\<close>

text \<open>
  A constructed client seen through the interfaces \<open>RegisteredClient\<close>, \<open>HealthChecker\<close>,
  \<open>HealthCheckConfigurable\<close> and, where the family has it, \<open>IdleConnectionCloser\<close>. None of the getters of the
  two families can panic.
\<close>

definition registered_view ::
  "nat \<Rightarrow> string \<Rightarrow> string \<Rightarrow> ReadinessPolicy \<Rightarrow> bool \<Rightarrow> unit call option \<Rightarrow> RegisteredClient" where
  "registered_view i name family policy enabled closer =
     \<lparr>gc_id = i, gc_nil_pointer = False, gc_name = Returned name, gc_protocol = Returned family,
      gc_policy = Returned policy, gc_checker = True, gc_configurable = Some (Returned enabled),
      gc_closer = closer\<rparr>"

definition http_registered :: "nat \<Rightarrow> HttpClient \<Rightarrow> RegisteredClient" where
  "http_registered i c = registered_view i (http_name (Some c)) (http_protocol (Some c)) (http_readiness (Some c))
     (HealthCheckEnabled (Some c)) (Some (Returned ()))"

definition tcp_registered :: "nat \<Rightarrow> TcpClient \<Rightarrow> RegisteredClient" where
  "tcp_registered i c = registered_view i (tcp_name (Some c)) (tcp_protocol (Some c)) (tcp_readiness (Some c))
     (tcp_HealthCheckEnabled (Some c)) None"

lemma family_protocols: "ValidateClientProtocol ProtocolHTTP = None" "ValidateClientProtocol ProtocolTCP = None"
  unfolding ValidateClientProtocol_iff ProtocolHTTP_def ProtocolTCP_def
  by (rule plain_identifier; simp add: MaxClientProtocolBytes_def; simp add: clientNameAlphanumeric_def; code_simp)+

section \<open>The contract of a client family\<close>

locale managed_client =
  fixes valid :: "'c \<Rightarrow> bool" and core :: "'c \<Rightarrow> Client option" and family :: string
    and enabled :: "'c \<Rightarrow> bool" and stale :: "'c \<Rightarrow> duration" and label :: string
    and check :: "'e \<Rightarrow> 'c \<Rightarrow> Health \<times> 'c" and health :: "'c \<Rightarrow> gotime \<Rightarrow> Health"
  assumes valid_core: "valid c \<Longrightarrow> \<exists>k. core c = Some k \<and> client_inv k \<and> (BlocksReadiness (cl_policy k) \<longrightarrow> enabled c)"
    and protocol_ok: "ValidateClientProtocol family = None"
    and check_updates: "valid c \<Longrightarrow> core c = Some k \<Longrightarrow> enabled c \<Longrightarrow> check e c = (h, c') \<Longrightarrow>
      valid c' \<and> enabled c' \<and> stale c' = stale c \<and>
      (\<exists>raw k'. core c' = Some k' \<and> UpdateHealth k raw = (h, k'))"
    and health_law: "enabled c \<Longrightarrow> core c = Some k \<Longrightarrow>
      health c now = ProjectStaleness (cl_health k) (stale c) label now"
begin

lemma accepted:
  assumes "valid c" "core c = Some k"
  shows "validateRegistration (Some (registered_view i (cl_name k) family (cl_policy k) (enabled c) closer)) =
    Inr \<lparr>vr_name = cl_name k, vr_protocol = family, vr_policy = cl_policy k, vr_enabled = enabled c,
         vr_client = registered_view i (cl_name k) family (cl_policy k) (enabled c) closer\<rparr>"
proof -
  have k: "client_inv k" "BlocksReadiness (cl_policy k) \<longrightarrow> enabled c" using valid_core [OF assms(1)] assms(2) by auto
  have p: "cl_policy k \<in> {ReadinessRequired, ReadinessOptional, ReadinessDegradedAllowed, ReadinessInformational}"
    using k(1) by (simp add: client_inv_def)
  then have n: "normalizeReadinessPolicy (cl_policy k) = cl_policy k" by (auto simp: normalizeReadinessPolicy_def)
  then have "validateReadinessPolicy (cl_policy k) = None" using p by (simp add: validate_policy_range)
  with k n protocol_ok show ?thesis
    by (auto simp: validateRegistration_def isNilRegisteredClient_def registered_view_def captured_def client_inv_def
        guard_error_def bind_result_def registeredClientHealthCheckEnabled_def Let_def split: option.splits)
qed

text \<open>The obligation of \<open>HealthChecker\<close>: what an enabled check returned is what the client shows next.\<close>

lemma visible:
  assumes "valid c" "enabled c" "check e c = (h, c')"
  shows "health c' now = ProjectStaleness h (stale c) label now"
    and "fresh h (stale c) now \<Longrightarrow> health c' now = h"
proof -
  from valid_core [OF assms(1)] obtain k where k: "core c = Some k" by blast
  from check_updates [OF assms(1) k assms(2,3)] obtain raw k' where c': "enabled c'" "stale c' = stale c"
    "core c' = Some k'" "UpdateHealth k raw = (h, k')" by blast
  with UpdateHealth_identity [OF c'(4)] show h: "health c' now = ProjectStaleness h (stale c) label now"
    by (simp add: health_law)
  show "fresh h (stale c) now \<Longrightarrow> health c' now = h" by (simp add: h ProjectStaleness_fresh)
qed

text \<open>Any number of checks keeps the client valid, its name, policy and observer; with a sanitizer every
  health it returns is publishable.\<close>

definition checked :: "'e list \<Rightarrow> 'c \<Rightarrow> 'c" where
  "checked es c = foldl (\<lambda>c e. snd (check e c)) c es"

lemma checks_keep:
  assumes "valid c" "enabled c" "core c = Some k"
  shows "valid (checked es c) \<and> enabled (checked es c) \<and> stale (checked es c) = stale c \<and>
    (\<exists>k'. core (checked es c) = Some k' \<and> cl_name k' = cl_name k \<and> cl_policy k' = cl_policy k \<and>
       cl_observer k' = cl_observer k \<and> cl_sanitizer k' = cl_sanitizer k)"
  using assms
proof (induction es arbitrary: c k)
  case (Cons e es)
  obtain h c' where e: "check e c = (h, c')" by fastforce
  from check_updates [OF Cons.prems(1,3,2) e] obtain raw k' where c': "valid c'" "enabled c'" "stale c' = stale c"
    "core c' = Some k'" "UpdateHealth k raw = (h, k')" by blast
  from Cons.IH [OF c'(1,2,4)] UpdateHealth_identity [OF c'(5)] c'(3) show ?case
    by (simp add: checked_def e)
qed (auto simp: checked_def)

lemma check_publishable:
  assumes "valid c" "enabled c" "core c = Some k" "cl_sanitizer k = Some DefaultHealthSanitizer" "check e c = (h, c')"
  shows "publishable h"
  using check_updates [OF assms(1,3,2,5)] default_san.updated_publishable [OF assms(4)] by blast

text \<open>The snapshot of a registry with the default sanitizer shows the result of the last check as it is,
  until it is stale.\<close>

lemma snapshot_shows:
  assumes "valid c" "enabled c" "core c = Some k" "cl_sanitizer k = Some DefaultHealthSanitizer" "check e c = (h, c')"
    and "fresh h (stale c) now"
    and "rg_sanitizer r = Some DefaultHealthSanitizer" "map_of (rg_clients r) name = Some entry" "ge_synthetic entry = None"
    and "reads (gc_id (ge_client entry)) = Returned (health c' now)"
  shows "\<exists>x \<in> set (Snapshot (Some r) reads). cs_name x = name \<and> cs_health x = h"
proof -
  have "publishable h" using assms(1-5) by (rule check_publishable)
  then have "registry_sanitize (Some r) name h = h"
    by (simp add: registry_sanitize_def registry_sanitize_panic_def sanitizeHealthSafelyWithPanic_def assms(7)
        publishable_fixed)
  then have "effective_health r reads (name, entry) = h"
    by (simp add: effective_health_cases Let_def assms(9,10) registeredClientHealth_def
        visible(2) [OF assms(1,2,5,6)])
  moreover have "(name, entry) \<in> set (rg_clients r)" using assms(8) by (rule map_of_SomeD)
  ultimately show ?thesis
    unfolding Snapshot_set by (intro bexI [of _ "client_snapshot r reads (name, entry)"] imageI)
      (simp_all only: client_snapshot_def ClientSnapshot.simps fst_conv snd_conv)
qed

end

section \<open>The HTTP client\<close>

lemma complete_update:
  assumes "hc_core c = Some core"
  shows "ck_client (completeCheckHealth (Some c) st fc msg t0 status t1 fx n) =
      Some (c\<lparr>hc_core := Some (snd (UpdateHealth core
        \<lparr>h_state = st, h_failure = fc, h_checked_at = to_utc t1, h_duration = time_sub t1 t0, h_message = msg\<rparr>))\<rparr>)"
    and "ck_health (completeCheckHealth (Some c) st fc msg t0 status t1 fx n) = fst (UpdateHealth core
        \<lparr>h_state = st, h_failure = fc, h_checked_at = to_utc t1, h_duration = time_sub t1 t0, h_message = msg\<rparr>)"
  using assms by (simp_all add: completeCheckHealth_def Record_def core_of_def UpdateHealth_def Let_def)

definition http_run_check ::
  "go_code \<Rightarrow> url_code \<Rightarrow> check_env \<times> bool \<Rightarrow> HttpClient \<Rightarrow> Health \<times> HttpClient" where
  "http_run_check go uc e c = (let res = Check go uc (fst e) (Some c) (snd e) in (ck_health res, the (ck_client res)))"

lemma http_inv_core:
  "http_inv c \<Longrightarrow> \<exists>k. hc_core c = Some k \<and> client_inv k \<and> (BlocksReadiness (cl_policy k) \<longrightarrow> nc_enabled (hc_check c))"
  by (simp add: http_inv_def)

lemma http_inv_health: "http_inv c \<Longrightarrow> hc_core c = Some k \<Longrightarrow> UpdateHealth k raw = (h, k') \<Longrightarrow>
   http_inv (c\<lparr>hc_core := Some k'\<rparr>)"
  using UpdateHealth_inv UpdateHealth_identity by (fastforce simp: http_inv_def)

lemma Check_recorded:
  assumes "http_inv c" "nc_enabled (hc_check c)"
  shows "\<exists>st fc msg status fx n. Check go uc env (Some c) has_ctx =
    completeCheckHealth (Some c) st fc msg (ce_started env) status (ce_ended env) fx n"
proof -
  have c: "hc_core c \<noteq> None" "hc_http_client c \<noteq> None" "hc_base_url c \<noteq> None" using assms(1) by (auto simp: http_inv_def)
  let ?rq = "NewRequest uc (Some c) True (nc_method (hc_check c)) (nc_path (hc_check c)) (NilBody, False)"
  show ?thesis
  proof (cases "\<not> has_ctx \<or> (\<exists>e. ?rq = Inl e)")
    case True
    with c assms(2) show ?thesis by (auto simp: Check_def) blast+
  next
    case False
    then obtain rq where rq: "has_ctx" "?rq = Inr rq" by (cases ?rq) auto
    obtain r fx where r: "do_request go (ce_do env) (Some c) (Some rq) (check_policy c) = (r, fx)" by fastforce
    obtain st fc msg where "assess_check r = (st, fc, msg)" by (metis prod_cases3)
    with c assms(2) rq r show ?thesis by (simp add: Check_def Let_def) blast
  qed
qed

lemma Check_updates:
  assumes "http_inv c" "hc_core c = Some k" "nc_enabled (hc_check c)"
  shows "\<exists>raw. UpdateHealth k raw = (ck_health (Check go uc env (Some c) has_ctx),
       snd (UpdateHealth k raw)) \<and>
     ck_client (Check go uc env (Some c) has_ctx) = Some (c\<lparr>hc_core := Some (snd (UpdateHealth k raw))\<rparr>)"
proof -
  obtain st fc msg status fx n where e: "Check go uc env (Some c) has_ctx =
      completeCheckHealth (Some c) st fc msg (ce_started env) status (ce_ended env) fx n"
    using Check_recorded [OF assms(1,3)] by blast
  show ?thesis unfolding e complete_update [OF assms(2)]
    by (rule exI, rule conjI, rule prod.collapse [symmetric], rule refl)
qed

interpretation http_managed: managed_client http_inv hc_core ProtocolHTTP "\<lambda>c. nc_enabled (hc_check c)"
  "\<lambda>c. nc_stale_after (hc_check c)" "''HTTP health check''" "http_run_check go uc" "\<lambda>c. http_health (Some c)" for go uc
proof
  show "ValidateClientProtocol ProtocolHTTP = None" by (rule family_protocols)
next
  fix c k e h c'
  assume c: "http_inv c" "hc_core c = Some k" "nc_enabled (hc_check c)" "http_run_check go uc e c = (h, c')"
  obtain raw where raw: "UpdateHealth k raw = (h, snd (UpdateHealth k raw))"
    "c' = c\<lparr>hc_core := Some (snd (UpdateHealth k raw))\<rparr>"
    using Check_updates [OF c(1-3), of go uc "fst e" "snd e"] c(4) by (auto simp: http_run_check_def Let_def)
  with http_inv_health [OF c(1,2) raw(1)] c(3) show "http_inv c' \<and> nc_enabled (hc_check c') \<and>
      nc_stale_after (hc_check c') = nc_stale_after (hc_check c) \<and>
      (\<exists>raw k'. hc_core c' = Some k' \<and> UpdateHealth k raw = (h, k'))" by auto
qed (simp_all add: http_inv_core http_health_def)

section \<open>The TCP client\<close>

lemma tcp_complete_update:
  assumes "tc_core c = Some core"
  shows "tx_client (tcp_completeCheckHealth (Some c) a t0 v t1 fx) =
      Some (c\<lparr>tc_core := Some (snd (UpdateHealth core \<lparr>h_state = ha_state a, h_failure = ha_failure a,
        h_checked_at = to_utc t1, h_duration = time_sub t1 t0, h_message = ha_message a\<rparr>))\<rparr>)"
    and "tx_health (tcp_completeCheckHealth (Some c) a t0 v t1 fx) = fst (UpdateHealth core
        \<lparr>h_state = ha_state a, h_failure = ha_failure a, h_checked_at = to_utc t1, h_duration = time_sub t1 t0,
         h_message = ha_message a\<rparr>)"
  using assms by (simp_all add: tcp_completeCheckHealth_def Record_def tcp_core_def UpdateHealth_def Let_def)

definition tcp_run_check :: "tcp_check_env \<times> bool \<Rightarrow> TcpClient \<Rightarrow> Health \<times> TcpClient" where
  "tcp_run_check e c = (let res = tcp_Check (fst e) (Some c) (snd e) in (tx_health res, the (tx_client res)))"

lemma tcp_inv_core:
  "tcp_inv c \<Longrightarrow> \<exists>k. tc_core c = Some k \<and> client_inv k \<and> (BlocksReadiness (cl_policy k) \<longrightarrow> tn_enabled (tc_check c))"
  by (simp add: tcp_inv_def)

lemma tcp_inv_configured: "tcp_inv c \<Longrightarrow> tcp_configured (Some c) = Some c"
  by (auto simp: tcp_inv_def tcp_configured_def)

lemma tcp_inv_health:
  assumes "tcp_inv c" "tc_core c = Some k" "UpdateHealth k raw = (h, k')"
  shows "tcp_inv (c\<lparr>tc_core := Some k'\<rparr>)"
proof -
  have "client_inv k" using assms(1,2) by (simp add: tcp_inv_def)
  then have "client_inv k'" "cl_policy k' = cl_policy k"
    using UpdateHealth_inv UpdateHealth_identity assms(3) by blast+
  with assms(1,2) show ?thesis unfolding tcp_inv_def by (simp only: TcpClient.simps option.inject) auto
qed

lemma tcp_Check_recorded:
  assumes "tcp_inv c" "tn_enabled (tc_check c)"
  shows "\<exists>a v fx. tcp_Check env (Some c) has_ctx =
    tcp_completeCheckHealth (Some c) a (kv_started env) v (kv_ended env) fx"
proof -
  obtain r m fx where d: "dialObserved c (kv_dial env) = ((r, m), fx)" by (cases "dialObserved c (kv_dial env)") auto
  obtain a pfx where p: "tcp_assess c env r m = (a, pfx)" by (cases "tcp_assess c env r m") auto
  show ?thesis
    using assms(2) tcp_inv_configured [OF assms(1)]
    by (cases has_ctx) (simp_all add: tcp_Check_def d p, blast+)
qed

lemma tcp_Check_updates:
  assumes "tcp_inv c" "tc_core c = Some k" "tn_enabled (tc_check c)"
  shows "\<exists>raw. UpdateHealth k raw = (tx_health (tcp_Check env (Some c) has_ctx),
       snd (UpdateHealth k raw)) \<and>
     tx_client (tcp_Check env (Some c) has_ctx) = Some (c\<lparr>tc_core := Some (snd (UpdateHealth k raw))\<rparr>)"
proof -
  obtain a v fx where e: "tcp_Check env (Some c) has_ctx =
      tcp_completeCheckHealth (Some c) a (kv_started env) v (kv_ended env) fx"
    using tcp_Check_recorded [OF assms(1,3)] by blast
  show ?thesis unfolding e tcp_complete_update [OF assms(2)]
    by (rule exI, rule conjI, rule prod.collapse [symmetric], rule refl)
qed

interpretation tcp_managed: managed_client tcp_inv tc_core ProtocolTCP "\<lambda>c. tn_enabled (tc_check c)"
  "\<lambda>c. tn_stale_after (tc_check c)" "''TCP health check''" tcp_run_check "\<lambda>c now. tcp_Health now (Some c)"
proof
  show "ValidateClientProtocol ProtocolTCP = None" by (rule family_protocols)
next
  fix c k e h c'
  assume c: "tcp_inv c" "tc_core c = Some k" "tn_enabled (tc_check c)" "tcp_run_check e c = (h, c')"
  obtain raw where raw: "UpdateHealth k raw = (h, snd (UpdateHealth k raw))"
    "c' = c\<lparr>tc_core := Some (snd (UpdateHealth k raw))\<rparr>"
    using tcp_Check_updates [OF c(1-3), of "fst e" "snd e"] c(4) by (auto simp: tcp_run_check_def Let_def)
  with tcp_inv_health [OF c(1,2) raw(1)] c(3) show "tcp_inv c' \<and> tn_enabled (tc_check c') \<and>
      tn_stale_after (tc_check c') = tn_stale_after (tc_check c) \<and>
      (\<exists>raw k'. tc_core c' = Some k' \<and> UpdateHealth k raw = (h, k'))" by auto
qed (simp_all add: tcp_inv_core tcp_Health_def)

section \<open>What a check decides\<close>

lemma Check_state:
  assumes "http_inv c" "hc_core c = Some k" "cl_sanitizer k = Some DefaultHealthSanitizer" "nc_enabled (hc_check c)"
    and rq: "NewRequest uc (Some c) True (nc_method (hc_check c)) (nc_path (hc_check c)) (NilBody, False) = Inr rq"
    and r: "do_request go (ce_do env) (Some c) (Some rq) (check_policy c) = (r, fx)"
  shows "h_state (ck_health (Check go uc env (Some c) True)) = HealthHealthy \<longleftrightarrow> r_outcome r = OutcomeSuccess"
    and "ck_effects (Check go uc env (Some c) True) =
      check_scope (nc_timeout (hc_check c)) (fx @ [CheckDrained (r_response r)])"
    and "ck_drained (Check go uc env (Some c) True) \<le> maxDiscardedResponseBodyBytes + 1"
proof -
  have c: "hc_core c \<noteq> None" "hc_http_client c \<noteq> None" "hc_base_url c \<noteq> None" using assms(1) by (auto simp: http_inv_def)
  obtain st fc msg where a: "assess_check r = (st, fc, msg)" by (metis prod_cases3)
  note spec = assess_check_spec [OF r a]
  have chk: "Check go uc env (Some c) True = completeCheckHealth (Some c) st fc msg (ce_started env) (r_status r)
      (ce_ended env) (check_scope (nc_timeout (hc_check c)) (fx @ [CheckDrained (r_response r)])) (fst (drainAndCloseResponse (Some (ce_ctx env)) (r_response r) (ce_reads env)))"
    using c assms(4) by (auto simp: Check_def rq r a Let_def)
  show "ck_effects (Check go uc env (Some c) True) =
      check_scope (nc_timeout (hc_check c)) (fx @ [CheckDrained (r_response r)])"
    and "ck_drained (Check go uc env (Some c) True) \<le> maxDiscardedResponseBodyBytes + 1"
    unfolding chk complete_caches(3,4) [OF refl] by (rule refl) (rule drain_bounded)
  have "h_state (ck_health (Check go uc env (Some c) True)) = st"
    unfolding chk complete_update(2) [OF assms(2)] using spec(3)
    by (subst default_keeps_state [OF assms(3)]) auto
  with spec(1) show "h_state (ck_health (Check go uc env (Some c) True)) = HealthHealthy \<longleftrightarrow> r_outcome r = OutcomeSuccess"
    by simp
qed

lemma tcp_Check_state:
  assumes "tcp_inv c" "tc_core c = Some k" "cl_sanitizer k = Some DefaultHealthSanitizer" "tn_enabled (tc_check c)"
  shows "h_state (tx_health (tcp_Check env (Some c) True)) = HealthHealthy \<longleftrightarrow>
     tr_conn (fst (DialResult (Some c) True (kv_dial env))) \<noteq> None \<and>
     (\<forall>probe. tn_probe (tc_check c) = Some probe \<longrightarrow> probe_healthy probe env)"
proof -
  note conf = tcp_inv_configured [OF assms(1)]
  obtain r m fx a pfx where d: "dialObserved c (kv_dial env) = ((r, m), fx)" "tcp_result_ok r"
      "tcp_assess c env r m = (a, pfx)" "tx_health (tcp_Check env (Some c) True) = fst (UpdateHealth k
        \<lparr>h_state = ha_state a, h_failure = ha_failure a, h_checked_at = to_utc (kv_ended env),
         h_duration = time_sub (kv_ended env) (kv_started env), h_message = ha_message a\<rparr>)"
    using tcp_check_enabled [OF conf assms(4,2) refl] by metis
  note spec = tcp_assess_spec [OF d(2,3)]
  have "h_state (tx_health (tcp_Check env (Some c) True)) = ha_state a"
    unfolding d(4) using spec(3) by (subst default_keeps_state [OF assms(3)]) auto
  moreover have "fst (DialResult (Some c) True (kv_dial env)) = r" by (simp add: DialResult_def conf d(1))
  ultimately show ?thesis using spec(1) by simp
qed

text \<open>The time of a result is the end of its check.\<close>

lemma default_keeps_time:
  assumes "cl_sanitizer core = Some DefaultHealthSanitizer"
  shows "instant (h_checked_at (fst (UpdateHealth core h))) = instant (h_checked_at h)"
  using assms by (auto simp: UpdateHealth_def sanitizeHealthSafely_def sanitizeHealthSafelyWithPanic_def
      DefaultHealthSanitizer_def sanitize_state_def sanitize_class_def to_utc_def Let_def split: HealthState.splits)

lemma check_times:
  assumes "cl_sanitizer k = Some DefaultHealthSanitizer"
  shows "http_inv c \<Longrightarrow> hc_core c = Some k \<Longrightarrow> nc_enabled (hc_check c) \<Longrightarrow>
      instant (h_checked_at (ck_health (Check go uc env (Some c) has_ctx))) = instant (ce_ended env)"
    and "tcp_inv d \<Longrightarrow> tc_core d = Some k \<Longrightarrow> tn_enabled (tc_check d) \<Longrightarrow>
      instant (h_checked_at (tx_health (tcp_Check tenv (Some d) has_ctx))) = instant (kv_ended tenv)"
  using Check_recorded [of c go uc env has_ctx] complete_update(2) [of c k]
    tcp_Check_recorded [of d tenv has_ctx] tcp_complete_update(2) [of d k]
  by (auto simp: default_keeps_time [OF assms]) (auto simp: to_utc_def)

section \<open>One registry for both families\<close>

lemma http_view:
  "hc_core c = Some k \<Longrightarrow> http_registered i c =
     registered_view i (cl_name k) ProtocolHTTP (cl_policy k) (nc_enabled (hc_check c)) (Some (Returned ()))"
  by (simp add: http_registered_def accessors)

lemma tcp_view:
  "tc_core c = Some k \<Longrightarrow> tcp_registered i c =
     registered_view i (cl_name k) ProtocolTCP (cl_policy k) (tn_enabled (tc_check c)) None"
  by (simp add: tcp_registered_def accessors)

lemma register_pair:
  assumes "validateRegistration (Some a) = Inr va" "validateRegistration (Some b) = Inr vb" "vr_name va \<noteq> vr_name vb"
    and "Get (Some r) (vr_name va) = None" "Get (Some r) (vr_name vb) = None"
  shows "\<exists>r'. RegisterAll (Some r) [Some a, Some b] = (None, Some r')"
  using assms by (simp add: RegisterAll_def Get_def bind_result_def)

text \<open>Clients of both families with different, new names can always be registered together.\<close>

lemma families_register:
  assumes "http_inv c" "tcp_inv d" "http_name (Some c) \<noteq> tcp_name (Some d)"
    and "Get (Some r) (http_name (Some c)) = None" "Get (Some r) (tcp_name (Some d)) = None"
  shows "\<exists>r'. RegisterAll (Some r) [Some (http_registered i c), Some (tcp_registered j d)] = (None, Some r')"
proof -
  obtain k where k: "hc_core c = Some k" using assms(1) by (auto simp: http_inv_def)
  obtain l where l: "tc_core d = Some l" using assms(2) by (auto simp: tcp_inv_def)
  have names: "http_name (Some c) = cl_name k" "tcp_name (Some d) = cl_name l"
    by (simp_all add: accessors k l)
  show ?thesis unfolding http_view [OF k] tcp_view [OF l]
    by (rule register_pair [OF http_managed.accepted [OF assms(1) k] tcp_managed.accepted [OF assms(2) l]])
      (use assms(3-5) in \<open>simp_all add: names\<close>)
qed

text \<open>Checks never change what the registry captured of a client.\<close>

lemma http_checks_view:
  assumes "http_inv c" "nc_enabled (hc_check c)"
  shows "http_inv (http_managed.checked go uc es c)"
    and "http_registered i (http_managed.checked go uc es c) = http_registered i c"
proof -
  obtain k where k: "hc_core c = Some k" using assms(1) by (auto simp: http_inv_def)
  show "http_inv (http_managed.checked go uc es c)"
    and "http_registered i (http_managed.checked go uc es c) = http_registered i c"
    using http_managed.checks_keep [OF assms k, of go uc es] by (auto simp: http_view k http_view [OF k] assms(2))
qed

lemma tcp_checks_view:
  assumes "tcp_inv c" "tn_enabled (tc_check c)"
  shows "tcp_inv (tcp_managed.checked es c)"
    and "tcp_registered i (tcp_managed.checked es c) = tcp_registered i c"
proof -
  obtain k where k: "tc_core c = Some k" using assms(1) by (auto simp: tcp_inv_def)
  show "tcp_inv (tcp_managed.checked es c)" and "tcp_registered i (tcp_managed.checked es c) = tcp_registered i c"
    using tcp_managed.checks_keep [OF assms k, of es] by (auto simp: tcp_view k tcp_view [OF k] assms(2))
qed

end
