(* ===== verification/Client_Samples.thy ===== *)
theory Client_Samples
  imports Http_Samples Ck_Compose
begin

text \<open>
  Constructed clients of both families with enabled checks, for the witnesses: the values \<open>New\<close> returns
  for two plain configurations, one dial and one check of each.
\<close>

definition sample_config :: "string \<Rightarrow> Config" where
  "sample_config name = \<lparr>c_name = name, c_policy = ReadinessRequired, c_observer = Some NopObserver,
     c_sanitizer = None, c_disable_sanitizer = False\<rparr>"

definition value_of :: "('e, 'a) result \<Rightarrow> 'a option" where
  "value_of r = (case r of Inl _ \<Rightarrow> None | Inr x \<Rightarrow> Some x)"

lemma value_of_Some [simp]: "value_of r = Some x \<longleftrightarrow> r = Inr x"
  by (cases r) (auto simp: value_of_def)

lemma value_of_the: "value_of r \<noteq> None \<Longrightarrow> r = Inr (the (value_of r))"
  by (cases r) (auto simp: value_of_def)

section \<open>An HTTP client\<close>

definition sample_path :: URL where
  "sample_path = sample_url\<lparr>u_scheme := '''', u_host := '''', u_path := ''/health''\<rparr>"

definition sample_defaults :: otel_defaults where
  "sample_defaults = \<lparr>od_observer = Some NopObserver, od_propagator = None, od_instruments_ok = True\<rparr>"

definition http_sample_config :: HttpConfig where
  "http_sample_config = \<lparr>hcfg_config = sample_config ''payments'', hcfg_base_url = ''https://api'',
     hcfg_http_client = None, hcfg_propagator = None, hcfg_allow_cross_origin = False,
     hcfg_allow_host_override = False, hcfg_classifier = None, hcfg_timeout = 0, hcfg_disable_timeout = False,
     hcfg_attempt_timeout = 0, hcfg_disable_attempt_timeout = False,
     hcfg_check = DefaultCheckConfig ''ready'', hcfg_retry = zero_retry\<rparr>"

definition ready_urls :: url_code where
  "ready_urls = \<lparr>parse_url = (\<lambda>s. if s = ''ready'' then Some sample_path else Some sample_url),
     escaped_path = u_path, resolve_reference = (\<lambda>b r. b\<lparr>u_path := u_path r\<rparr>), url_string = u_path\<rparr>"

definition http_built :: HttpClient where
  "http_built = the (value_of (New id ready_urls sample_defaults http_sample_config))"

lemma sample_config_simps [simp]:
  "c_name (sample_config name) = name" "c_policy (sample_config name) = ReadinessRequired"
  "c_observer (sample_config name) = Some NopObserver" "c_sanitizer (sample_config name) = None"
  "\<not> c_disable_sanitizer (sample_config name)"
  by (simp_all add: sample_config_def)

lemma sample_config_ok:
  assumes "ValidateClientName name = None"
  shows "Validate (sample_config name) = None"
    and "\<exists>k. new_client (sample_config name) = Inr k \<and> cl_name k = name"
proof -
  show v: "Validate (sample_config name) = None"
    using assms by (simp add: Validate_None validate_policy_range normalizeReadinessPolicy_def)
  show "\<exists>k. new_client (sample_config name) = Inr k \<and> cl_name k = name"
    by (simp add: new_client_def v)
qed

lemma sample_trims: "TrimSpace ''https://api'' = ''https://api''" "TrimSpace ''ready'' = ''ready''"
  "TrimSpace ''cache:6379'' = ''cache:6379''" "TrimSpace ''cache'' = ''cache''" "TrimSpace '''' = ''''"
proof -
  show "TrimSpace ''https://api'' = ''https://api''" "TrimSpace ''ready'' = ''ready''"
    "TrimSpace ''cache:6379'' = ''cache:6379''" "TrimSpace ''cache'' = ''cache''"
    by (rule TrimSpace_alphanumeric; simp add: clientNameAlphanumeric_def)+
  show "TrimSpace '''' = ''''" by code_simp
qed

lemma sample_hosts: "Hostname sample_url = ''api''" "Port sample_url = ''''" "has_suffix ''/'' ''/''"
  by code_simp+

lemma sample_base: "\<exists>u. resolve_base_url ready_urls ''https://api'' = Inr u"
proof -
  have "check_base_url sample_url = None" by (simp add: check_base_url_def sample_hosts) (simp add: sample_url_def)
  then show ?thesis by (simp add: resolve_base_url_def sample_trims ready_urls_def)
qed

lemma sample_check: "\<exists>nc. normalizeCheckConfig id ready_urls (DefaultCheckConfig ''ready'') = Inr nc \<and>
    nc_enabled nc \<and> nc_stale_after nc = 90 * Second \<and> nc_path nc = ''ready''"
proof -
  have "\<not> is_abs sample_path" "u_host sample_path = ''''" "u_opaque sample_path = ''''"
    "u_fragment sample_path = ''''" "u_raw_fragment sample_path = ''''"
    by (simp_all add: sample_path_def sample_url_def is_abs_def)
  moreover have "validateRetryConfig (normalizeCheckRetryConfig zero_retry) = None"
    by (simp add: validateRetryConfig_iff normalizeCheckRetry_ok)
  ultimately show ?thesis
    by (simp add: normalizeCheckConfig_def DefaultCheckConfig_def normalizeCheckMethod_def ready_urls_def Duration_def sample_trims
        DefaultCheckTimeout_def DefaultCheckStaleAfter_def Second_def validateRetrySafety_def)
qed

lemma http_built: "New id ready_urls sample_defaults http_sample_config = Inr http_built"
proof -
  obtain u where u: "resolve_base_url ready_urls ''https://api'' = Inr u" using sample_base by blast
  obtain nc where nc: "normalizeCheckConfig id ready_urls (DefaultCheckConfig ''ready'') = Inr nc" "nc_enabled nc"
    using sample_check by blast
  obtain k where k: "new_client (sample_config ''payments'') = Inr k" using sample_config_ok sample_names by blast
  have r: "validateRetryConfig (normalizeRetryConfig zero_retry) = None" by (simp add: normalize_valid)
  have "\<exists>c. New id ready_urls sample_defaults http_sample_config = Inr c"
    using u nc k
    by (simp add: New_def http_sample_config_def sample_config_ok sample_names r Duration_def
        DefaultTimeout_def DefaultAttemptTimeout_def Second_def build_core_def sample_defaults_def Let_def)
  then show ?thesis unfolding http_built_def by (auto simp: value_of_def)
qed

lemma http_built_parts: "nc_enabled (hc_check http_built)" "nc_stale_after (hc_check http_built) = 90 * Second"
  "nc_path (hc_check http_built) = ''ready''"
proof -
  have "normalizeCheckConfig id ready_urls (hcfg_check http_sample_config) = Inr (hc_check http_built)"
    using http_built by (rule New_parts)
  with sample_check show "nc_enabled (hc_check http_built)" "nc_stale_after (hc_check http_built) = 90 * Second"
    "nc_path (hc_check http_built) = ''ready''"
    by (auto simp: http_sample_config_def)
qed

lemma http_built_core: "\<exists>k. hc_core http_built = Some k \<and> cl_name k = ''payments'' \<and> cl_sanitizer k = Some DefaultHealthSanitizer"
proof -
  obtain k where k: "build_core sample_defaults (hcfg_config http_sample_config) = Inr k" "hc_core http_built = Some k"
    using http_built by (rule New_parts)
  then have "new_client (sample_config ''payments'') = Inr k"
    by (simp add: build_core_def http_sample_config_def map_error_def split: sum.splits)
  then show ?thesis using new_client_default [of _ k] sample_config_ok(2) [OF sample_names(1)] k(2) by auto
qed

section \<open>A TCP client\<close>

definition tcp_sample_config :: TcpConfig where
  "tcp_sample_config = \<lparr>tcfg_config = sample_config ''ledger'', tcfg_network = '''', tcfg_address = ''cache:6379'',
     tcfg_dial_timeout = 0, tcfg_disable_dial_timeout = False, tcfg_keep_alive = 0, tcfg_disable_keep_alive = False,
     tcfg_dial_context = None,
     tcfg_check = \<lparr>tk_enabled = True, tk_timeout = 0, tk_disable_timeout = False, tk_stale_after = 0,
       tk_disable_stale_after = False, tk_probe = None\<rparr>,
     tcfg_tls = \<lparr>tl_enabled = True, tl_config = None, tl_server_name = '''', tl_disable_inference = False,
       tl_handshake_timeout = 0, tl_disable_handshake_timeout = False\<rparr>\<rparr>"

definition tcp_built :: TcpClient where
  "tcp_built = the (value_of (tcp_New id (\<lambda>_. False) (Some NopObserver) tcp_sample_config))"

lemma tcp_sample_parts: "SplitHostPort ''cache:6379'' = Some (''cache'', ''6379'')"
  "list_all (\<lambda>r. 48 \<le> r \<and> r \<le> 57) (runes ''6379'')" "list_all digit_byte ''6379''"
  "\<not> contains ''cache:6379'' ''://''" "last_index_byte CHR ''%'' ''cache'' = None"
  by code_simp+

lemma tcp_sample_address: "validateTCPAddress ''cache:6379'' = None"
  "configuredAddressHost (\<lambda>_. False) ''cache:6379'' = ''cache''" "to_lower id '''' = ''''"
proof -
  have "Atoi ''6379'' = Some 6379" using tcp_sample_parts(3) by (simp add: Atoi_def Let_def decimal_def)
  then show "validateTCPAddress ''cache:6379'' = None"
    by (simp add: validateTCPAddress_def tcp_sample_parts sample_trims)
qed (simp_all add: configuredAddressHost_def tcp_sample_parts sample_trims to_lower_def map_string_def map_filter_def)

lemma tcp_built: "tcp_New id (\<lambda>_. False) (Some NopObserver) tcp_sample_config = Inr tcp_built"
proof -
  obtain k where k: "new_client (sample_config ''ledger'') = Inr k" using sample_config_ok sample_names by blast
  have "\<exists>c. tcp_New id (\<lambda>_. False) (Some NopObserver) tcp_sample_config = Inr c"
    using k
    by (simp add: tcp_New_def tcp_sample_config_def sample_config_ok sample_names tcp_sample_address tcp_sample_parts sample_trims Duration_def
        DefaultNetwork_def DefaultDialTimeout_def DefaultKeepAlive_def DefaultTCPCheckTimeout_def
        DefaultTCPCheckStaleAfter_def DefaultTLSHandshakeTimeout_def tcp_normalizeCheckConfig_def
        normalizeTLSConfig_def DefaultTLSConfig_def Second_def Let_def tcp_build_core_def)
  then show ?thesis unfolding tcp_built_def by (auto simp: value_of_def)
qed

lemma tcp_built_parts: "tn_enabled (tc_check tcp_built)" "tn_probe (tc_check tcp_built) = None"
  "tn_stale_after (tc_check tcp_built) = 90 * Second" "nt_enabled (tc_tls tcp_built)"
proof -
  have "tcp_normalizeCheckConfig (tcfg_check tcp_sample_config) = Inr (tc_check tcp_built)"
    using tcp_built by (rule tcp_New_parts)
  then have e: "\<lparr>tn_enabled = True, tn_timeout = 5 * Second, tn_stale_after = 90 * Second, tn_probe = None\<rparr> = tc_check tcp_built"
    by (simp add: tcp_sample_config_def tcp_normalizeCheckConfig_def Duration_def DefaultTCPCheckTimeout_def
        DefaultTCPCheckStaleAfter_def Second_def)
  show "tn_enabled (tc_check tcp_built)" "tn_probe (tc_check tcp_built) = None"
    "tn_stale_after (tc_check tcp_built) = 90 * Second"
    by (simp_all add: e [symmetric])
  have "normalizeTLSConfig (\<lambda>_. False) (tcfg_tls tcp_sample_config) (tc_address tcp_built) = Inr (tc_tls tcp_built)"
    using tcp_built by (rule tcp_New_parts)
  then show "nt_enabled (tc_tls tcp_built)"
    using normalizeTLSConfig_ok(2) by (fastforce simp: tcp_sample_config_def)
qed

lemma tcp_built_core: "\<exists>k. tc_core tcp_built = Some k \<and> cl_name k = ''ledger'' \<and> cl_sanitizer k = Some DefaultHealthSanitizer"
proof -
  obtain k where k: "tcp_build_core (Some NopObserver) (tcfg_config tcp_sample_config) = Inr k" "tc_core tcp_built = Some k"
    using tcp_built by (rule tcp_New_parts)
  then have "new_client (sample_config ''ledger'') = Inr k"
    by (simp add: tcp_build_core_def tcp_sample_config_def map_error_def split: sum.splits)
  then show ?thesis using new_client_default [of _ k] sample_config_ok(2) [OF sample_names(2)] k(2) by auto
qed

text \<open>A dial whose handshake fails, and one that succeeds.\<close>

definition sample_dial :: "goerr option \<Rightarrow> dial_env" where
  "sample_dial handshake = \<lparr>dv_started = now_at 1, dv_attempt_started = now_at 2, dv_ctx_before = None,
     dv_conn = Some 5, dv_err = None, dv_ctx_after = None, dv_handshake = handshake, dv_version = VersionTLS13,
     dv_attempt_ended = now_at 3, dv_ended = now_at 4\<rparr>"

definition sample_tcp_check :: tcp_check_env where
  "sample_tcp_check = \<lparr>kv_started = now_at 0, kv_dial = sample_dial None, kv_deadline = None,
     kv_set_deadline = Returned (), kv_probe = Panicked, kv_probe_ctx = None, kv_stop_ctx = None,
     kv_cancel = CancelStopped, kv_ended = now_at 9\<rparr>"

text \<open>A client with a probe, and a check whose deadline passes while the probe runs.\<close>

definition tcp_probing :: TcpClient where
  "tcp_probing = tcp_built\<lparr>tc_check := (tc_check tcp_built)\<lparr>tn_probe := Some (OtherProbe 0)\<rparr>\<rparr>"

definition overrun_check :: tcp_check_env where
  "overrun_check = sample_tcp_check\<lparr>kv_deadline := Some (now_at 5), kv_probe_ctx := Some DeadlineExceeded,
     kv_cancel := CancelDuringProbe, kv_probe := Returned \<lparr>ha_state = HealthHealthy, ha_failure = FailureNone, ha_message = ''''\<rparr>\<rparr>"

definition sample_http_check :: check_env where
  "sample_http_check = \<lparr>ce_started = now_at 0, ce_do = sample_env\<lparr>de_attempt := (\<lambda>_. sample_attempt (Some (sample_response 200)) 100)\<rparr>,
     ce_ctx = \<lparr>cv_err = None, cv_deadline = None\<rparr>, ce_reads = [], ce_ended = now_at 9\<rparr>"

section \<open>Facts of the samples\<close>

lemma http_built_inv: "http_inv http_built" using http_built by (rule New_inv)

lemma tcp_built_inv: "tcp_inv tcp_built" using tcp_built by (rule tcp_New_inv)

lemma tcp_probing_parts: "tcp_inv tcp_probing" "tn_enabled (tc_check tcp_probing)"
  "tn_probe (tc_check tcp_probing) = Some (OtherProbe 0)" "tc_core tcp_probing = tc_core tcp_built"
proof -
  show "tcp_inv tcp_probing" using tcp_built_inv unfolding tcp_inv_def by (auto simp: tcp_probing_def)
qed (simp_all add: tcp_probing_def tcp_built_parts(1))

lemma tcp_dialed: "dialer_called (snd (dialObserved c (sample_dial None)))"
  "tr_conn (fst (fst (dialObserved c (sample_dial None)))) \<noteq> None"
  by (simp_all add: dialObserved_def establishConnection_def dialConnection_def sample_dial_def Let_def)

lemma overrun_probe: "\<not> probe_healthy probe overrun_check" "cancelled overrun_check" "kv_dial overrun_check = sample_dial None"
  "kv_set_deadline overrun_check = Returned ()" "dv_conn (sample_dial None) = Some 5"
  by (simp_all add: probe_healthy_def cancelled_def overrun_check_def sample_tcp_check_def sample_dial_def)

lemma overrun_dials: "dialer_called (tx_effects (tcp_Check overrun_check (Some tcp_probing) True))"
proof -
  obtain k where "tc_core tcp_probing = Some k" using tcp_built_core tcp_probing_parts(4) by auto
  then obtain r m fx pfx where "dialObserved tcp_probing (sample_dial None) = ((r, m), fx)"
    "tx_effects (tcp_Check overrun_check (Some tcp_probing) True) = tcp_check_scope (tn_timeout (tc_check tcp_probing)) (fx @ pfx)"
    using tcp_check_enabled [OF tcp_inv_configured [OF tcp_probing_parts(1)] tcp_probing_parts(2) _ refl] overrun_probe(3) by metis
  with tcp_dialed(1) [of tcp_probing] show ?thesis by simp
qed

lemma built_names: "http_name (Some http_built) = ''payments''" "tcp_name (Some tcp_built) = ''ledger''"
  using http_built_core tcp_built_core by (auto simp: accessors)

lemma http_built_request:
  "\<exists>rq. NewRequest ready_urls (Some http_built) True (nc_method (hc_check http_built)) (nc_path (hc_check http_built))
     (NilBody, False) = Inr rq"
proof -
  obtain u where u: "hc_base_url http_built = Some u" using http_built_inv by (auto simp: http_inv_def)
  have "check_inv (hc_check http_built)" using http_built_inv by (simp add: http_inv_def)
  then have "new_request_ok (nc_method (hc_check http_built))" using http_built_parts(1) by (simp add: check_inv_def)
  moreover have "parse_url ready_urls (url_string ready_urls v) = None \<Longrightarrow> False" for v
    by (simp add: ready_urls_def split: if_splits)
  ultimately show ?thesis
    by (auto simp: NewRequest_def u http_built_parts(3) ready_urls_def sample_path_def sample_url_def is_abs_def Let_def)
qed

text \<open>A result of either check is still fresh at the instant 20.\<close>

lemma sample_fresh:
  "fresh (ck_health (Check sample_go ready_urls sample_http_check (Some http_built) True)) (90 * Second) (now_at 20)"
  "fresh (tx_health (tcp_Check sample_tcp_check (Some tcp_built) True)) (90 * Second) (now_at 20)"
proof -
  have late: "fresh h (90 * Second) (now_at 20)" if "instant (h_checked_at h) = 9" for h
    using that by (simp add: fresh_def is_zero_def zero_time_def now_at_def time_sub_def saturate_def Second_def max_duration_def min_duration_def)
  obtain k where k: "hc_core http_built = Some k" "cl_sanitizer k = Some DefaultHealthSanitizer" using http_built_core by blast
  show "fresh (ck_health (Check sample_go ready_urls sample_http_check (Some http_built) True)) (90 * Second) (now_at 20)"
    by (rule late) (simp add: check_times(1) [OF k(2) http_built_inv k(1) http_built_parts(1)] sample_http_check_def now_at_def)
  obtain l where l: "tc_core tcp_built = Some l" "cl_sanitizer l = Some DefaultHealthSanitizer" using tcp_built_core by blast
  show "fresh (tx_health (tcp_Check sample_tcp_check (Some tcp_built) True)) (90 * Second) (now_at 20)"
    by (rule late) (simp add: check_times(2) [OF l(2) tcp_built_inv l(1) tcp_built_parts(1)] sample_tcp_check_def now_at_def)
qed

end
