(* ===== verification/Obs_Merge.thy ===== *)
theory Obs_Merge
  imports Ck_Observer
begin

text \<open>
  The merge of keyed telemetry attributes. \<open>slogobserver/attributes.go\<close>, \<open>otel/attributes.go\<close> and
  \<open>internal/httpotel/transport.go\<close> each build a slice and a map of positions in one pass; the loop is
  modelled once, over what a key is and which entries are skipped, and proved equal to the repeated
  in-place update \<open>put_by\<close>. The locale states what the three packages rely on.
\<close>

section \<open>The loop\<close>

text \<open>\<open>positions\<close> maps the keys met so far to their index in \<open>merged\<close>.\<close>

fun merge_loop ::
  "('a \<Rightarrow> string) \<Rightarrow> ('a \<Rightarrow> bool) \<Rightarrow> 'a list \<Rightarrow> (string \<rightharpoonup> nat) \<Rightarrow> 'a list \<Rightarrow> 'a list" where
  "merge_loop key skipped merged positions [] = merged"
| "merge_loop key skipped merged positions (x # xs) =
     (if skipped x then merge_loop key skipped merged positions xs
      else (case positions (key x) of
        Some position \<Rightarrow> merge_loop key skipped (merged[position := x]) positions xs
      | None \<Rightarrow> merge_loop key skipped (merged @ [x]) (positions(key x \<mapsto> length merged)) xs))"

lemma merge_loop_put_by:
  assumes "positions = (\<lambda>k. position_of key k merged)"
  shows "merge_loop key skipped merged positions xs =
     foldl (\<lambda>m x. if skipped x then m else put_by key x m) merged xs"
  using assms
proof (induction xs arbitrary: merged positions)
  case (Cons x xs)
  show ?case
  proof (cases "positions (key x)")
    case None
    then have "position_of key (key x) merged = None" using Cons.prems by simp
    moreover have "positions(key x \<mapsto> length merged) = (\<lambda>k. position_of key k (merged @ [x]))"
      using Cons.prems None by (auto simp: position_of_append fun_eq_iff split: option.split)
    ultimately show ?thesis
      using Cons.IH [of "positions(key x \<mapsto> length merged)" "merged @ [x]"] Cons.IH [OF Cons.prems] None
      by (simp add: put_by_absent)
  next
    case (Some i)
    then have i: "position_of key (key x) merged = Some i" using Cons.prems by simp
    have "positions = (\<lambda>k. position_of key k (merged[i := x]))"
      using Cons.prems position_of_update [OF i] by (simp add: fun_eq_iff)
    then show ?thesis
      using Cons.IH [of positions "merged[i := x]"] Cons.IH [OF Cons.prems] Some i by (simp add: put_by_present)
  qed
qed simp

section \<open>What a merge promises\<close>

text \<open>The first occurrences of a list, in order.\<close>

definition first_occurrences :: "'a list \<Rightarrow> 'a list" where
  "first_occurrences xs = rev (remdups (rev xs))"

lemma first_occurrences_simps [simp]:
  "first_occurrences [] = []"
  "first_occurrences (xs @ [x]) = (if x \<in> set xs then first_occurrences xs else first_occurrences xs @ [x])"
  "set (first_occurrences xs) = set xs" "distinct (first_occurrences xs)"
  by (simp_all add: first_occurrences_def)

lemma find_append: "find P (xs @ ys) = (case find P xs of None \<Rightarrow> find P ys | Some x \<Rightarrow> Some x)"
  by (induction xs) auto

locale ordered_merge =
  fixes key :: "'a \<Rightarrow> string"
    and skipped :: "'a \<Rightarrow> bool"
    and merge :: "'a list \<Rightarrow> 'a list"
  assumes merge_reference: "merge xs = foldl (\<lambda>m x. if skipped x then m else put_by key x m) [] xs"
begin

lemma merge_Nil [simp]: "merge [] = []"
  by (simp add: merge_reference)

lemma merge_snoc: "merge (xs @ [x]) = (if skipped x then merge xs else put_by key x (merge xs))"
  by (simp add: merge_reference)

text \<open>Every key appears once, where it appeared first, and with the value it had last.\<close>

lemma merge_keys: "map key (merge xs) = first_occurrences (map key (filter (\<lambda>x. \<not> skipped x) xs))"
proof (induction xs rule: rev_induct)
  case (snoc x xs)
  have "key x \<in> set (map key (merge xs)) \<longleftrightarrow> key x \<in> key ` {y \<in> set xs. \<not> skipped y}"
    unfolding snoc.IH by simp
  with snoc.IH show ?case by (simp add: merge_snoc map_key_put_by)
qed simp

lemma merge_distinct: "distinct (map key (merge xs))"
  by (simp only: merge_keys first_occurrences_simps)

lemma merge_find:
  "find (\<lambda>y. key y = k) (merge xs) = find (\<lambda>y. key y = k) (rev (filter (\<lambda>x. \<not> skipped x) xs))"
  by (induction xs rule: rev_induct) (simp_all add: merge_snoc find_put_by)

lemma merge_set: "set (merge xs) \<subseteq> {x \<in> set xs. \<not> skipped x}"
proof (induction xs rule: rev_induct)
  case (snoc x xs)
  then show ?case using set_put_by_subset [of key x "merge xs"] by (auto simp: merge_snoc)
qed simp

text \<open>Entries of a later group win, and leave the others as they are.\<close>

lemma merge_later:
  "find (\<lambda>y. key y = k) (merge (xs @ ys)) =
     (case find (\<lambda>y. key y = k) (merge ys) of Some y \<Rightarrow> Some y | None \<Rightarrow> find (\<lambda>y. key y = k) (merge xs))"
  by (simp add: merge_find find_append split: option.split)

lemma merge_later_wins:
  assumes "distinct (map key ys)" "y \<in> set ys" "\<not> skipped y"
  shows "find (\<lambda>z. key z = key y) (merge (xs @ ys)) = Some y"
proof -
  let ?zs = "rev (filter (\<lambda>x. \<not> skipped x) ys)"
  have m: "y \<in> set ?zs" using assms(2,3) by simp
  then have "find (\<lambda>z. key z = key y) ?zs \<noteq> None" unfolding find_None_iff by blast
  then obtain z where z: "find (\<lambda>z. key z = key y) ?zs = Some z" by blast
  then have "key z = key y" "z \<in> set ?zs" by (auto simp only: find_Some_iff nth_mem)
  with assms(1,2) have "z = y" by (auto simp: distinct_map inj_on_def)
  with z show ?thesis by (simp add: merge_find find_append)
qed

lemma merge_fixed:
  "distinct (map key xs) \<Longrightarrow> \<forall>x \<in> set xs. \<not> skipped x \<Longrightarrow> merge xs = xs"
proof (induction xs rule: rev_induct)
  case (snoc x xs)
  then have "position_of key (key x) xs = None" by (auto simp: position_of_None)
  with snoc show ?case by (simp add: merge_snoc put_by_absent)
qed simp

lemma merge_idem: "merge (merge xs) = merge xs"
  using merge_distinct merge_set by (intro merge_fixed) blast+

end

text \<open>The loop is an instance, whatever it skips.\<close>

lemma merge_loop_reference:
  "merge_loop key skipped [] Map.empty xs = foldl (\<lambda>m x. if skipped x then m else put_by key x m) [] xs"
  by (rule merge_loop_put_by) (simp add: fun_eq_iff)

end
