(* ===== verification/Slog_Observer.thy ===== *)
theory Slog_Observer
  imports Obs_Merge
begin

text \<open>
  \<open>slogobserver/observer.go\<close>, \<open>attributes.go\<close> and \<open>levels.go\<close>: the observer that turns lifecycle events
  into structured log records. The logger is the caller's: what its handler answers to \<open>Enabled\<close> is a
  field, and the model returns the record the handler is given.
\<close>

section \<open>Attributes of \<open>log/slog\<close>\<close>

datatype slog_value =
    SlogString string
  | SlogBool bool
  | SlogInt int
  | SlogDuration duration
  | SlogError goerr
  | SlogAny nat
  | SlogGroup "(string \<times> slog_value) list"

type_synonym slog_attr = "string \<times> slog_value"

text \<open>\<open>slog.GroupValue\<close> and \<open>Record.AddAttrs\<close> omit empty groups.\<close>

definition omit_empty_groups :: "slog_attr list \<Rightarrow> slog_attr list" where
  "omit_empty_groups attrs = filter (\<lambda>a. case snd a of SlogGroup [] \<Rightarrow> False | _ \<Rightarrow> True) attrs"

definition GroupValue :: "slog_attr list \<Rightarrow> slog_value" where
  "GroupValue attrs = SlogGroup (omit_empty_groups attrs)"

definition slog_blank :: "slog_attr \<Rightarrow> bool" where
  "slog_blank a \<longleftrightarrow> TrimSpace (fst a) = ''''"

definition eventAttributes :: "attribute list \<Rightarrow> slog_attr list" where
  "eventAttributes attributes =
     merge_loop fst slog_blank [] Map.empty (map (\<lambda>(key, v). (key, SlogString v)) attributes)"

definition addString :: "string \<Rightarrow> string \<Rightarrow> slog_attr list \<Rightarrow> slog_attr list" where
  "addString key v attributes = (if v \<noteq> '''' then attributes @ [(key, SlogString v)] else attributes)"

definition addDuration :: "string \<Rightarrow> duration \<Rightarrow> slog_attr list \<Rightarrow> slog_attr list" where
  "addDuration key v attributes = (if v \<ge> 0 then attributes @ [(key, SlogDuration v)] else attributes)"

definition addFailureClass :: "FailureClass \<Rightarrow> slog_attr list \<Rightarrow> slog_attr list" where
  "addFailureClass failureClass attributes =
     (if failureClass \<noteq> FailureNone
      then attributes @ [(''failure_class'', SlogString (failure_string failureClass))] else attributes)"

definition addPositive :: "string \<Rightarrow> int \<Rightarrow> slog_attr list \<Rightarrow> slog_attr list" where
  "addPositive key n attributes = (if n > 0 then attributes @ [(key, SlogInt n)] else attributes)"

definition addEventAttributeGroup :: "slog_attr list \<Rightarrow> slog_attr list \<Rightarrow> slog_attr list" where
  "addEventAttributeGroup attributes event =
     (if event = [] then attributes else attributes @ [(''attributes'', GroupValue event)])"

section \<open>Configuration\<close>

record LevelConfig =
  lv_operation_success :: int
  lv_operation_failure :: int
  lv_attempt :: int
  lv_retry :: int
  lv_health_healthy :: int
  lv_health_unhealthy :: int

definition LevelDebug :: int where "LevelDebug = -4"
definition LevelWarn :: int where "LevelWarn = 4"
definition LevelError :: int where "LevelError = 8"

definition DefaultLevelConfig :: LevelConfig where
  "DefaultLevelConfig = \<lparr>lv_operation_success = LevelDebug, lv_operation_failure = LevelError,
     lv_attempt = LevelDebug, lv_retry = LevelWarn, lv_health_healthy = LevelDebug,
     lv_health_unhealthy = LevelWarn\<rparr>"

text \<open>\<open>lg_handler\<close> is what \<open>Handler().Enabled\<close> answers by level; None is a nil handler.\<close>

record slog_logger =
  lg_id :: nat
  lg_handler :: "(int \<Rightarrow> bool) option"

datatype slog_option = WithLevels LevelConfig | WithAttributes "slog_attr list" | WithErrorDetails

record slog_config =
  sc_levels :: LevelConfig
  sc_attributes :: "slog_attr list"
  sc_error_details :: bool

fun apply_option :: "slog_option \<Rightarrow> slog_config \<Rightarrow> slog_config" where
  "apply_option (WithLevels levels) cfg = cfg\<lparr>sc_levels := levels\<rparr>"
| "apply_option (WithAttributes attributes) cfg = cfg\<lparr>sc_attributes := sc_attributes cfg @ attributes\<rparr>"
| "apply_option WithErrorDetails cfg = cfg\<lparr>sc_error_details := True\<rparr>"

record SlogObserver =
  so_logger :: "slog_logger option"
  so_levels :: LevelConfig
  so_attributes :: "slog_attr list"
  so_error_details :: bool

text \<open>A nil option is skipped; a nil logger selects \<open>slog.Default()\<close>.\<close>

definition slog_New :: "slog_logger \<Rightarrow> slog_logger option \<Rightarrow> slog_option option list \<Rightarrow> SlogObserver" where
  "slog_New default_logger logger options =
     (let cfg = foldl (\<lambda>cfg option. case option of None \<Rightarrow> cfg | Some f \<Rightarrow> apply_option f cfg)
            \<lparr>sc_levels = DefaultLevelConfig, sc_attributes = [], sc_error_details = False\<rparr> options
      in \<lparr>so_logger = Some (case logger of None \<Rightarrow> default_logger | Some l \<Rightarrow> l),
          so_levels = sc_levels cfg, so_attributes = sc_attributes cfg, so_error_details = sc_error_details cfg\<rparr>)"

section \<open>Records\<close>

record slog_record =
  sr_time :: gotime
  sr_level :: int
  sr_message :: string
  sr_attrs :: "slog_attr list"

definition slog_log ::
  "SlogObserver \<Rightarrow> gotime \<Rightarrow> gotime \<Rightarrow> int \<Rightarrow> string \<Rightarrow> slog_attr list \<Rightarrow> slog_record option" where
  "slog_log o' now at level message clientkitAttributes =
     (case so_logger o' of None \<Rightarrow> None | Some logger \<Rightarrow> (case lg_handler logger of
        None \<Rightarrow> None
      | Some enabled \<Rightarrow>
          if \<not> enabled level then None
          else Some \<lparr>sr_time = (if is_zero at then to_utc now else at), sr_level = level, sr_message = message,
            sr_attrs = omit_empty_groups (so_attributes o') @
              omit_empty_groups [(''clientkit'', GroupValue clientkitAttributes)]\<rparr>))"

definition attemptSucceeded :: "'a AttemptEvent \<Rightarrow> bool" where
  "attemptSucceeded event \<longleftrightarrow> ae_succeeded event \<and> ae_failure event = FailureNone \<and> is_nil (ae_err event)"

definition operationSucceeded :: "'a OperationEndEvent \<Rightarrow> bool" where
  "operationSucceeded event \<longleftrightarrow> oe_succeeded event \<and> oe_failure event = FailureNone \<and> is_nil (oe_err event)"

definition addError :: "bool \<Rightarrow> goerr option \<Rightarrow> slog_attr list \<Rightarrow> slog_attr list" where
  "addError details err attributes = (case err of
     None \<Rightarrow> attributes | Some e \<Rightarrow> if details then attributes @ [(''error'', SlogError e)] else attributes)"

definition attempt_group :: "SlogObserver \<Rightarrow> attribute list AttemptEvent \<Rightarrow> slog_attr list" where
  "attempt_group o' event =
     (let attributes = [(''event'', SlogString ''attempt_completed'')];
          attributes = addString ''client'' (ae_client event) attributes;
          attributes = addString ''protocol'' (ae_protocol event) attributes;
          attributes = addString ''operation'' (ae_operation event) attributes;
          attributes = addString ''outcome'' (ae_outcome event) attributes;
          attributes = attributes @ [(''succeeded'', SlogBool (attemptSucceeded event))];
          attributes = addFailureClass (ae_failure event) attributes;
          attributes = addPositive ''attempt'' (ae_number event) attributes;
          attributes = addDuration ''duration'' (ae_duration event) attributes;
          attributes = addError (so_error_details o') (ae_err event) attributes
      in addEventAttributeGroup attributes (eventAttributes (ae_attributes event)))"

definition slog_ObserveAttempt ::
  "SlogObserver option \<Rightarrow> gotime \<Rightarrow> attribute list AttemptEvent \<Rightarrow> slog_record option" where
  "slog_ObserveAttempt o' now event = (case o' of None \<Rightarrow> None | Some o' \<Rightarrow>
     slog_log o' now (ae_ended_at event) (lv_attempt (so_levels o')) ''clientkit attempt completed''
       (attempt_group o' event))"

definition retry_group :: "attribute list RetryEvent \<Rightarrow> slog_attr list" where
  "retry_group event =
     (let attributes = [(''event'', SlogString ''retry_scheduled'')];
          attributes = addString ''client'' (re_client event) attributes;
          attributes = addString ''protocol'' (re_protocol event) attributes;
          attributes = addString ''operation'' (re_operation event) attributes;
          attributes = addFailureClass (re_failure event) attributes;
          attributes = addPositive ''after_attempt'' (re_after_attempt event) attributes;
          attributes = addString ''cause'' (re_cause event) attributes;
          attributes = addDuration ''delay'' (re_delay event) attributes
      in addEventAttributeGroup attributes (eventAttributes (re_attributes event)))"

definition slog_ObserveRetry ::
  "SlogObserver option \<Rightarrow> gotime \<Rightarrow> attribute list RetryEvent \<Rightarrow> slog_record option" where
  "slog_ObserveRetry o' now event = (case o' of None \<Rightarrow> None | Some o' \<Rightarrow>
     slog_log o' now (re_at event) (lv_retry (so_levels o')) ''clientkit retry scheduled'' (retry_group event))"

definition health_group :: "attribute list HealthEvent \<Rightarrow> slog_attr list" where
  "health_group event =
     (let attributes = [(''event'', SlogString ''health_check_completed'')];
          attributes = addString ''client'' (he_client event) attributes;
          attributes = addString ''protocol'' (he_protocol event) attributes;
          attributes = addString ''health_state'' (health_state_string (he_state event)) attributes;
          attributes = addFailureClass (he_failure event) attributes;
          attributes = addDuration ''duration'' (he_duration event) attributes;
          attributes = addString ''message'' (he_message event) attributes
      in addEventAttributeGroup attributes (eventAttributes (he_attributes event)))"

definition slog_ObserveHealth ::
  "SlogObserver option \<Rightarrow> gotime \<Rightarrow> attribute list HealthEvent \<Rightarrow> slog_record option" where
  "slog_ObserveHealth o' now event = (case o' of None \<Rightarrow> None | Some o' \<Rightarrow>
     slog_log o' now (he_checked_at event)
       (if he_state event = HealthHealthy then lv_health_healthy (so_levels o') else lv_health_unhealthy (so_levels o'))
       ''clientkit health check completed'' (health_group event))"

section \<open>Operations\<close>

text \<open>The observation of an operation; \<open>sb_done\<close> is its \<open>sync.Once\<close>. \<open>NopOperationObservation\<close> is None.\<close>

record slog_observation =
  sb_done :: bool
  sb_observer :: SlogObserver
  sb_client :: string
  sb_protocol :: string
  sb_operation :: string
  sb_attributes :: "slog_attr list"

definition slog_StartOperation ::
  "SlogObserver option \<Rightarrow> attribute list OperationStartEvent \<Rightarrow> slog_observation option" where
  "slog_StartOperation o' event = (case o' of None \<Rightarrow> None | Some o' \<Rightarrow>
     if is_nil (so_logger o') then None
     else Some \<lparr>sb_done = False, sb_observer = o', sb_client = os_client event, sb_protocol = os_protocol event,
       sb_operation = os_operation event, sb_attributes = eventAttributes (os_attributes event)\<rparr>)"

definition or_else :: "string \<Rightarrow> string \<Rightarrow> string" where
  "or_else s t = (if s = '''' then t else s)"

definition end_group :: "slog_observation \<Rightarrow> attribute list OperationEndEvent \<Rightarrow> slog_attr list" where
  "end_group ob event =
     (let converted = eventAttributes (oe_attributes event);
          converted = (if converted = [] then sb_attributes ob else converted);
          attributes = [(''event'', SlogString ''operation_completed'')];
          attributes = addString ''client'' (or_else (oe_client event) (sb_client ob)) attributes;
          attributes = addString ''protocol'' (or_else (oe_protocol event) (sb_protocol ob)) attributes;
          attributes = addString ''operation'' (or_else (oe_operation event) (sb_operation ob)) attributes;
          attributes = addString ''outcome'' (oe_outcome event) attributes;
          attributes = attributes @ [(''succeeded'', SlogBool (operationSucceeded event))];
          attributes = addFailureClass (oe_failure event) attributes;
          attributes = addDuration ''duration'' (oe_duration event) attributes;
          attributes = addPositive ''attempts'' (oe_attempts event) attributes;
          attributes = addError (so_error_details (sb_observer ob)) (oe_err event) attributes
      in addEventAttributeGroup attributes converted)"

definition slog_End ::
  "slog_observation \<Rightarrow> gotime \<Rightarrow> attribute list OperationEndEvent \<Rightarrow> slog_record option \<times> slog_observation" where
  "slog_End ob now event =
     (if sb_done ob then (None, ob)
      else (slog_log (sb_observer ob) now (oe_ended_at event)
              (if operationSucceeded event then lv_operation_success (so_levels (sb_observer ob))
               else lv_operation_failure (so_levels (sb_observer ob)))
              ''clientkit operation completed'' (end_group ob event), ob\<lparr>sb_done := True\<rparr>))"

section \<open>What a record carries\<close>

interpretation slog_merge: ordered_merge fst slog_blank "merge_loop fst slog_blank [] Map.empty"
  by unfold_locales (rule merge_loop_reference)

text \<open>A raw error anywhere in a value.\<close>

fun carries_error :: "slog_value \<Rightarrow> bool" where
  "carries_error (SlogError e) = True"
| "carries_error (SlogGroup attrs) = list_ex (\<lambda>a. carries_error (snd a)) attrs"
| "carries_error _ = False"

abbreviation attrs_carry_error :: "slog_attr list \<Rightarrow> bool" where
  "attrs_carry_error attrs \<equiv> list_ex (\<lambda>a. carries_error (snd a)) attrs"

lemma add_carries [simp]:
  "attrs_carry_error (addString k v xs) = attrs_carry_error xs"
  "attrs_carry_error (addDuration k d xs) = attrs_carry_error xs"
  "attrs_carry_error (addFailureClass c xs) = attrs_carry_error xs"
  "attrs_carry_error (addPositive k n xs) = attrs_carry_error xs"
  "attrs_carry_error (addError b e xs) \<longleftrightarrow> attrs_carry_error xs \<or> b \<and> e \<noteq> None"
  "attrs_carry_error (addEventAttributeGroup xs ys) \<longleftrightarrow> attrs_carry_error xs \<or> attrs_carry_error (omit_empty_groups ys)"
  by (auto simp: addString_def addDuration_def addFailureClass_def addPositive_def addError_def
      addEventAttributeGroup_def GroupValue_def omit_empty_groups_def split: option.split)

lemma omit_carries: "attrs_carry_error (omit_empty_groups xs) = attrs_carry_error xs"
  by (induction xs) (auto simp: omit_empty_groups_def split: slog_value.splits list.splits)

lemma eventAttributes_carry: "\<not> attrs_carry_error (eventAttributes xs)"
  using slog_merge.merge_set [of "map (\<lambda>(key, v). (key, SlogString v)) xs"]
  by (auto simp: eventAttributes_def list_ex_iff)

lemma groups_carry:
  "attrs_carry_error (attempt_group o' e) \<longleftrightarrow> so_error_details o' \<and> ae_err e \<noteq> None"
  "\<not> attrs_carry_error (retry_group f)" "\<not> attrs_carry_error (health_group h)"
  by (simp_all add: attempt_group_def retry_group_def health_group_def Let_def omit_carries eventAttributes_carry)

lemma end_carries:
  "\<not> attrs_carry_error (sb_attributes ob) \<Longrightarrow>
   attrs_carry_error (end_group ob g) \<longleftrightarrow> so_error_details (sb_observer ob) \<and> oe_err g \<noteq> None"
  by (simp add: end_group_def Let_def omit_carries eventAttributes_carry)

lemma log_carries:
  assumes "slog_log o' now at level m attrs = Some r"
  shows "attrs_carry_error (sr_attrs r) \<longleftrightarrow> attrs_carry_error (so_attributes o') \<or> attrs_carry_error attrs"
    and "sr_level r = level" "sr_message r = m" "\<not> is_zero at \<Longrightarrow> sr_time r = at"
  using assms by (auto simp: slog_log_def GroupValue_def omit_carries split: option.splits if_splits)

text \<open>Only the first end of an operation is logged.\<close>

lemma slog_End_once: "slog_End (snd (slog_End ob now e)) now' e' = (None, snd (slog_End ob now e))"
  by (simp add: slog_End_def)

text \<open>The keys of a record's own group: each at most once, so the group is unambiguous.\<close>

lemma add_keys [simp]:
  "map fst (addString k v xs) = map fst xs @ (if v = '''' then [] else [k])"
  "map fst (addDuration k d xs) = map fst xs @ (if d \<ge> 0 then [k] else [])"
  "map fst (addFailureClass c xs) = map fst xs @ (if c = FailureNone then [] else [''failure_class''])"
  "map fst (addPositive k n xs) = map fst xs @ (if n > 0 then [k] else [])"
  "map fst (addError b e xs) = map fst xs @ (if b \<and> e \<noteq> None then [''error''] else [])"
  "map fst (addEventAttributeGroup xs ys) = map fst xs @ (if ys = [] then [] else [''attributes''])"
  by (auto simp: addString_def addDuration_def addFailureClass_def addPositive_def addError_def
      addEventAttributeGroup_def split: option.split)

lemma group_keys_distinct:
  "distinct (map fst (attempt_group o' e))" "distinct (map fst (retry_group f))"
  "distinct (map fst (health_group h))" "distinct (map fst (end_group ob g))"
  by (simp_all add: attempt_group_def retry_group_def health_group_def end_group_def Let_def)

end
