(* ===== verification/Otel_Observer.thy ===== *)
theory Otel_Observer
  imports Obs_Merge Go_Float "HOL-Library.Signed_Division"
begin

text \<open>
  \<open>otel/observer.go\<close>, \<open>otel/attributes.go\<close> and \<open>otel/metrics.go\<close>: the observer that turns lifecycle
  events into OpenTelemetry spans, span events and measurements. The SDK is the caller's: the model
  returns the calls made to it, in order; whether it can create an instrument is a parameter.
\<close>

section \<open>Attributes\<close>

datatype ot_value = OtString string | OtBool bool | OtInt int | OtFloat float64 | OtOther nat

type_synonym ot_attr = "string \<times> ot_value"

definition AttributeClientName :: string where "AttributeClientName = ''clientkit.client.name''"
definition AttributeProtocol :: string where "AttributeProtocol = ''clientkit.protocol''"
definition AttributeOperation :: string where "AttributeOperation = ''clientkit.operation''"
definition AttributeOutcome :: string where "AttributeOutcome = ''clientkit.outcome''"
definition AttributeSucceeded :: string where "AttributeSucceeded = ''clientkit.succeeded''"
definition AttributeOperationAttempts :: string where "AttributeOperationAttempts = ''clientkit.operation.attempts''"
definition AttributeAttemptNumber :: string where "AttributeAttemptNumber = ''clientkit.attempt.number''"
definition AttributeRetryAfterAttempt :: string where "AttributeRetryAfterAttempt = ''clientkit.retry.after_attempt''"
definition AttributeRetryCause :: string where "AttributeRetryCause = ''clientkit.retry.cause''"
definition AttributeRetryDelay :: string where "AttributeRetryDelay = ''clientkit.retry.delay''"
definition AttributeHealthState :: string where "AttributeHealthState = ''clientkit.health.state''"
definition AttributeFailureClass :: string where "AttributeFailureClass = ''clientkit.failure.class''"

lemmas attribute_names = AttributeClientName_def AttributeProtocol_def AttributeOperation_def AttributeOutcome_def
  AttributeSucceeded_def AttributeOperationAttempts_def AttributeAttemptNumber_def AttributeRetryAfterAttempt_def
  AttributeRetryCause_def AttributeRetryDelay_def AttributeHealthState_def AttributeFailureClass_def

definition convertAttributes :: "attribute list \<Rightarrow> ot_attr list" where
  "convertAttributes attributes =
     List.map_filter (\<lambda>(key, v).
       if TrimSpace key = '''' \<or> key = ''client.failure_class'' \<or> key = AttributeFailureClass then None
       else Some (key, OtString v)) attributes"

definition withoutFailureClass :: "ot_attr list \<Rightarrow> ot_attr list" where
  "withoutFailureClass attributes = filter (\<lambda>a. fst a \<noteq> AttributeFailureClass) attributes"

definition failureClassAttributes :: "FailureClass \<Rightarrow> ot_attr list" where
  "failureClassAttributes failureClass =
     (if failureClass = FailureNone then []
      else [(AttributeFailureClass, OtString (failure_string failureClass))])"

definition ot_blank :: "ot_attr \<Rightarrow> bool" where
  "ot_blank a \<longleftrightarrow> TrimSpace (fst a) = ''''"

definition ot_mergeAttributes :: "ot_attr list list \<Rightarrow> ot_attr list" where
  "ot_mergeAttributes groups = merge_loop fst ot_blank [] Map.empty (concat groups)"

definition identityAttributes :: "string \<Rightarrow> string \<Rightarrow> string \<Rightarrow> ot_attr list" where
  "identityAttributes client protocol operation =
     [(AttributeClientName, OtString client), (AttributeProtocol, OtString protocol),
      (AttributeOperation, OtString operation)]"

section \<open>Construction\<close>

definition instrument_names :: "string list" where
  "instrument_names = [''clientkit.operations'', ''clientkit.operation.duration'', ''clientkit.operation.attempts'',
     ''clientkit.attempts'', ''clientkit.attempt.duration'', ''clientkit.retries'', ''clientkit.retry.delay'',
     ''clientkit.health.checks'', ''clientkit.health.duration'']"

text \<open>\<open>create\<close> is what the meter answers when asked for an instrument; the first error ends the loop.\<close>

fun create_instruments :: "(string \<Rightarrow> goerr option) \<Rightarrow> string list \<Rightarrow> goerr option" where
  "create_instruments create [] = None"
| "create_instruments create (name # names) = (case create name of
     Some e \<Rightarrow> Some (errorf (''create '' @ name) e)
   | None \<Rightarrow> create_instruments create names)"

datatype otel_option =
    WithTracerProvider "nat option"
  | WithMeterProvider "nat option"
  | WithInstrumentationVersion string
  | WithSpanAttributes "ot_attr list"
  | WithMetricAttributes "ot_attr list"
  | WithOtelErrorDetails

record otel_config =
  oc_tracer_provider :: "nat option"
  oc_meter_provider :: "nat option"
  oc_version :: string
  oc_span_attributes :: "ot_attr list"
  oc_metric_attributes :: "ot_attr list"
  oc_error_details :: bool

fun apply_otel_option :: "otel_option \<Rightarrow> otel_config \<Rightarrow> otel_config" where
  "apply_otel_option (WithTracerProvider p) cfg = cfg\<lparr>oc_tracer_provider := p\<rparr>"
| "apply_otel_option (WithMeterProvider p) cfg = cfg\<lparr>oc_meter_provider := p\<rparr>"
| "apply_otel_option (WithInstrumentationVersion v) cfg = cfg\<lparr>oc_version := v\<rparr>"
| "apply_otel_option (WithSpanAttributes xs) cfg = cfg\<lparr>oc_span_attributes := oc_span_attributes cfg @ xs\<rparr>"
| "apply_otel_option (WithMetricAttributes xs) cfg = cfg\<lparr>oc_metric_attributes := oc_metric_attributes cfg @ xs\<rparr>"
| "apply_otel_option WithOtelErrorDetails cfg = cfg\<lparr>oc_error_details := True\<rparr>"

text \<open>Providers are identified by numbers; tracer and meter by their provider and version.\<close>

record OtelObserver =
  ot_tracer :: "nat \<times> string"
  ot_meter :: "nat \<times> string"
  ot_span_attributes :: "ot_attr list"
  ot_metric_attributes :: "ot_attr list"
  ot_error_details :: bool

definition otel_New ::
  "nat \<Rightarrow> nat \<Rightarrow> (nat \<times> string \<Rightarrow> string \<Rightarrow> goerr option) \<Rightarrow> otel_option option list
   \<Rightarrow> (goerr, OtelObserver) result" where
  "otel_New global_tracer global_meter create options =
     (let cfg = foldl (\<lambda>cfg option. case option of None \<Rightarrow> cfg | Some f \<Rightarrow> apply_otel_option f cfg)
            \<lparr>oc_tracer_provider = None, oc_meter_provider = None, oc_version = '''', oc_span_attributes = [],
             oc_metric_attributes = [], oc_error_details = False\<rparr> options;
          tracer = (case oc_tracer_provider cfg of None \<Rightarrow> global_tracer | Some p \<Rightarrow> p, oc_version cfg);
          meter = (case oc_meter_provider cfg of None \<Rightarrow> global_meter | Some p \<Rightarrow> p, oc_version cfg)
      in case create_instruments (create meter) instrument_names of
           Some e \<Rightarrow> Inl e
         | None \<Rightarrow> Inr \<lparr>ot_tracer = tracer, ot_meter = meter,
             ot_span_attributes = withoutFailureClass (oc_span_attributes cfg),
             ot_metric_attributes = withoutFailureClass (oc_metric_attributes cfg),
             ot_error_details = oc_error_details cfg\<rparr>)"

section \<open>Calls into the SDK\<close>

datatype span_kind = SpanKindInternal | SpanKindClient

datatype otel_effect =
    SpanStarted string span_kind "ot_attr list" "gotime option"
  | SpanEventAdded string "ot_attr list" "gotime option"
  | SpanAttributesSet "ot_attr list"
  | SpanErrorRecorded goerr "gotime option"
  | SpanStatusOk
  | SpanStatusError string
  | SpanEnded "gotime option"
  | CounterAdded string "ot_attr list"
  | FloatRecorded string float64 "ot_attr list"
  | IntRecorded string int "ot_attr list"

text \<open>\<open>time.Duration.Seconds\<close>: the whole seconds plus the rest divided by a billion, in float64.\<close>

definition duration_seconds :: "duration \<Rightarrow> float64" where
  "duration_seconds d =
     fl_add (fl_of_int (d sdiv Second)) (round64 (of_int (d smod Second) / 1000000000))"

definition timestamp :: "gotime \<Rightarrow> gotime option" where
  "timestamp t = (if is_zero t then None else Some t)"

definition spanAttributes :: "OtelObserver \<Rightarrow> attribute list \<Rightarrow> ot_attr list list \<Rightarrow> ot_attr list" where
  "spanAttributes o' event groups =
     ot_mergeAttributes ([ot_span_attributes o', convertAttributes event] @ groups)"

definition metricAttributes :: "OtelObserver \<Rightarrow> attribute list \<Rightarrow> ot_attr list list \<Rightarrow> ot_attr list" where
  "metricAttributes o' event groups =
     ot_mergeAttributes ([ot_metric_attributes o', convertAttributes event] @ groups)"

definition operationSpanName :: "string \<Rightarrow> string \<Rightarrow> string" where
  "operationSpanName protocol operation =
     (if TrimSpace protocol = '''' \<or> TrimSpace operation = '''' then ''clientkit.operation''
      else ''clientkit.'' @ protocol @ ''.'' @ operation)"

definition operationSpanKind :: "OperationKind \<Rightarrow> span_kind" where
  "operationSpanKind kind = (if kind = OperationKindRemote then SpanKindClient else SpanKindInternal)"

definition ot_operationSucceeded :: "'a OperationEndEvent \<Rightarrow> bool" where
  "ot_operationSucceeded event \<longleftrightarrow> oe_succeeded event \<and> oe_failure event = FailureNone \<and> is_nil (oe_err event)"

definition ot_attemptSucceeded :: "'a AttemptEvent \<Rightarrow> bool" where
  "ot_attemptSucceeded event \<longleftrightarrow> ae_succeeded event \<and> ae_failure event = FailureNone \<and> is_nil (ae_err event)"

section \<open>Measurements\<close>

definition record_duration :: "string \<Rightarrow> duration \<Rightarrow> ot_attr list \<Rightarrow> otel_effect list" where
  "record_duration name d attributes = (if d \<ge> 0 then [FloatRecorded name (duration_seconds d) attributes] else [])"

definition recordOperation :: "OtelObserver \<Rightarrow> attribute list OperationEndEvent \<Rightarrow> otel_effect list" where
  "recordOperation o' event =
     (let attributes = metricAttributes o' (oe_attributes event)
            [identityAttributes (oe_client event) (oe_protocol event) (oe_operation event),
             [(AttributeOutcome, OtString (oe_outcome event)), (AttributeSucceeded, OtBool (ot_operationSucceeded event))],
             failureClassAttributes (oe_failure event)]
      in [CounterAdded ''clientkit.operations'' attributes] @
         record_duration ''clientkit.operation.duration'' (oe_duration event) attributes @
         (if oe_attempts event \<ge> 0 then [IntRecorded ''clientkit.operation.attempts'' (oe_attempts event) attributes]
          else []))"

definition recordAttempt :: "OtelObserver \<Rightarrow> attribute list AttemptEvent \<Rightarrow> otel_effect list" where
  "recordAttempt o' event =
     (let attributes = metricAttributes o' (ae_attributes event)
            [identityAttributes (ae_client event) (ae_protocol event) (ae_operation event),
             [(AttributeOutcome, OtString (ae_outcome event)), (AttributeSucceeded, OtBool (ot_attemptSucceeded event))],
             failureClassAttributes (ae_failure event)]
      in [CounterAdded ''clientkit.attempts'' attributes] @
         record_duration ''clientkit.attempt.duration'' (ae_duration event) attributes)"

definition recordRetry :: "OtelObserver \<Rightarrow> attribute list RetryEvent \<Rightarrow> otel_effect list" where
  "recordRetry o' event =
     (let attributes = metricAttributes o' (re_attributes event)
            [identityAttributes (re_client event) (re_protocol event) (re_operation event),
             [(AttributeRetryCause, OtString (re_cause event))], failureClassAttributes (re_failure event)]
      in [CounterAdded ''clientkit.retries'' attributes] @
         record_duration ''clientkit.retry.delay'' (re_delay event) attributes)"

definition health_identity :: "attribute list HealthEvent \<Rightarrow> ot_attr list" where
  "health_identity event = [(AttributeClientName, OtString (he_client event)),
     (AttributeProtocol, OtString (he_protocol event)),
     (AttributeHealthState, OtString (health_state_string (he_state event)))]"

definition recordHealth :: "OtelObserver \<Rightarrow> attribute list HealthEvent \<Rightarrow> otel_effect list" where
  "recordHealth o' event =
     (let attributes = metricAttributes o' (he_attributes event)
            [health_identity event, failureClassAttributes (he_failure event)]
      in [CounterAdded ''clientkit.health.checks'' attributes] @
         record_duration ''clientkit.health.duration'' (he_duration event) attributes)"

section \<open>The callbacks\<close>

record otel_observation =
  ob_done :: bool
  ob_observer :: OtelObserver

text \<open>A nil observer does nothing and hands out the no-op observation, None.\<close>

definition otel_StartOperation ::
  "OtelObserver option \<Rightarrow> attribute list OperationStartEvent \<Rightarrow> otel_effect list \<times> otel_observation option" where
  "otel_StartOperation o' event = (case o' of None \<Rightarrow> ([], None) | Some o' \<Rightarrow>
     ([SpanStarted (operationSpanName (os_protocol event) (os_operation event)) (operationSpanKind (os_kind event))
         (spanAttributes o' (os_attributes event)
            [identityAttributes (os_client event) (os_protocol event) (os_operation event)])
         (timestamp (os_started_at event))],
      Some \<lparr>ob_done = False, ob_observer = o'\<rparr>))"

definition otel_ObserveAttempt :: "OtelObserver option \<Rightarrow> attribute list AttemptEvent \<Rightarrow> otel_effect list" where
  "otel_ObserveAttempt o' event = (case o' of None \<Rightarrow> [] | Some o' \<Rightarrow>
     [SpanEventAdded ''clientkit.attempt''
        (spanAttributes o' (ae_attributes event)
           [identityAttributes (ae_client event) (ae_protocol event) (ae_operation event),
            [(AttributeAttemptNumber, OtInt (ae_number event)), (AttributeOutcome, OtString (ae_outcome event)),
             (AttributeSucceeded, OtBool (ot_attemptSucceeded event))],
            failureClassAttributes (ae_failure event)])
        (timestamp (ae_ended_at event))] @ recordAttempt o' event)"

definition otel_ObserveRetry :: "OtelObserver option \<Rightarrow> attribute list RetryEvent \<Rightarrow> otel_effect list" where
  "otel_ObserveRetry o' event = (case o' of None \<Rightarrow> [] | Some o' \<Rightarrow>
     [SpanEventAdded ''clientkit.retry''
        (spanAttributes o' (re_attributes event)
           [identityAttributes (re_client event) (re_protocol event) (re_operation event),
            [(AttributeRetryAfterAttempt, OtInt (re_after_attempt event)), (AttributeRetryCause, OtString (re_cause event)),
             (AttributeRetryDelay, OtFloat (duration_seconds (re_delay event)))],
            failureClassAttributes (re_failure event)])
        (timestamp (re_at event))] @ recordRetry o' event)"

text \<open>\<open>recording\<close> is what the span of the context answers to \<open>IsRecording\<close>.\<close>

definition otel_ObserveHealth ::
  "OtelObserver option \<Rightarrow> bool \<Rightarrow> attribute list HealthEvent \<Rightarrow> otel_effect list" where
  "otel_ObserveHealth o' recording event = (case o' of None \<Rightarrow> [] | Some o' \<Rightarrow>
     (if recording
      then [SpanEventAdded ''clientkit.health''
        (spanAttributes o' (he_attributes event) [health_identity event, failureClassAttributes (he_failure event)])
        (timestamp (he_checked_at event))]
      else []) @ recordHealth o' event)"

definition setOperationStatus :: "attribute list OperationEndEvent \<Rightarrow> otel_effect" where
  "setOperationStatus event =
     (if ot_operationSucceeded event then SpanStatusOk
      else if oe_outcome event \<noteq> '''' then SpanStatusError (oe_outcome event)
      else SpanStatusError ''operation_failed'')"

definition end_attributes :: "OtelObserver \<Rightarrow> attribute list OperationEndEvent \<Rightarrow> ot_attr list" where
  "end_attributes o' event =
     (let attributes = spanAttributes o' (oe_attributes event)
            [identityAttributes (oe_client event) (oe_protocol event) (oe_operation event),
             [(AttributeOutcome, OtString (oe_outcome event)), (AttributeSucceeded, OtBool (ot_operationSucceeded event))],
             failureClassAttributes (oe_failure event)]
      in if oe_attempts event > 0
         then ot_mergeAttributes [attributes, [(AttributeOperationAttempts, OtInt (oe_attempts event))]]
         else attributes)"

definition otel_End ::
  "otel_observation \<Rightarrow> attribute list OperationEndEvent \<Rightarrow> otel_effect list \<times> otel_observation" where
  "otel_End ob event =
     (if ob_done ob then ([], ob)
      else ([SpanAttributesSet (end_attributes (ob_observer ob) event)] @
            (case oe_err event of
               Some e \<Rightarrow> if ot_error_details (ob_observer ob) then [SpanErrorRecorded e (timestamp (oe_ended_at event))] else []
             | None \<Rightarrow> []) @
            [setOperationStatus event] @ recordOperation (ob_observer ob) event @
            [SpanEnded (timestamp (oe_ended_at event))],
            ob\<lparr>ob_done := True\<rparr>))"

section \<open>What telemetry carries\<close>

interpretation ot_merge: ordered_merge fst ot_blank "\<lambda>xs. ot_mergeAttributes [xs]"
  by unfold_locales (simp add: ot_mergeAttributes_def merge_loop_reference)

lemma merge_groups: "ot_mergeAttributes groups = ot_mergeAttributes [concat groups]"
  by (simp add: ot_mergeAttributes_def)

text \<open>The names of the adapter are not blank.\<close>

lemma names_not_blank [simp]:
  "TrimSpace AttributeClientName \<noteq> ''''" "TrimSpace AttributeProtocol \<noteq> ''''"
  "TrimSpace AttributeOperation \<noteq> ''''" "TrimSpace AttributeFailureClass \<noteq> ''''"
  by (simp_all add: attribute_names TrimSpace_plain plain_byte_def is_space_def)

lemma find_key_None: "find (\<lambda>a. fst a = k) xs = None \<longleftrightarrow> k \<notin> fst ` set xs"
  by (force simp: find_None_iff)

abbreviation attr_at :: "string \<Rightarrow> ot_attr list \<Rightarrow> ot_attr option" where
  "attr_at k xs \<equiv> find (\<lambda>a. fst a = k) xs"

lemma attr_merge:
  "attr_at k (ot_mergeAttributes groups) = attr_at k (rev (filter (\<lambda>a. \<not> ot_blank a) (concat groups)))"
  by (subst merge_groups) (rule ot_merge.merge_find)

text \<open>The last entry with a name that is not blank decides.\<close>

lemma attr_merge_last:
  assumes "k \<notin> fst ` set ys" "TrimSpace k \<noteq> ''''"
  shows "attr_at k (ot_mergeAttributes [xs @ (k, v) # ys]) = Some (k, v)"
proof -
  have "attr_at k (rev (filter (\<lambda>a. \<not> ot_blank a) ys)) = None"
    using assms(1) by (auto simp: find_key_None)
  then show ?thesis using assms(2) by (simp add: attr_merge find_append ot_blank_def)
qed

lemma attr_merge_absent:
  "k \<notin> fst ` set (concat groups) \<Longrightarrow> attr_at k (ot_mergeAttributes groups) = None"
  by (auto simp: attr_merge find_key_None)

lemma failure_class_free:
  "AttributeFailureClass \<notin> fst ` set (withoutFailureClass xs)"
  "AttributeFailureClass \<notin> fst ` set (convertAttributes ys)"
proof -
  show "AttributeFailureClass \<notin> fst ` set (withoutFailureClass xs)" by (auto simp: withoutFailureClass_def)
  show "AttributeFailureClass \<notin> fst ` set (convertAttributes ys)"
    by (induction ys) (auto simp: convertAttributes_def List.map_filter_simps split: option.splits if_splits)
qed

definition otel_ok :: "OtelObserver \<Rightarrow> bool" where
  "otel_ok o' \<longleftrightarrow> AttributeFailureClass \<notin> fst ` set (ot_span_attributes o') \<and>
     AttributeFailureClass \<notin> fst ` set (ot_metric_attributes o')"

lemma otel_New_ok: "otel_New gt gm create options = Inr o' \<Longrightarrow> otel_ok o'"
  by (auto simp: otel_New_def otel_ok_def Let_def withoutFailureClass_def split: option.splits)

text \<open>The failure class of an emission is the event's: neither configured attributes nor attributes of
  the event can set it, replace it or hide it.\<close>

lemma failure_class_decided:
  assumes "AttributeFailureClass \<notin> fst ` set (concat groups)"
  shows "attr_at AttributeFailureClass (ot_mergeAttributes (groups @ [failureClassAttributes c])) =
     (if c = FailureNone then None else Some (AttributeFailureClass, OtString (failure_string c)))"
proof (cases "c = FailureNone")
  case True
  have "ot_mergeAttributes (groups @ [[]]) = ot_mergeAttributes groups"
    by (simp add: ot_mergeAttributes_def)
  with True attr_merge_absent [OF assms] show ?thesis by (simp add: failureClassAttributes_def)
next
  case False
  then show ?thesis
    using attr_merge_last [of AttributeFailureClass "[]" "concat groups"]
    by (subst merge_groups) (simp add: failureClassAttributes_def)
qed

lemma adapter_names_distinct:
  "AttributeFailureClass \<notin> {AttributeClientName, AttributeProtocol, AttributeOperation, AttributeOutcome,
     AttributeSucceeded, AttributeAttemptNumber, AttributeRetryAfterAttempt, AttributeRetryCause,
     AttributeRetryDelay, AttributeHealthState, AttributeOperationAttempts}"
  by (simp add: attribute_names)

text \<open>The attributes of an emission.\<close>

fun emitted :: "otel_effect \<Rightarrow> ot_attr list option" where
  "emitted (SpanStarted _ _ attrs _) = Some attrs"
| "emitted (SpanEventAdded _ attrs _) = Some attrs"
| "emitted (SpanAttributesSet attrs) = Some attrs"
| "emitted (CounterAdded _ attrs) = Some attrs"
| "emitted (FloatRecorded _ _ attrs) = Some attrs"
| "emitted (IntRecorded _ _ attrs) = Some attrs"
| "emitted _ = None"

definition all_emitted :: "(ot_attr list \<Rightarrow> bool) \<Rightarrow> otel_effect list \<Rightarrow> bool" where
  "all_emitted P fx \<longleftrightarrow> list_all (\<lambda>e. case emitted e of None \<Rightarrow> True | Some attrs \<Rightarrow> P attrs) fx"

lemma all_emitted_simps [simp]:
  "all_emitted P []" "all_emitted P (xs @ ys) \<longleftrightarrow> all_emitted P xs \<and> all_emitted P ys"
  "all_emitted P (e # xs) \<longleftrightarrow> (case emitted e of None \<Rightarrow> True | Some attrs \<Rightarrow> P attrs) \<and> all_emitted P xs"
  by (simp_all add: all_emitted_def)

lemma record_duration_emitted [simp]: "all_emitted P (record_duration n d attrs) \<longleftrightarrow> (0 \<le> d \<longrightarrow> P attrs)"
  by (simp add: record_duration_def)

definition class_is :: "FailureClass \<Rightarrow> ot_attr list \<Rightarrow> bool" where
  "class_is c attrs \<longleftrightarrow> attr_at AttributeFailureClass attrs =
     (if c = FailureNone then None else Some (AttributeFailureClass, OtString (failure_string c)))"

lemma adapter_class:
  assumes "otel_ok o'" "AttributeFailureClass \<notin> fst ` set (concat groups)"
  shows "class_is c (spanAttributes o' event (groups @ [failureClassAttributes c]))"
    and "class_is c (metricAttributes o' event (groups @ [failureClassAttributes c]))"
proof -
  have "AttributeFailureClass \<notin> fst ` set (concat ([xs, convertAttributes event] @ groups))"
    if "AttributeFailureClass \<notin> fst ` set xs" for xs
    using that assms(2) failure_class_free(2) [of event] by (auto simp: image_Un)
  note d = failure_class_decided [OF this, of _ c]
  show "class_is c (spanAttributes o' event (groups @ [failureClassAttributes c]))"
    and "class_is c (metricAttributes o' event (groups @ [failureClassAttributes c]))"
    using d assms(1) unfolding class_is_def spanAttributes_def metricAttributes_def otel_ok_def append_assoc by blast+
qed

lemma callbacks_class:
  assumes "otel_ok o'"
  shows "all_emitted (class_is (ae_failure a)) (otel_ObserveAttempt (Some o') a)"
    and "all_emitted (class_is (re_failure r)) (otel_ObserveRetry (Some o') r)"
    and "all_emitted (class_is (he_failure h)) (otel_ObserveHealth (Some o') recording h)"
  using adapter_class [OF assms, of "[g1, g2]" for g1 g2] adapter_class [OF assms, of "[g]" for g]
  by (simp_all add: otel_ObserveAttempt_def otel_ObserveRetry_def otel_ObserveHealth_def recordAttempt_def
      recordRetry_def recordHealth_def Let_def identityAttributes_def health_identity_def attribute_names)

lemma end_class:
  assumes "otel_ok o'"
  shows "class_is (oe_failure e) (end_attributes o' e)"
proof -
  let ?a = "spanAttributes o' (oe_attributes e)
     [identityAttributes (oe_client e) (oe_protocol e) (oe_operation e),
      [(AttributeOutcome, OtString (oe_outcome e)), (AttributeSucceeded, OtBool (ot_operationSucceeded e))],
      failureClassAttributes (oe_failure e)]"
  have a: "class_is (oe_failure e) ?a"
    using adapter_class(1) [OF assms, of "[g1, g2]" for g1 g2] by (simp add: identityAttributes_def attribute_names)
  have "attr_at AttributeFailureClass (ot_mergeAttributes [?a, [(AttributeOperationAttempts, v)]]) =
      attr_at AttributeFailureClass (ot_mergeAttributes [?a])" for v
    using ot_merge.merge_later [of AttributeFailureClass ?a "[(AttributeOperationAttempts, v)]"]
      attr_merge_absent [of AttributeFailureClass "[[(AttributeOperationAttempts, v)]]"]
    by (subst merge_groups) (simp add: attribute_names)
  moreover have "ot_mergeAttributes [?a] = ?a"
    using ot_merge.merge_idem by (simp add: spanAttributes_def merge_groups [of "_ # _ # _"])
  ultimately have "attr_at AttributeFailureClass (end_attributes o' e) = attr_at AttributeFailureClass ?a"
    by (simp add: end_attributes_def Let_def)
  with a show ?thesis unfolding class_is_def by simp
qed

lemma otel_End_class:
  assumes "otel_ok (ob_observer ob)"
  shows "all_emitted (class_is (oe_failure e)) (fst (otel_End ob e))"
  using adapter_class(2) [OF assms, of "[g1, g2]" for g1 g2] end_class [OF assms, of e]
  by (simp add: otel_End_def recordOperation_def Let_def setOperationStatus_def identityAttributes_def
      attribute_names split: option.split)

text \<open>The identity of an emission is the event's as well.\<close>

lemma identity_decided:
  assumes "a \<in> set (identityAttributes c p op)" "fst a \<notin> fst ` set (concat later)"
  shows "attr_at (fst a) (ot_mergeAttributes (earlier @ [identityAttributes c p op] @ later)) = Some a"
proof -
  let ?ys = "identityAttributes c p op @ concat later"
  have d: "distinct (map fst (identityAttributes c p op))" by (simp add: identityAttributes_def attribute_names)
  have nb: "\<not> ot_blank a" using assms(1) by (auto simp: identityAttributes_def ot_blank_def)
  have "attr_at (fst a) (ot_mergeAttributes [concat earlier @ identityAttributes c p op]) = Some a"
    by (rule ot_merge.merge_later_wins [OF d assms(1) nb])
  then show ?thesis
    using ot_merge.merge_later [of "fst a" "concat earlier @ identityAttributes c p op" "concat later"]
      attr_merge_absent [of "fst a" "[concat later]"] assms(2)
    by (subst merge_groups) simp
qed

text \<open>One span per operation: it is ended by the first end and by no other.\<close>

lemma otel_End_once: "fst (otel_End (snd (otel_End ob e)) e') = []"
  by (simp add: otel_End_def)

lemma otel_End_ends:
  "\<not> ob_done ob \<Longrightarrow> \<exists>fx t. fst (otel_End ob e) = fx @ [SpanEnded t] \<and> (\<forall>u. SpanEnded u \<notin> set fx)"
  by (auto simp: otel_End_def recordOperation_def record_duration_def setOperationStatus_def Let_def
      split: option.split)

end
