(* ===== verification/Http_Otel.thy ===== *)
theory Http_Otel
  imports Http_Policy Otel_Observer "HOL-Library.Word"
begin

text \<open>
  \<open>internal/httpotel\<close> and \<open>httpclient/otel\<close>: the instrumentation of one HTTP round trip and the
  per-operation metadata a context carries. The counters of resends, which the contexts of one operation
  share, are an explicit store. The names of the OpenTelemetry conventions and \<open>URL.String\<close> are parameters.
\<close>

section \<open>Metadata of an operation\<close>

text \<open>\<open>st_cell\<close> is the address of the shared \<open>atomic.Int64\<close>.\<close>

record operationState =
  st_client :: string
  st_operation :: string
  st_cell :: nat

record operationMetadata =
  om_state :: "operationState option"
  om_attempt :: int

type_synonym resend_counts = "nat \<Rightarrow> 64 word"

definition no_operation :: operationMetadata where
  "no_operation = \<lparr>om_state = None, om_attempt = 0\<rparr>"

text \<open>The value of the context key, None when it is not set. \<open>cell\<close> is fresh.\<close>

definition metadataFromContext :: "operationMetadata option \<Rightarrow> operationMetadata" where
  "metadataFromContext v = (case v of None \<Rightarrow> no_operation | Some m \<Rightarrow> m)"

definition WithOperation ::
  "nat \<Rightarrow> string \<Rightarrow> string \<Rightarrow> resend_counts \<Rightarrow> operationMetadata option \<times> resend_counts" where
  "WithOperation cell client operation counts =
     (Some \<lparr>om_state = Some \<lparr>st_client = client, st_operation = operation, st_cell = cell\<rparr>, om_attempt = 0\<rparr>,
      counts(cell := 0))"

definition WithExecutionAttempt :: "operationMetadata option \<Rightarrow> int \<Rightarrow> operationMetadata option" where
  "WithExecutionAttempt v attempt = Some ((metadataFromContext v)\<lparr>om_attempt := attempt\<rparr>)"

definition nextResendCount :: "operationMetadata \<Rightarrow> resend_counts \<Rightarrow> int \<times> resend_counts" where
  "nextResendCount m counts = (case om_state m of
     None \<Rightarrow> (0, counts)
   | Some state \<Rightarrow>
       (let added = counts (st_cell state) + 1
        in (sint (added - 1), counts(st_cell state := added))))"

section \<open>Names\<close>

datatype RequestMethodAttr =
    RequestMethodConnect | RequestMethodDelete | RequestMethodGet | RequestMethodHead | RequestMethodOptions
  | RequestMethodPatch | RequestMethodPost | RequestMethodPut | RequestMethodTrace | RequestMethodQuery
  | RequestMethodOther

record semconv =
  sv_method_name :: "RequestMethodAttr \<Rightarrow> string"
  sv_method :: string
  sv_method_original :: string
  sv_resend_count :: string
  sv_server_address :: string
  sv_server_port :: string
  sv_url_full :: string
  sv_status_code :: string
  sv_protocol_version :: string
  sv_error_type :: string

definition knownMethod :: "string \<Rightarrow> RequestMethodAttr \<times> bool" where
  "knownMethod method' =
     (let m = (if method' = '''' then ''GET'' else method')
      in if m = ''CONNECT'' then (RequestMethodConnect, True)
         else if m = ''DELETE'' then (RequestMethodDelete, True)
         else if m = ''GET'' then (RequestMethodGet, True)
         else if m = ''HEAD'' then (RequestMethodHead, True)
         else if m = ''OPTIONS'' then (RequestMethodOptions, True)
         else if m = ''PATCH'' then (RequestMethodPatch, True)
         else if m = ''POST'' then (RequestMethodPost, True)
         else if m = ''PUT'' then (RequestMethodPut, True)
         else if m = ''TRACE'' then (RequestMethodTrace, True)
         else if m = ''QUERY'' then (RequestMethodQuery, True)
         else (RequestMethodOther, False))"

definition spanName :: "semconv \<Rightarrow> RequestMethodAttr \<Rightarrow> bool \<Rightarrow> string" where
  "spanName sv m known = (if \<not> known then ''HTTP'' else sv_method_name sv m)"

definition protocolVersion :: "Response option \<Rightarrow> string" where
  "protocolVersion response = (case response of
     None \<Rightarrow> ''''
   | Some r \<Rightarrow>
       if rs_proto_major r = 1 \<and> rs_proto_minor r = 0 then ''1.0''
       else if rs_proto_major r = 1 \<and> rs_proto_minor r = 1 then ''1.1''
       else if rs_proto_major r = 2 then ''2''
       else if rs_proto_major r = 3 then ''3''
       else '''')"

text \<open>\<open>strconv.Itoa\<close>, and the number \<open>strconv.Atoi\<close> returns whether or not it also returns an error.\<close>

fun decimal_string :: "nat \<Rightarrow> string" where
  "decimal_string n =
     (if n < 10 then [byte_char (48 + n)] else decimal_string (n div 10) @ [byte_char (48 + n mod 10)])"

definition Itoa :: "int \<Rightarrow> string" where
  "Itoa n = (if n < 0 then CHR ''-'' # decimal_string (nat (- n)) else decimal_string (nat n))"

definition atoi_number :: "string \<Rightarrow> int" where
  "atoi_number s = (case Atoi s of
     Some n \<Rightarrow> n
   | None \<Rightarrow> if s \<noteq> [] \<and> list_all digit_byte s then 2 ^ 63 - 1 else 0)"

section \<open>The target of a request\<close>

definition serverAddressPort :: "(rune \<Rightarrow> rune) \<Rightarrow> Request \<Rightarrow> string \<times> int" where
  "serverAddressPort ext request = (case rq_url request of
     None \<Rightarrow> ('''', 0)
   | Some u \<Rightarrow>
       (let authority = (if rq_host request \<noteq> '''' then rq_host request else u_host u);
            (address, port) = split_host_port authority;
            port = atoi_number port
        in (address,
            if port = 0
            then (if to_lower ext (u_scheme u) = ''http'' then 80
                  else if to_lower ext (u_scheme u) = ''https'' then 443 else port)
            else port)))"

definition sanitizedURL :: "(URL \<Rightarrow> string) \<Rightarrow> Request \<Rightarrow> string" where
  "sanitizedURL url_to_string request = (case rq_url request of
     None \<Rightarrow> ''''
   | Some u \<Rightarrow>
       if u_opaque u \<noteq> '''' then ''''
       else url_to_string (u\<lparr>u_user := None, u_fragment := '''', u_raw_fragment := '''', u_raw_query := '''',
         u_force_query := False\<rparr>))"

definition requestTargetSpanAttributes ::
  "semconv \<Rightarrow> (rune \<Rightarrow> rune) \<Rightarrow> (URL \<Rightarrow> string) \<Rightarrow> Request \<Rightarrow> ot_attr list" where
  "requestTargetSpanAttributes sv ext url_to_string request =
     (let (address, port) = serverAddressPort ext request; full = sanitizedURL url_to_string request
      in (if address \<noteq> '''' then [(sv_server_address sv, OtString address)] else []) @
         (if port > 0 then [(sv_server_port sv, OtInt port)] else []) @
         (if full \<noteq> '''' then [(sv_url_full sv, OtString full)] else []))"

section \<open>The outcome of a round trip\<close>

definition httpErrorType :: "Response option \<Rightarrow> goerr option \<Rightarrow> string" where
  "httpErrorType response err =
     (if errors_is err ContextCanceled then ''canceled''
      else if errors_is err ContextDeadlineExceeded then ''timeout''
      else if \<not> is_nil err then
        (if net_timeout err then ''timeout''
         else if as_dns err \<noteq> None then ''dns_error''
         else if errors_is err TlsCertificateVerificationError then ''tls_error''
         else if errors_is err IoEOF \<or> errors_is err NetErrClosed then ''connection_closed''
         else ''_OTHER'')
      else (case response of
        Some r \<Rightarrow> if rs_status r \<ge> 400 then Itoa (rs_status r) else ''''
      | None \<Rightarrow> ''''))"

definition response_fields :: "semconv \<Rightarrow> Response option \<Rightarrow> ot_attr list" where
  "response_fields sv response = (case response of
     None \<Rightarrow> []
   | Some r \<Rightarrow> [(sv_status_code sv, OtInt (rs_status r))] @
       (if protocolVersion response \<noteq> '''' then [(sv_protocol_version sv, OtString (protocolVersion response))] else []))"

definition error_fields :: "semconv \<Rightarrow> string \<Rightarrow> ot_attr list" where
  "error_fields sv errorType = (if errorType \<noteq> '''' then [(sv_error_type sv, OtString errorType)] else [])"

definition responseAttributes ::
  "semconv \<Rightarrow> Response option \<Rightarrow> goerr option \<Rightarrow> ot_attr list \<times> string \<times> bool" where
  "responseAttributes sv response err =
     (let errorType = httpErrorType response err
      in (response_fields sv response @ error_fields sv errorType, errorType, errorType \<noteq> ''''))"

section \<open>The transport\<close>

text \<open>
  \<open>ho_base\<close> is the wrapped transport, \<open>ho_inject\<close> the injection into the headers of the attempt; tracer and
  meter are known by their provider and version.
\<close>

type_synonym injection = "header option \<Rightarrow> header option \<times> unit call"

record HttpOtelConfig =
  hx_tracer_provider :: "nat option"
  hx_meter_provider :: "nat option"
  hx_version :: string
  hx_inject :: "injection option"
  hx_span_attributes :: "ot_attr list"
  hx_metric_attributes :: "ot_attr list"
  hx_request_targets :: bool
  hx_standard_metrics :: bool

record HttpOtelTransport =
  ho_base :: "transport option"
  ho_tracer :: "nat \<times> string"
  ho_inject :: "injection option"
  ho_span_attributes :: "ot_attr list"
  ho_metric_attributes :: "ot_attr list"
  ho_request_targets :: bool
  ho_duration :: "(nat \<times> string) option"
  ho_standard_metrics :: bool

definition InstrumentationScope :: string where
  "InstrumentationScope = ''github.com/jaredjakacky/clientkit/httpclient/otel''"

text \<open>\<open>create_histogram\<close> is what the meter answers to the creation of the duration histogram.\<close>

definition NewTransport ::
  "nat \<Rightarrow> nat \<Rightarrow> (nat \<times> string \<Rightarrow> goerr option) \<Rightarrow> transport option \<Rightarrow> HttpOtelConfig
   \<Rightarrow> (goerr, HttpOtelTransport) result" where
  "NewTransport global_tracer global_meter create_histogram base cfg =
     (let tracer = (case hx_tracer_provider cfg of None \<Rightarrow> global_tracer | Some p \<Rightarrow> p, hx_version cfg);
          meter = (case hx_meter_provider cfg of None \<Rightarrow> global_meter | Some p \<Rightarrow> p, hx_version cfg);
          transport = \<lparr>ho_base = Some (case base of None \<Rightarrow> DefaultTransport | Some b \<Rightarrow> b), ho_tracer = tracer,
            ho_inject = hx_inject cfg, ho_span_attributes = hx_span_attributes cfg,
            ho_metric_attributes = hx_metric_attributes cfg, ho_request_targets = hx_request_targets cfg,
            ho_duration = None, ho_standard_metrics = hx_standard_metrics cfg\<rparr>
      in if \<not> hx_standard_metrics cfg then Inr transport
         else (case create_histogram meter of
           Some e \<Rightarrow> Inl e
         | None \<Rightarrow> Inr (transport\<lparr>ho_duration := Some meter\<rparr>)))"

definition injectSafely :: "injection option \<Rightarrow> header option \<Rightarrow> header option" where
  "injectSafely inject headers = (case inject of
     None \<Rightarrow> headers
   | Some f \<Rightarrow>
       if is_nil headers then headers
       else (case f headers of
         (headers', Returned _) \<Rightarrow> headers'
       | (headers', Panicked) \<Rightarrow> restoreHeaders headers' headers))"

definition http_mergeAttributes :: "ot_attr list \<Rightarrow> ot_attr list" where
  "http_mergeAttributes attributes = merge_loop fst ot_blank [] Map.empty attributes"

text \<open>The calls a round trip makes: to the SDK, to the histogram, and those of any round tripper.\<close>

datatype trip_effect =
    Otel otel_effect
  | DurationRecorded float64 RequestMethodAttr string int "ot_attr list"
  | Http rt_effect

record trip_code =
  tq_semconv :: semconv
  tq_ext :: "rune \<Rightarrow> rune"
  tq_url_string :: "URL \<Rightarrow> string"

definition start_attributes ::
  "trip_code \<Rightarrow> HttpOtelTransport \<Rightarrow> operationMetadata \<Rightarrow> int \<Rightarrow> Request \<Rightarrow> ot_attr list" where
  "start_attributes code t metadata resendCount request =
     (let sv = tq_semconv code; (m, known) = knownMethod (rq_method request);
          attributes = ho_span_attributes t @
            [(sv_method sv, OtString (sv_method_name sv m)), (AttributeProtocol, OtString ''http'')];
          attributes = (if \<not> known \<and> rq_method request \<noteq> ''''
                        then attributes @ [(sv_method_original sv, OtString (rq_method request))] else attributes);
          attributes = (case om_state metadata of None \<Rightarrow> attributes
            | Some s \<Rightarrow> attributes @ [(AttributeClientName, OtString (st_client s)),
                (AttributeOperation, OtString (st_operation s))]);
          attributes = (if om_attempt metadata > 0
                        then attributes @ [(AttributeAttemptNumber, OtInt (om_attempt metadata))] else attributes);
          attributes = (if resendCount > 0 then attributes @ [(sv_resend_count sv, OtInt resendCount)] else attributes);
          attributes = (if ho_request_targets t
                        then attributes @ requestTargetSpanAttributes sv (tq_ext code) (tq_url_string code) request
                        else attributes)
      in http_mergeAttributes attributes)"

definition recordDuration ::
  "trip_code \<Rightarrow> HttpOtelTransport \<Rightarrow> Request \<Rightarrow> Response option \<Rightarrow> RequestMethodAttr \<Rightarrow> string \<Rightarrow> duration
   \<Rightarrow> operationMetadata \<Rightarrow> trip_effect" where
  "recordDuration code t request response m errorType d metadata =
     (let sv = tq_semconv code; (address, port) = serverAddressPort (tq_ext code) request;
          attributes = ho_metric_attributes t;
          attributes = (case om_state metadata of None \<Rightarrow> attributes
            | Some s \<Rightarrow> attributes @ [(AttributeClientName, OtString (st_client s)),
                (AttributeProtocol, OtString ''http''), (AttributeOperation, OtString (st_operation s))]);
          attributes = attributes @ response_fields sv response @ error_fields sv errorType
      in DurationRecorded (duration_seconds d) m address port (http_mergeAttributes attributes))"

text \<open>What the wrapped transport does to the attempt with these headers.\<close>

definition base_trip ::
  "rt_env \<Rightarrow> Request \<Rightarrow> header option \<Rightarrow> (Response option \<times> goerr option) \<times> rt_effect list" where
  "base_trip env request headers =
     (case rt_ctx env of
        Some e \<Rightarrow> ((None, Some (err_of_ctx e)), map CloseBody (closeRequestBody (Some request)))
      | None \<Rightarrow>
          (case rt_ctx_after env of
             Some e \<Rightarrow> ((None, Some (err_of_ctx e)), [BaseRoundTrip headers] @ closeResponse (rt_response env))
           | None \<Rightarrow>
               if \<not> is_nil (rt_response env) \<and> \<not> is_nil (rt_err env)
               then ((None, rt_err env), [BaseRoundTrip headers] @ closeResponse (rt_response env))
               else ((rt_response env, rt_err env), [BaseRoundTrip headers])))"

definition hotel_RoundTrip ::
  "trip_code \<Rightarrow> HttpOtelTransport option \<Rightarrow> operationMetadata option \<Rightarrow> gotime \<Rightarrow> gotime \<Rightarrow> rt_env \<Rightarrow> Request option
   \<Rightarrow> resend_counts \<Rightarrow> ((Response option \<times> goerr option) \<times> trip_effect list) \<times> resend_counts" where
  "hotel_RoundTrip code t ctx startedAt endedAt env request counts =
     (case (case t of None \<Rightarrow> None | Some t \<Rightarrow> if is_nil (ho_base t) then None else Some t) of
        None \<Rightarrow> (((None, Some (errors_new ''clientkit: HTTP telemetry transport is not configured'')), []), counts)
      | Some t \<Rightarrow> (case request of
          None \<Rightarrow> (((None, Some (errors_new ''clientkit: HTTP telemetry transport requires a request'')), []), counts)
        | Some rq \<Rightarrow>
            (let metadata = metadataFromContext ctx;
                 (resendCount, counts) = nextResendCount metadata counts;
                 (m, known) = knownMethod (rq_method rq);
                 start = SpanStarted (spanName (tq_semconv code) m known) SpanKindClient
                   (start_attributes code t metadata resendCount rq) (Some startedAt);
                 headers = injectSafely (ho_inject t)
                   (Some (case rq_header rq of None \<Rightarrow> [] | Some h \<Rightarrow> h));
                 ((response, err), effects) = base_trip env rq headers;
                 err = (if is_nil response \<and> is_nil err then Some errHTTPTransportNoResponse else err);
                 (endAttributes, errorType, failed) = responseAttributes (tq_semconv code) response err
             in (((response, err),
                  [Otel start] @ map Http effects @ [Otel (SpanAttributesSet endAttributes)] @
                  (if failed then [Otel (SpanStatusError '''')] else []) @
                  (if ho_standard_metrics t
                   then [recordDuration code t rq response m errorType (time_sub endedAt startedAt) metadata] else []) @
                  [Otel (SpanEnded (Some endedAt))]), counts))))"

text \<open>Whether the cleanup is forwarded, given which transports have the optional method.\<close>

definition hotel_CloseIdleConnections :: "(transport \<Rightarrow> bool) \<Rightarrow> HttpOtelTransport option \<Rightarrow> transport list" where
  "hotel_CloseIdleConnections can_close t = (case t of None \<Rightarrow> [] | Some t \<Rightarrow> (case ho_base t of
     None \<Rightarrow> [] | Some b \<Rightarrow> if can_close b then [b] else []))"

section \<open>The public transport and propagator\<close>

definition textMapInjection :: "header_code \<Rightarrow> nat option \<Rightarrow> injection" where
  "textMapInjection u propagator headers =
     (if is_nil propagator \<or> is_nil headers then (headers, Returned ())
      else user_inject u (the propagator) headers)"

datatype hotel_option =
    WithTextMapPropagator "nat option"
  | WithHttpTracerProvider "nat option"
  | WithHttpMeterProvider "nat option"
  | WithHttpInstrumentationVersion string
  | WithHttpSpanAttributes "ot_attr list"
  | WithHttpMetricAttributes "ot_attr list"
  | WithRequestTargetAttributes
  | WithStandardClientMetrics

record hotel_config =
  hp_propagator :: "nat option"
  hp_config :: HttpOtelConfig

fun apply_hotel_option :: "hotel_option \<Rightarrow> hotel_config \<Rightarrow> hotel_config" where
  "apply_hotel_option (WithTextMapPropagator p) cfg = cfg\<lparr>hp_propagator := p\<rparr>"
| "apply_hotel_option (WithHttpTracerProvider p) cfg = cfg\<lparr>hp_config := (hp_config cfg)\<lparr>hx_tracer_provider := p\<rparr>\<rparr>"
| "apply_hotel_option (WithHttpMeterProvider p) cfg = cfg\<lparr>hp_config := (hp_config cfg)\<lparr>hx_meter_provider := p\<rparr>\<rparr>"
| "apply_hotel_option (WithHttpInstrumentationVersion v) cfg = cfg\<lparr>hp_config := (hp_config cfg)\<lparr>hx_version := v\<rparr>\<rparr>"
| "apply_hotel_option (WithHttpSpanAttributes xs) cfg =
     cfg\<lparr>hp_config := (hp_config cfg)\<lparr>hx_span_attributes := hx_span_attributes (hp_config cfg) @ xs\<rparr>\<rparr>"
| "apply_hotel_option (WithHttpMetricAttributes xs) cfg =
     cfg\<lparr>hp_config := (hp_config cfg)\<lparr>hx_metric_attributes := hx_metric_attributes (hp_config cfg) @ xs\<rparr>\<rparr>"
| "apply_hotel_option WithRequestTargetAttributes cfg = cfg\<lparr>hp_config := (hp_config cfg)\<lparr>hx_request_targets := True\<rparr>\<rparr>"
| "apply_hotel_option WithStandardClientMetrics cfg = cfg\<lparr>hp_config := (hp_config cfg)\<lparr>hx_standard_metrics := True\<rparr>\<rparr>"

text \<open>\<open>global_propagator\<close> is what \<open>otel.GetTextMapPropagator()\<close> returns.\<close>

definition public_NewTransport ::
  "header_code \<Rightarrow> nat \<Rightarrow> nat \<Rightarrow> nat option \<Rightarrow> (nat \<times> string \<Rightarrow> goerr option) \<Rightarrow> transport option
   \<Rightarrow> hotel_option option list \<Rightarrow> (goerr, HttpOtelTransport) result" where
  "public_NewTransport u global_tracer global_meter global_propagator create_histogram base options =
     (let cfg = foldl (\<lambda>cfg option. case option of None \<Rightarrow> cfg | Some f \<Rightarrow> apply_hotel_option f cfg)
            \<lparr>hp_propagator = None,
             hp_config = \<lparr>hx_tracer_provider = None, hx_meter_provider = None, hx_version = '''', hx_inject = None,
               hx_span_attributes = [], hx_metric_attributes = [], hx_request_targets = False,
               hx_standard_metrics = False\<rparr>\<rparr> options;
          propagator = (case hp_propagator cfg of None \<Rightarrow> global_propagator | Some p \<Rightarrow> Some p)
      in NewTransport global_tracer global_meter create_histogram base
           ((hp_config cfg)\<lparr>hx_inject := Some (textMapInjection u propagator)\<rparr>))"

text \<open>The public transport; a nil one is None, a zero one has no inner transport.\<close>

definition public_RoundTrip ::
  "trip_code \<Rightarrow> HttpOtelTransport option option \<Rightarrow> operationMetadata option \<Rightarrow> gotime \<Rightarrow> gotime \<Rightarrow> rt_env
   \<Rightarrow> Request option \<Rightarrow> resend_counts \<Rightarrow> ((Response option \<times> goerr option) \<times> trip_effect list) \<times> resend_counts" where
  "public_RoundTrip code t ctx startedAt endedAt env request counts = (case t of
     Some (Some inner) \<Rightarrow> hotel_RoundTrip code (Some inner) ctx startedAt endedAt env request counts
   | _ \<Rightarrow> (((None, Some (errors_new ''clientkit: HTTP telemetry transport is not configured'')), []), counts))"

definition public_CloseIdleConnections :: "(transport \<Rightarrow> bool) \<Rightarrow> HttpOtelTransport option option \<Rightarrow> transport list" where
  "public_CloseIdleConnections can_close t = (case t of
     Some (Some inner) \<Rightarrow> hotel_CloseIdleConnections can_close (Some inner)
   | _ \<Rightarrow> [])"

definition hotel_NewWithTextMapPropagator :: "nat option \<Rightarrow> nat option \<Rightarrow> nat option" where
  "hotel_NewWithTextMapPropagator global_propagator propagator =
     (case propagator of None \<Rightarrow> global_propagator | Some p \<Rightarrow> Some p)"

definition hotel_Inject :: "header_code \<Rightarrow> nat option option \<Rightarrow> injection" where
  "hotel_Inject u p headers = (case p of
     None \<Rightarrow> (headers, Returned ())
   | Some propagator \<Rightarrow> textMapInjection u propagator headers)"

section \<open>What instrumentation keeps\<close>

definition http_effects :: "trip_effect list \<Rightarrow> rt_effect list" where
  "http_effects fx = List.map_filter (\<lambda>e. case e of Http x \<Rightarrow> Some x | _ \<Rightarrow> None) fx"

lemma http_effects_simps [simp]:
  "http_effects [] = []" "http_effects (xs @ ys) = http_effects xs @ http_effects ys"
  "http_effects (Otel x # xs) = http_effects xs" "http_effects (Http y # xs) = y # http_effects xs"
  "http_effects (DurationRecorded d m a p attrs # xs) = http_effects xs"
  "http_effects (map Http zs) = zs"
  by (simp_all add: http_effects_def List.map_filter_def comp_def)

text \<open>One instrumented trip, as the round tripper its caller sees.\<close>

definition instrumented_trip ::
  "trip_code \<Rightarrow> HttpOtelTransport \<Rightarrow> transport \<Rightarrow> operationMetadata option \<Rightarrow> gotime \<Rightarrow> gotime \<Rightarrow> resend_counts
   \<Rightarrow> rt_env \<Rightarrow> Request \<Rightarrow> (Response option \<times> goerr option) \<times> rt_effect list" where
  "instrumented_trip code t base ctx startedAt endedAt counts env request =
     (case hotel_RoundTrip code (Some (t\<lparr>ho_base := Some base\<rparr>)) ctx startedAt endedAt env (Some request) counts of
        ((result, fx), _) \<Rightarrow> (result, http_effects fx))"

lemma recordDuration_http [simp]: "http_effects (recordDuration code t rq r m et d md # xs) = http_effects xs"
  by (simp add: recordDuration_def Let_def split: prod.split)

text \<open>The parts of an instrumented trip: one span around the effects of the wrapped transport.\<close>

lemma hotel_RoundTrip_parts:
  assumes "base_trip env rq (injectSafely (ho_inject t) (Some (case rq_header rq of None \<Rightarrow> [] | Some h \<Rightarrow> h))) = ((r, e), fx)"
    and "ho_base t \<noteq> None"
    and "e' = (if r = None \<and> e = None then Some errHTTPTransportNoResponse else e)"
  obtains name attrs endAttributes measured counts' where
    "hotel_RoundTrip code (Some t) ctx t0 t1 env (Some rq) counts = (((r, e'),
       [Otel (SpanStarted name SpanKindClient attrs (Some t0))] @ map Http fx @ [Otel (SpanAttributesSet endAttributes)] @
       (if httpErrorType r e' \<noteq> '''' then [Otel (SpanStatusError '''')] else []) @ measured @
       [Otel (SpanEnded (Some t1))]), counts')"
    "attrs = start_attributes code t (metadataFromContext ctx) (fst (nextResendCount (metadataFromContext ctx) counts)) rq"
    "counts' = snd (nextResendCount (metadataFromContext ctx) counts)"
    "measured = (if ho_standard_metrics t
       then [recordDuration code t rq r (fst (knownMethod (rq_method rq))) (httpErrorType r e') (time_sub t1 t0)
         (metadataFromContext ctx)] else [])"
proof -
  obtain m known where m: "knownMethod (rq_method rq) = (m, known)" by fastforce
  obtain count counts' where n: "nextResendCount (metadataFromContext ctx) counts = (count, counts')" by fastforce
  show thesis
    by (rule that [OF _ refl refl refl])
       (simp add: hotel_RoundTrip_def Let_def assms m n responseAttributes_def)
qed

lemma instrumented_base:
  assumes "base_trip env rq (injectSafely (ho_inject t) (Some (case rq_header rq of None \<Rightarrow> [] | Some h \<Rightarrow> h))) = ((r, e), fx)"
  shows "instrumented_trip code t base ctx t0 t1 counts env rq =
     ((r, if r = None \<and> e = None then Some errHTTPTransportNoResponse else e), fx)"
proof -
  let ?t = "t\<lparr>ho_base := Some base\<rparr>"
  have b: "base_trip env rq (injectSafely (ho_inject ?t) (Some (case rq_header rq of None \<Rightarrow> [] | Some h \<Rightarrow> h))) = ((r, e), fx)"
    using assms by simp
  define e2 where "e2 = (if r = None \<and> e = None then Some errHTTPTransportNoResponse else e)"
  from hotel_RoundTrip_parts [OF b _ e2_def, of code ctx t0 t1 counts]
  obtain name attrs endAttributes measured counts' where
    R: "hotel_RoundTrip code (Some ?t) ctx t0 t1 env (Some rq) counts = (((r, e2),
       [Otel (SpanStarted name SpanKindClient attrs (Some t0))] @ map Http fx @ [Otel (SpanAttributesSet endAttributes)] @
       (if httpErrorType r e2 \<noteq> [] then [Otel (SpanStatusError [])] else []) @ measured @
       [Otel (SpanEnded (Some t1))]), counts')"
    and m: "http_effects measured = []"
    by (metis (no_types, lifting) http_effects_simps(1) option.distinct(1) recordDuration_http
        HttpOtelTransport.select_convs(1) HttpOtelTransport.update_convs(1) HttpOtelTransport.surjective)
  have "http_effects (if httpErrorType r e2 \<noteq> [] then [Otel (SpanStatusError [])] else []) = []" by simp
  then show ?thesis unfolding instrumented_trip_def R prod.case http_effects_simps m
    by (simp add: e2_def)
qed

lemma base_trip_cases:
  assumes "base_trip env rq h = ((r, e), fx)"
  obtains (early) c where "rt_ctx env = Some c" "r = None" "e = Some (err_of_ctx c)"
      "fx = map CloseBody (closeRequestBody (Some rq))"
  | (late) c where "rt_ctx env = None" "rt_ctx_after env = Some c" "r = None" "e = Some (err_of_ctx c)"
      "fx = [BaseRoundTrip h] @ closeResponse (rt_response env)"
  | (both) x y where "rt_ctx env = None" "rt_response env = Some x" "rt_err env = Some y" "r = None" "e = Some y"
      "fx = [BaseRoundTrip h] @ closeResponse (Some x)"
  | (one) "rt_ctx env = None" "rt_response env = None \<or> rt_err env = None" "r = rt_response env" "e = rt_err env"
      "fx = [BaseRoundTrip h]"
proof (cases "rt_ctx env")
  case (Some c)
  with assms show ?thesis by (intro early) (auto simp: base_trip_def)
next
  case None
  note ctx = None
  show ?thesis
  proof (cases "rt_ctx_after env")
    case (Some c)
    with ctx assms show ?thesis by (intro late) (auto simp: base_trip_def)
  next
    case None
    show ?thesis
    proof (cases "rt_response env = None \<or> rt_err env = None")
      case True
      with ctx None assms show ?thesis by (intro one) (auto simp: base_trip_def)
    next
      case False
      then obtain x y where "rt_response env = Some x" "rt_err env = Some y" by auto
      with ctx None assms show ?thesis by (intro both [of x y]) (auto simp: base_trip_def)
    qed
  qed
qed

interpretation instrumented: round_tripper "instrumented_trip code t base ctx t0 t1 counts" for code t base ctx t0 t1 counts
proof
  fix env rq r e fx
  assume trip: "instrumented_trip code t base ctx t0 t1 counts env rq = ((r, e), fx)"
  obtain r' e' fx' where b: "base_trip env rq (injectSafely (ho_inject t) (Some (case rq_header rq of None \<Rightarrow> [] | Some h \<Rightarrow> h)))
      = ((r', e'), fx')" by (metis prod.exhaust)
  have eq: "r' = r" "(if r' = None \<and> e' = None then Some errHTTPTransportNoResponse else e') = e"
    using trip unfolding instrumented_base [OF b] prod.inject by blast+
  from b show "r = None \<longleftrightarrow> e \<noteq> None"
    unfolding eq(1) [symmetric] eq(2) [symmetric] by (cases rule: base_trip_cases) auto
next
  fix env rq e fx h resp
  assume trip: "instrumented_trip code t base ctx t0 t1 counts env rq = ((None, e), fx)"
    and h: "BaseRoundTrip h \<in> set fx" and resp: "rt_response env = Some resp" "rs_body resp \<noteq> NilBody"
  obtain r' e' fx' where b: "base_trip env rq (injectSafely (ho_inject t) (Some (case rq_header rq of None \<Rightarrow> [] | Some h \<Rightarrow> h)))
      = ((r', e'), fx')" by (metis prod.exhaust)
  from trip have eq: "r' = None" "fx = fx'" by (simp_all add: instrumented_base [OF b])
  from b show "CloseResponseBody resp \<in> set fx"
    by (cases rule: base_trip_cases) (use eq h resp in \<open>auto simp: closeResponse_def\<close>)
qed

section \<open>Resend counts\<close>

text \<open>The counts of trips made in this order, each within the operation its context carries.\<close>

fun resends :: "operationMetadata list \<Rightarrow> resend_counts \<Rightarrow> int list" where
  "resends [] counts = []"
| "resends (m # ms) counts = (let (n, counts') = nextResendCount m counts in n # resends ms counts')"

definition in_cell :: "nat \<Rightarrow> operationMetadata \<Rightarrow> bool" where
  "in_cell cell m = (case om_state m of None \<Rightarrow> False | Some s \<Rightarrow> st_cell s = cell)"

lemma sint_small: "k < 2 ^ 63 \<Longrightarrow> sint (word_of_nat k :: 64 word) = int k"
  by (simp add: signed_of_nat signed_take_bit_int_eq_self)

lemma resends_length [simp]: "length (resends ms counts) = length ms"
  by (induction ms arbitrary: counts) (simp_all add: case_prod_beta Let_def)

text \<open>However the trips of concurrent operations interleave, the count of a trip is the number of trips of
  its own operation before it.\<close>

lemma resends_count:
  assumes "i < length ms" "in_cell cell (ms ! i)" "counts cell = word_of_nat k" "k + length ms < 2 ^ 63"
  shows "resends ms counts ! i = int (k + tally (in_cell cell) (take i ms))"
  using assms
proof (induction ms arbitrary: i counts k)
  case (Cons m ms)
  obtain n counts' where n: "nextResendCount m counts = (n, counts')" by fastforce
  show ?case
  proof (cases i)
    case 0
    then obtain s where s: "om_state m = Some s" "st_cell s = cell"
      using Cons.prems(2) by (auto simp: in_cell_def split: option.splits)
    then have "n = int k" using n Cons.prems(3,4) by (auto simp: nextResendCount_def Let_def sint_small)
    then show ?thesis by (simp add: 0 n)
  next
    case (Suc j)
    have "counts' cell = word_of_nat (k + of_bool (in_cell cell m))"
      using n Cons.prems(3) by (auto simp: nextResendCount_def Let_def in_cell_def split: option.splits)
    from Cons.IH [of j counts' "k + of_bool (in_cell cell m)", OF _ _ this] Cons.prems show ?thesis
      by (simp add: Suc n)
  qed
qed simp

section \<open>What instrumentation reveals\<close>

text \<open>The user information, the query and the fragment of the URL do not reach telemetry.\<close>

definition same_target :: "Request \<Rightarrow> Request \<Rightarrow> bool" where
  "same_target a b \<longleftrightarrow> rq_method a = rq_method b \<and> rq_host a = rq_host b \<and>
     map_option (\<lambda>u. u\<lparr>u_user := None, u_fragment := [], u_raw_fragment := [], u_raw_query := [], u_force_query := False\<rparr>)
       (rq_url a) =
     map_option (\<lambda>u. u\<lparr>u_user := None, u_fragment := [], u_raw_fragment := [], u_raw_query := [], u_force_query := False\<rparr>)
       (rq_url b)"

lemma redacted_fields:
  assumes "u\<lparr>u_user := None, u_fragment := [], u_raw_fragment := [], u_raw_query := [], u_force_query := False\<rparr> =
     v\<lparr>u_user := None, u_fragment := [], u_raw_fragment := [], u_raw_query := [], u_force_query := False\<rparr>"
  shows "u_scheme u = u_scheme v" "u_host u = u_host v" "u_opaque u = u_opaque v"
  using arg_cong [OF assms, of u_scheme] arg_cong [OF assms, of u_host] arg_cong [OF assms, of u_opaque] by simp_all

lemma sanitizedURL_redacts: "same_target a b \<Longrightarrow> sanitizedURL f a = sanitizedURL f b"
  by (cases "rq_url a"; cases "rq_url b") (auto simp: same_target_def sanitizedURL_def dest: redacted_fields)

lemma serverAddressPort_redacts: "same_target a b \<Longrightarrow> serverAddressPort ext a = serverAddressPort ext b"
  by (cases "rq_url a"; cases "rq_url b")
     (auto simp: same_target_def serverAddressPort_def Let_def dest: redacted_fields split: prod.split)

lemma targets_redact:
  "same_target a b \<Longrightarrow> requestTargetSpanAttributes sv ext f a = requestTargetSpanAttributes sv ext f b"
  unfolding requestTargetSpanAttributes_def by (simp only: sanitizedURL_redacts serverAddressPort_redacts)

lemma start_attributes_redact:
  assumes "same_target a b"
  shows "start_attributes code t md n a = start_attributes code t md n b"
proof -
  have "rq_method a = rq_method b" using assms by (simp add: same_target_def)
  then show ?thesis unfolding start_attributes_def by (simp only: targets_redact [OF assms])
qed

lemma recordDuration_redact:
  "same_target a b \<Longrightarrow> recordDuration code t a r m et d md = recordDuration code t b r m et d md"
  by (simp add: recordDuration_def serverAddressPort_redacts)

text \<open>What a round trip reports, without its calls of the wrapped transport.\<close>

definition reported :: "trip_effect list \<Rightarrow> trip_effect list" where
  "reported fx = filter (\<lambda>e. case e of Http _ \<Rightarrow> False | _ \<Rightarrow> True) fx"

lemma hotel_RoundTrip_redacts:
  assumes "same_target a b" "rq_header a = rq_header b" "rq_body a = rq_body b"
  shows "reported (snd (fst (hotel_RoundTrip code t ctx t0 t1 env (Some a) counts))) =
     reported (snd (fst (hotel_RoundTrip code t ctx t0 t1 env (Some b) counts)))"
proof -
  have base: "base_trip env a = base_trip env b"
  proof -
    have "closeRequestBody (Some a) = closeRequestBody (Some b)" by (simp add: closeRequestBody_def assms(3))
    then show ?thesis unfolding base_trip_def by (simp only:)
  qed
  have m: "rq_method a = rq_method b" using assms(1) by (simp add: same_target_def)
  have "hotel_RoundTrip code t ctx t0 t1 env (Some a) counts = hotel_RoundTrip code t ctx t0 t1 env (Some b) counts"
    unfolding hotel_RoundTrip_def option.case base m assms(2) start_attributes_redact [OF assms(1)]
      recordDuration_redact [OF assms(1)] by (rule refl)
  then show ?thesis by simp
qed

text \<open>Without the option for request targets neither the host nor the path do.\<close>

lemma start_attributes_target:
  assumes "\<not> ho_request_targets t" "rq_method a = rq_method b"
  shows "start_attributes code t md n a = start_attributes code t md n b"
  unfolding start_attributes_def assms(2) by (simp only: assms(1) if_False)

section \<open>Headers and numbers\<close>

text \<open>An injection that panics leaves the headers as they were.\<close>

lemma injectSafely_panic:
  assumes "inject = Some f" "wf_header h" "f h = (h', Panicked)" "h' = None \<longleftrightarrow> h = None"
  shows "injectSafely inject h = h"
  using assms injectHeaderSafely_restores [of h f]
  by (simp add: injectSafely_def injectHeaderSafely_def)

lemma decimal_append: "decimal (s @ t) = decimal s * 10 ^ length t + decimal t"
proof -
  have run: "foldl (\<lambda>n c. 10 * n + (byte c - 48)) k t = k * 10 ^ length t + decimal t" for k
  proof (induction t rule: rev_induct)
    case (snoc c t)
    then show ?case by (simp add: decimal_def algebra_simps)
  qed (simp add: decimal_def)
  have "decimal (s @ t) = foldl (\<lambda>n c. 10 * n + (byte c - 48)) (decimal s) t" by (simp add: decimal_def)
  also note run
  finally show ?thesis .
qed

declare decimal_string.simps [simp del]

lemma decimal_string_unfold:
  "n < 10 \<Longrightarrow> decimal_string n = [byte_char (48 + n)]"
  "\<not> n < 10 \<Longrightarrow> decimal_string n = decimal_string (n div 10) @ [byte_char (48 + n mod 10)]"
  by (simp_all add: decimal_string.simps [of n])

lemma decimal_string_digits: "decimal_string n \<noteq> [] \<and> list_all digit_byte (decimal_string n)"
proof (induction n rule: decimal_string.induct)
  case (1 n)
  then show ?case
    by (cases "n < 10") (simp_all add: decimal_string_unfold digit_byte_def byte_byte_char)
qed

lemma decimal_decimal_string: "decimal (decimal_string n) = n"
proof (induction n rule: decimal_string.induct)
  case (1 n)
  show ?case
  proof (cases "n < 10")
    case True
    then show ?thesis by (simp add: decimal_string_unfold decimal_def byte_byte_char)
  next
    case False
    have "decimal [byte_char (48 + n mod 10)] = n mod 10" by (simp add: decimal_def byte_byte_char)
    then have "decimal (decimal_string n) = decimal (decimal_string (n div 10)) * 10 + n mod 10"
      unfolding decimal_string_unfold(2) [OF False] decimal_append by simp
    then show ?thesis using 1 False by simp
  qed
qed

lemma Atoi_digits:
  assumes "s \<noteq> []" "list_all digit_byte s" "decimal s < 2 ^ 63"
  shows "Atoi s = Some (int (decimal s))"
proof -
  have "digit_byte (hd s)" using assms(1,2) by (simp add: list_all_iff)
  then have "hd s \<noteq> CHR ''-''" "hd s \<noteq> CHR ''+''" by (auto simp: digit_byte_def)
  with assms show ?thesis unfolding Atoi_def Let_def by simp
qed

lemma Atoi_Itoa:
  assumes "0 \<le> n" "n < 2 ^ 63"
  shows "Atoi (Itoa n) = Some n"
proof -
  have "Itoa n = decimal_string (nat n)" using assms(1) unfolding Itoa_def by simp
  moreover have "decimal (decimal_string (nat n)) < 2 ^ 63"
    unfolding decimal_decimal_string using assms by (simp add: nat_less_iff)
  ultimately show ?thesis
    using Atoi_digits [of "decimal_string (nat n)"] decimal_string_digits [of "nat n"] assms(1)
    unfolding decimal_decimal_string by (metis int_nat_eq)
qed

end
