(* ===== verification/Ck_Samples.thy ===== *)
theory Ck_Samples
  imports Client_Samples Slog_Observer Http_Otel
begin

text \<open>
  Concrete values for the witnesses of the registry, the concurrent checks, header propagation, the
  observers and the instrumentation.
\<close>

section \<open>A registry and its checks\<close>

definition sample_registered :: "string \<Rightarrow> nat \<Rightarrow> ReadinessPolicy \<Rightarrow> RegisteredClient" where
  "sample_registered name i policy = \<lparr>gc_id = i, gc_nil_pointer = False, gc_name = Returned name,
     gc_protocol = Returned ''http'', gc_policy = Returned policy, gc_checker = True,
     gc_configurable = Some (Returned True), gc_closer = Some Panicked\<rparr>"

definition sample_clients :: "RegisteredClient list" where
  "sample_clients = [sample_registered ''payments'' 1 ReadinessRequired, sample_registered ''ledger'' 2 ReadinessOptional]"

definition sample_entry :: "RegisteredClient \<Rightarrow> ReadinessPolicy \<Rightarrow> registeredClientEntry" where
  "sample_entry c policy = \<lparr>ge_client = c, ge_protocol = ''http'', ge_policy = policy, ge_enabled = True,
     ge_synthetic = None, ge_slot = True\<rparr>"

definition sample_registry :: Registry where
  "sample_registry = NewRegistry\<lparr>rg_clients :=
     [(''payments'', sample_entry (sample_registered ''payments'' 1 ReadinessRequired) ReadinessRequired),
      (''ledger'', sample_entry (sample_registered ''ledger'' 2 ReadinessOptional) ReadinessOptional)]\<rparr>"

lemma sample_registration: "RegisterAll (Some NewRegistry) (map Some sample_clients) = (None, Some sample_registry)"
  by (simp add: RegisterAll_def sample_clients_def validateRegistration_def isNilRegisteredClient_def
      sample_registered_def captured_def sample_names registeredClientHealthCheckEnabled_def
      validateReadinessPolicy_def normalizeReadinessPolicy_def BlocksReadiness_def NewRegistry_def
      sample_registry_def sample_entry_def entry_of_def)

lemma sample_registry_inv: "registry_inv sample_registry"
  by (rule RegisterAll_inv [OF sample_registration NewRegistry_inv])

lemma sample_unused: "unused_registry sample_registry"
  using sample_registry_inv
  by (simp add: unused_registry_def sample_registry_def sample_entry_def NewRegistry_def)

definition sample_opskit :: "(int, string) opskit_code" where
  "sample_opskit = \<lparr>ok_new_duration = id, ok_zero_duration = 0,
     ok_summarize = (\<lambda>m t rs. \<lparr>sm_state = StateReady, sm_ready = True, sm_message = m, sm_checked_at = Some t,
       sm_duration = 0, sm_results = rs\<rparr>),
     ok_unknown = id, ok_not_ready = id, ok_degraded = id, ok_ready = id\<rparr>"

text \<open>A call whose first worker holds the slot of the first checker.\<close>

definition sample_call :: "int check_call" where
  "sample_call = start_call sample_registry None"

definition sample_waiting :: "int check_call" where
  "sample_waiting = put_worker 0 (Waiting 0) (put_worker 0 (Received 0) (sample_call\<lparr>ca_next := 1\<rparr>))"

definition sample_started :: "int check_system" where
  "sample_started = \<lparr>sy_registry = sample_registry, sy_calls = [sample_call]\<rparr>"

definition sample_system :: "int check_system" where
  "sample_system = \<lparr>sy_registry = set_slot ''ledger'' False sample_registry,
     sy_calls = [put_worker 0 (Holding 0) sample_waiting]\<rparr>"

lemma sample_checkers: "map nk_name (healthCheckersSnapshot (Some sample_registry)) = [''ledger'', ''payments'']"
  by code_simp

lemma sample_call_facts:
  "ca_workers sample_call = [Idle, Idle]" "length (ca_checkers sample_call) = 2" "ca_next sample_call = 0"
  "ca_ctx sample_call = None" "\<not> ca_closed sample_call" "checker_name sample_call 0 = ''ledger''"
  "ca_checkers sample_call = healthCheckersSnapshot (Some sample_registry)"
  "healthCheckersSnapshot (Some sample_registry) \<noteq> []"
proof -
  have l: "length (healthCheckersSnapshot (Some sample_registry)) = 2"
    using arg_cong [OF sample_checkers, of length] by simp
  have m: "max_permits sample_registry = 4"
    by (simp add: max_permits_def normalizedMaxConcurrentChecks_def sample_registry_def NewRegistry_def
        DefaultMaxConcurrentChecks_def)
  show "ca_workers sample_call = [Idle, Idle]" "length (ca_checkers sample_call) = 2" "ca_next sample_call = 0"
    "ca_ctx sample_call = None" "\<not> ca_closed sample_call"
    "ca_checkers sample_call = healthCheckersSnapshot (Some sample_registry)"
    using l m by (simp_all add: sample_call_def start_call_def Let_def numeral_2_eq_2)
  show "healthCheckersSnapshot (Some sample_registry) \<noteq> []"
    using l by force
  show "checker_name sample_call 0 = ''ledger''"
    using l nth_map [of 0 "healthCheckersSnapshot (Some sample_registry)" nk_name]
    by (simp add: sample_call_def start_call_def Let_def checker_name_def sample_checkers)
qed

lemma sample_started_reachable: "reachable_checks sample_opskit sample_registry sample_started"
proof -
  from further [OF initial call [where ctx = None]] sample_call_facts(8) show ?thesis
    by (simp add: sample_started_def sample_call_def)
qed

lemma reachable_act:
  assumes "reachable_checks sample_opskit sample_registry \<lparr>sy_registry = r, sy_calls = [c]\<rparr>" "call_step sample_opskit r c r' c'"
  shows "reachable_checks sample_opskit sample_registry \<lparr>sy_registry = r', sy_calls = [c']\<rparr>"
  using further [OF assms(1) act [of 0]] assms(2) by fastforce

lemma sample_waiting_reachable:
  "reachable_checks sample_opskit sample_registry \<lparr>sy_registry = sample_registry, sy_calls = [sample_waiting]\<rparr>"
proof -
  note f = sample_call_facts
  let ?c1 = "put_worker 0 (Received 0) (sample_call\<lparr>ca_next := 1\<rparr>)"
  have "call_step sample_opskit sample_registry sample_call sample_registry ?c1"
    using schedule [of sample_call 0 sample_opskit sample_registry] by (simp add: f)
  moreover have "call_step sample_opskit sample_registry ?c1 sample_registry sample_waiting"
    unfolding sample_waiting_def by (rule enter [where i = 0]) (simp_all add: f)
  ultimately show ?thesis
    using sample_started_reachable reachable_act unfolding sample_started_def by metis
qed

lemma sample_system_reachable: "reachable_checks sample_opskit sample_registry sample_system"
proof -
  have "slot_free sample_registry (checker_name sample_waiting 0)"
    by (simp add: sample_waiting_def sample_call_facts slot_free_def sample_registry_def sample_entry_def)
  then have "call_step sample_opskit sample_registry sample_waiting (set_slot ''ledger'' False sample_registry)
      (put_worker 0 (Holding 0) sample_waiting)"
    using slot_received [of 0 sample_waiting 0 sample_registry sample_opskit]
    by (simp add: sample_waiting_def sample_call_facts)
  with reachable_act [OF sample_waiting_reachable] show ?thesis unfolding sample_system_def by blast
qed

text \<open>The context of the sample call ends before the worker has the slot, and the worker notices.\<close>

definition cancelled_call :: "int check_call" where
  "cancelled_call = sample_waiting\<lparr>ca_ctx := Some Canceled\<rparr>"

definition cancelled_system :: "int check_system" where
  "cancelled_system = \<lparr>sy_registry = sample_registry, sy_calls = [cancelled_call]\<rparr>"

definition rejected_call :: "int check_call" where
  "rejected_call = put_worker 0 Idle (cancelled_call\<lparr>ca_slots := (ca_slots cancelled_call)[0 := Some
     (opskitNamedClientCheck sample_opskit (nk_name (ca_checkers cancelled_call ! 0)) (nk_protocol (ca_checkers cancelled_call ! 0))
       (nk_policy (ca_checkers cancelled_call ! 0))
       (ho_health (clientHealthCheckContextOutcome Canceled ''before execution'' (now_at 2))))]\<rparr>)"

definition rejected_system :: "int check_system" where
  "rejected_system = \<lparr>sy_registry = the (publish_outcome (Some sample_registry) ''ledger''
     (clientHealthCheckContextOutcome Canceled ''before execution'' (now_at 2))), sy_calls = [rejected_call]\<rparr>"

lemma cancelled_call_facts: "ca_ctx cancelled_call = Some Canceled" "ca_slots cancelled_call = [None, None]"
  "ca_workers cancelled_call = [Waiting 0, Idle]" "ca_checkers cancelled_call = healthCheckersSnapshot (Some sample_registry)"
  "checker_name cancelled_call 0 = ''ledger''"
proof -
  have "ca_slots sample_call = [None, None]"
    using sample_call_facts(2) by (simp add: sample_call_def start_call_def Let_def numeral_2_eq_2)
  then show "ca_ctx cancelled_call = Some Canceled" "ca_slots cancelled_call = [None, None]"
    "ca_workers cancelled_call = [Waiting 0, Idle]" "ca_checkers cancelled_call = healthCheckersSnapshot (Some sample_registry)"
    "checker_name cancelled_call 0 = ''ledger''"
    by (simp_all add: cancelled_call_def sample_waiting_def sample_call_facts)
qed

lemma cancelled_reachable: "reachable_checks sample_opskit sample_registry cancelled_system"
proof -
  have "ca_ctx sample_waiting = None" by (simp add: sample_waiting_def sample_call_facts)
  with further [OF sample_waiting_reachable context_ends [where k = 0 and e = Canceled]] show ?thesis
    by (simp add: cancelled_system_def cancelled_call_def)
qed

lemma cancelled_pending: "0 < length (sy_calls cancelled_system)" "ca_ctx (sy_calls cancelled_system ! 0) = Some Canceled"
  "pending 0 (sy_calls cancelled_system ! 0)"
  by (simp_all add: cancelled_system_def pending_def cancelled_call_facts)

lemma rejected_step: "(system_step sample_opskit)\<^sup>*\<^sup>* cancelled_system rejected_system"
proof -
  let ?out = "clientHealthCheckContextOutcome Canceled ''before execution'' (now_at 2)"
  obtain r' where r': "publish_outcome (Some sample_registry) ''ledger'' ?out = Some r'"
    using apply_some unfolding publish_outcome_def by blast
  have "call_step sample_opskit sample_registry cancelled_call r' rejected_call"
    unfolding rejected_call_def by (rule slot_rejected [where i = 0 and e = Canceled]) (simp_all add: cancelled_call_facts r')
  with act [of 0 cancelled_system] r' show ?thesis by (fastforce simp: cancelled_system_def rejected_system_def)
qed

lemma rejected_slots: "\<exists>x. ca_slots (sy_calls rejected_system ! 0) ! 0 = Some x \<and> 0 < length (ca_slots (sy_calls rejected_system ! 0))"
  by (simp add: rejected_system_def rejected_call_def cancelled_call_facts)

lemma rejected_checker: "nk_name (ca_checkers rejected_call ! 0) = ''ledger''" "nk_protocol (ca_checkers rejected_call ! 0) = ''http''"
  "nk_policy (ca_checkers rejected_call ! 0) = ReadinessOptional"
proof -
  have "map (\<lambda>k. (nk_name k, nk_protocol k, nk_policy k)) (healthCheckersSnapshot (Some sample_registry)) =
      [(''ledger'', ''http'', ReadinessOptional), (''payments'', ''http'', ReadinessRequired)]"
    by code_simp
  then show "nk_name (ca_checkers rejected_call ! 0) = ''ledger''" "nk_protocol (ca_checkers rejected_call ! 0) = ''http''"
    "nk_policy (ca_checkers rejected_call ! 0) = ReadinessOptional"
    by (auto simp: rejected_call_def cancelled_call_facts)
qed

lemma sample_busy: "busy sample_system 0 0 0"
  by (simp add: busy_def sample_system_def sample_waiting_def sample_call_facts)

text \<open>A schedule that finishes the sample call.\<close>

lemma sample_finished:
  "\<exists>s c. reachable_checks sample_opskit sample_registry s \<and> c \<in> set (sy_calls s) \<and> call_finished c \<and>
     ca_ctx c = None \<and> map nk_name (ca_checkers c) = [''ledger'', ''payments'']"
proof -
  obtain s where run: "(goroutine_step sample_opskit)\<^sup>*\<^sup>* sample_started s" "\<forall>c \<in> set (sy_calls s). call_finished c"
    using checks.completes [OF reachable_system_inv [OF sample_unused sample_started_reachable]] by blast
  note r = goroutine_run [OF run(1) sample_started_reachable]
  then obtain c where "sy_calls s = [c]" "ca_ctx c = None" "ca_checkers c = ca_checkers sample_call"
    by (auto simp: sample_started_def sample_call_facts map_eq_Cons_conv)
  with run(2) r(1) show ?thesis
    by (intro exI [of _ s] exI [of _ c]) (simp add: sample_call_facts sample_checkers)
qed

text \<open>A registry that shows a later failure of one client, and a check the deadline overtook.\<close>

definition sample_override :: registryHealthOverride where
  "sample_override = \<lparr>ov_health = clientHealthCheckContextFailure Canceled ''before execution'' (now_at 9),
     ov_decided_at = now_at 9\<rparr>"

definition overridden_entry :: registeredClientEntry where
  "overridden_entry = (sample_entry (sample_registered ''ledger'' 2 ReadinessOptional) ReadinessOptional)
     \<lparr>ge_synthetic := Some sample_override\<rparr>"

definition overridden_registry :: Registry where
  "overridden_registry = sample_registry\<lparr>rg_clients := [(''ledger'', overridden_entry)]\<rparr>"

definition late_script :: check_script where
  "late_script = \<lparr>ks_slot = None, ks_permit = None, ks_check = Returned (health_of HealthHealthy FailureNone ''''),
     ks_decided = now_at 3, ks_returned = Some DeadlineExceeded, ks_accept = None, ks_accepted = None,
     ks_clock = now_at 4, ks_accept_clock = now_at 5\<rparr>"

section \<open>Headers, events and telemetry\<close>

definition sample_binding :: ContextHeaderBinding where
  "sample_binding = \<lparr>chb_header = ''x-id'', chb_provider = Some (HeaderValueProviderFunc (Some 0)),
     chb_existing = PreserveExistingHeader, chb_max_value_bytes = 64, chb_disable_limit = False\<rparr>"

definition sample_headers :: header_code where
  "sample_headers = \<lparr>provide = (\<lambda>_. Returned (''abc'', True)), propagate = (\<lambda>_ h. ([], Panicked))\<rparr>"

lemma sample_propagator: "\<exists>ns. NewContextHeaderPropagator [sample_binding] = Inr (ContextHeader ns)"
proof -
  have "TrimSpace ''x-id'' = ''x-id''" by (rule TrimSpace_alphanumeric; simp add: clientNameAlphanumeric_def)
  then show ?thesis
    by (simp add: NewContextHeaderPropagator_def sample_binding_def normalizeContextHeaderBinding_def Let_def
        validHTTPFieldName_def httpTokenByte_eq http_token_byte_def validateExistingHeaderPolicy_def
        normalizeContextHeaderValueLimit_def bind_result_def)
qed

lemma sample_injected: "injected_value id sample_headers [] sample_binding = Some ''abc''"
  by (simp add: injected_value_def provided_value_def clean_value_def sample_headers_def sample_binding_def)

lemma sample_name: "canonical_key (chb_header sample_binding) = ''X-Id''" "equal_fold id ''X-Id'' (chb_header sample_binding)"
proof -
  show key: "canonical_key (chb_header sample_binding) = ''X-Id''" by code_simp
  have "list_all http_token_byte (chb_header sample_binding)" "list_all http_token_byte ''X-Id''" "canonical_key ''X-Id'' = ''X-Id''"
    by code_simp+
  with key show "equal_fold id ''X-Id'' (chb_header sample_binding)" by (simp add: equal_fold_canonical)
qed

definition sample_event :: "slice event" where
  "sample_event = ObserveHealthEvent \<lparr>he_client = ''payments'', he_protocol = ''http'', he_state = HealthHealthy,
     he_failure = FailureNone, he_checked_at = now_at 1, he_duration = 0, he_message = '''', he_attributes = SliceAt 0\<rparr>"

definition sample_world :: world where
  "sample_world = \<lparr>mem = \<lparr>cells = (\<lambda>_. [(''k'', ''v'')]), next_cell = 1, handed = []\<rparr>, log = []\<rparr>"

lemma sample_private: "wf_memory (mem sample_world)" "private_slice (event_attributes sample_event) (mem sample_world)"
  by (simp_all add: wf_memory_def private_slice_def sample_world_def sample_event_def)

definition sample_start :: "slice OperationStartEvent" where
  "sample_start = \<lparr>os_kind = OperationKindLogical, os_client = ''payments'', os_protocol = ''http'', os_operation = ''get'',
     os_started_at = now_at 1, os_attributes = SliceAt 0\<rparr>"

lemma sample_start_private: "private_slice (os_attributes sample_start) (mem sample_world)"
  by (simp add: private_slice_def sample_world_def sample_start_def)

lemma sample_log: "world.log sample_world = []"
  by (simp add: sample_world_def)

lemma sample_users: "users (MultiObserver [Some (UserObserver 1), None, Some (UserObserver 2)]) = [1, 2]"
  by (simp add: MultiObserver_def map_filter_def)

lemma sample_otel: "\<exists>o'. otel_New 0 0 (\<lambda>_ _. None) [] = Inr o'"
proof -
  have "create_instruments (\<lambda>_. None) ns = None" for ns by (induction ns) auto
  then show ?thesis by (simp add: otel_New_def)
qed

definition secret_request :: Request where
  "secret_request = (sample_request ''GET'')\<lparr>rq_url := Some (sample_url\<lparr>u_user := Some ''alice'', u_raw_query := ''token'',
     u_fragment := ''f''\<rparr>)\<rparr>"

lemma sample_targets: "same_target secret_request (sample_request ''GET'')"
  by (simp add: same_target_def secret_request_def sample_request_def sample_url_def)

end
