(* ===== verification/Op_Telemetry.thy ===== *)
theory Op_Telemetry
  imports Http_Api Tcp_Dial Slog_Observer Otel_Observer
begin

text \<open>
  From an operation to its telemetry: the lifecycle events of an HTTP execution and of a TCP dial, what the
  OpenTelemetry and the structured-log observer make of them, and the contract between the two sides as a
  locale. What the observers report of an operation is proved once, for every source of operations.
\<close>

section \<open>Lifecycle events\<close>

fun is_attempt :: "'a event \<Rightarrow> bool" where
  "is_attempt (ObserveAttemptEvent _) = True"
| "is_attempt _ = False"

fun is_retry :: "'a event \<Rightarrow> bool" where
  "is_retry (ObserveRetryEvent _) = True"
| "is_retry _ = False"

definition is_progress :: "'a event \<Rightarrow> bool" where
  "is_progress e \<longleftrightarrow> is_attempt e \<or> is_retry e"

text \<open>The observer callbacks among the effects of an execution and of a dial, in their order.\<close>

definition http_event :: "http_effect \<Rightarrow> attribute list event option" where
  "http_event e = (case e of
     StartedOperation s \<Rightarrow> Some (StartOperationEvent s)
   | Attempted a \<Rightarrow> Some (ObserveAttemptEvent a)
   | Retrying r \<Rightarrow> Some (ObserveRetryEvent r)
   | EndedOperation f \<Rightarrow> Some (EndEvent f)
   | _ \<Rightarrow> None)"

definition http_lifecycle :: "http_effect list \<Rightarrow> attribute list event list" where
  "http_lifecycle fx = List.map_filter http_event fx"

definition tcp_event :: "tcp_effect \<Rightarrow> attribute list event option" where
  "tcp_event e = (case e of
     DialStarted s \<Rightarrow> Some (StartOperationEvent s)
   | DialAttempted a \<Rightarrow> Some (ObserveAttemptEvent a)
   | DialEnded f \<Rightarrow> Some (EndEvent f)
   | _ \<Rightarrow> None)"

definition tcp_lifecycle :: "tcp_effect list \<Rightarrow> attribute list event list" where
  "tcp_lifecycle fx = List.map_filter tcp_event fx"

lemma map_filter_append: "List.map_filter f (xs @ ys) = List.map_filter f xs @ List.map_filter f ys"
  by (simp add: List.map_filter_def)

lemma http_lifecycle_simps [simp]:
  "http_lifecycle [] = []"
  "http_lifecycle (e # fx) = (case http_event e of None \<Rightarrow> [] | Some x \<Rightarrow> [x]) @ http_lifecycle fx"
  "http_lifecycle (fx @ gx) = http_lifecycle fx @ http_lifecycle gx"
  "http_lifecycle (map (CloseReceived n) rs) = []" "http_lifecycle (map CloseRequest bs) = []"
proof -
  have m: "http_lifecycle (map f xs) = []" if "\<And>x. http_event (f x) = None" for f :: "'b \<Rightarrow> http_effect" and xs
    by (induction xs) (simp_all add: http_lifecycle_def List.map_filter_simps that)
  show "http_lifecycle (map (CloseReceived n) rs) = []" "http_lifecycle (map CloseRequest bs) = []"
    by (rule m; simp add: http_event_def)+
qed (simp_all add: http_lifecycle_def List.map_filter_simps map_filter_append split: option.split)

lemma tcp_lifecycle_simps [simp]:
  "tcp_lifecycle [] = []"
  "tcp_lifecycle (e # fx) = (case tcp_event e of None \<Rightarrow> [] | Some x \<Rightarrow> [x]) @ tcp_lifecycle fx"
  "tcp_lifecycle (fx @ gx) = tcp_lifecycle fx @ tcp_lifecycle gx"
  by (simp_all add: tcp_lifecycle_def List.map_filter_simps map_filter_append split: option.split)

section \<open>The observers on a sequence of events\<close>

text \<open>The calls the OpenTelemetry observer makes to the SDK, with the observation it keeps between start and end.\<close>

fun otel_callback ::
  "OtelObserver \<Rightarrow> bool \<Rightarrow> attribute list event \<Rightarrow> otel_observation option \<Rightarrow> otel_effect list \<times> otel_observation option" where
  "otel_callback o' recording (StartOperationEvent e) ob = otel_StartOperation (Some o') e"
| "otel_callback o' recording (ObserveAttemptEvent e) ob = (otel_ObserveAttempt (Some o') e, ob)"
| "otel_callback o' recording (ObserveRetryEvent e) ob = (otel_ObserveRetry (Some o') e, ob)"
| "otel_callback o' recording (ObserveHealthEvent e) ob = (otel_ObserveHealth (Some o') recording e, ob)"
| "otel_callback o' recording (EndEvent e) ob =
     (case ob of None \<Rightarrow> ([], None) | Some b \<Rightarrow> map_prod id Some (otel_End b e))"

fun otel_trace ::
  "OtelObserver \<Rightarrow> bool \<Rightarrow> attribute list event list \<Rightarrow> otel_observation option \<Rightarrow> otel_effect list" where
  "otel_trace o' recording [] ob = []"
| "otel_trace o' recording (e # es) ob =
     (let (fx, ob') = otel_callback o' recording e ob in fx @ otel_trace o' recording es ob')"

text \<open>The records the structured-log observer gives its handler, under the clock \<open>now\<close>.\<close>

fun slog_callback ::
  "SlogObserver \<Rightarrow> gotime \<Rightarrow> attribute list event \<Rightarrow> slog_observation option \<Rightarrow> slog_record option \<times> slog_observation option" where
  "slog_callback o' now (StartOperationEvent e) ob = (None, slog_StartOperation (Some o') e)"
| "slog_callback o' now (ObserveAttemptEvent e) ob = (slog_ObserveAttempt (Some o') now e, ob)"
| "slog_callback o' now (ObserveRetryEvent e) ob = (slog_ObserveRetry (Some o') now e, ob)"
| "slog_callback o' now (ObserveHealthEvent e) ob = (slog_ObserveHealth (Some o') now e, ob)"
| "slog_callback o' now (EndEvent e) ob =
     (case ob of None \<Rightarrow> (None, None) | Some b \<Rightarrow> map_prod id Some (slog_End b now e))"

fun slog_trace ::
  "SlogObserver \<Rightarrow> gotime \<Rightarrow> attribute list event list \<Rightarrow> slog_observation option \<Rightarrow> slog_record list" where
  "slog_trace o' now [] ob = []"
| "slog_trace o' now (e # es) ob =
     (let (r, ob') = slog_callback o' now e ob
      in (case r of None \<Rightarrow> [] | Some x \<Rightarrow> [x]) @ slog_trace o' now es ob')"

definition counted :: "string \<Rightarrow> otel_effect list \<Rightarrow> nat" where
  "counted name fx = tally (\<lambda>e. case e of CounterAdded n _ \<Rightarrow> n = name | _ \<Rightarrow> False) fx"

definition spans_started :: "otel_effect list \<Rightarrow> nat" where
  "spans_started fx = tally (\<lambda>e. case e of SpanStarted _ _ _ _ \<Rightarrow> True | _ \<Rightarrow> False) fx"

definition spans_ended :: "otel_effect list \<Rightarrow> nat" where
  "spans_ended fx = tally (\<lambda>e. case e of SpanEnded _ \<Rightarrow> True | _ \<Rightarrow> False) fx"

definition statuses :: "otel_effect list \<Rightarrow> otel_effect list" where
  "statuses fx = filter (\<lambda>e. case e of SpanStatusOk \<Rightarrow> True | SpanStatusError _ \<Rightarrow> True | _ \<Rightarrow> False) fx"

lemmas trace_measures = counted_def spans_started_def spans_ended_def statuses_def

lemma measures_append [simp]:
  "counted name (fx @ gx) = counted name fx + counted name gx"
  "spans_started (fx @ gx) = spans_started fx + spans_started gx"
  "spans_ended (fx @ gx) = spans_ended fx + spans_ended gx"
  "statuses (fx @ gx) = statuses fx @ statuses gx"
  by (simp_all add: trace_measures)

lemma setOperationStatus_iff:
  "setOperationStatus e = SpanStatusOk \<longleftrightarrow> ot_operationSucceeded e"
  "\<exists>m. setOperationStatus e = SpanStatusOk \<or> setOperationStatus e = SpanStatusError m"
  by (simp_all add: setOperationStatus_def)

lemma callback_measures:
  "counted name (otel_ObserveAttempt (Some o') a) = of_bool (name = ''clientkit.attempts'')"
  "counted name (otel_ObserveRetry (Some o') r) = of_bool (name = ''clientkit.retries'')"
  "spans_started (otel_ObserveAttempt (Some o') a) = 0" "spans_started (otel_ObserveRetry (Some o') r) = 0"
  "spans_ended (otel_ObserveAttempt (Some o') a) = 0" "spans_ended (otel_ObserveRetry (Some o') r) = 0"
  "statuses (otel_ObserveAttempt (Some o') a) = []" "statuses (otel_ObserveRetry (Some o') r) = []"
  by (simp_all add: otel_ObserveAttempt_def otel_ObserveRetry_def recordAttempt_def recordRetry_def record_duration_def
      trace_measures Let_def)

lemma end_measures:
  assumes "\<not> ob_done ob"
  shows "counted name (fst (otel_End ob e)) = of_bool (name = ''clientkit.operations'')"
    and "spans_started (fst (otel_End ob e)) = 0" "spans_ended (fst (otel_End ob e)) = 1"
    and "statuses (fst (otel_End ob e)) = [setOperationStatus e]"
  using assms setOperationStatus_iff(2) [of e]
  by (auto simp: otel_End_def recordOperation_def record_duration_def trace_measures Let_def split: option.split)

lemma start_measures:
  "\<exists>x ob. otel_StartOperation (Some o') e = ([x], Some ob) \<and> \<not> ob_done ob \<and> spans_started [x] = 1 \<and>
     counted name [x] = 0 \<and> spans_ended [x] = 0 \<and> statuses [x] = []"
  by (simp add: otel_StartOperation_def trace_measures)

text \<open>Between start and end the observers only count.\<close>

lemma progress_cases:
  assumes "is_progress e"
  obtains (attempt) a where "e = ObserveAttemptEvent a" | (retry) r where "e = ObserveRetryEvent r"
  using assms by (cases e) (auto simp: is_progress_def)

lemma otel_progress:
  assumes "list_all is_progress es"
  shows "\<exists>fx. otel_trace o' recording (es @ gs) ob = fx @ otel_trace o' recording gs ob \<and>
     spans_started fx = 0 \<and> spans_ended fx = 0 \<and> statuses fx = [] \<and>
     (\<forall>name. counted name fx = tally is_attempt es * of_bool (name = ''clientkit.attempts'') +
        tally is_retry es * of_bool (name = ''clientkit.retries''))"
  using assms
proof (induction es)
  case Nil
  then show ?case by (simp add: trace_measures)
next
  case (Cons e es)
  then obtain fx where IH: "otel_trace o' recording (es @ gs) ob = fx @ otel_trace o' recording gs ob"
    "spans_started fx = 0" "spans_ended fx = 0" "statuses fx = []"
    "\<And>name. counted name fx = tally is_attempt es * of_bool (name = ''clientkit.attempts'') +
        tally is_retry es * of_bool (name = ''clientkit.retries'')"
    by auto
  from Cons.prems have "is_progress e" by simp
  then show ?case
  proof (cases rule: progress_cases)
    case (attempt a)
    with IH show ?thesis
      by (intro exI [of _ "otel_ObserveAttempt (Some o') a @ fx"]) (simp add: callback_measures)
  next
    case (retry r)
    with IH show ?thesis
      by (intro exI [of _ "otel_ObserveRetry (Some o') r @ fx"]) (simp add: callback_measures)
  qed
qed

section \<open>Structured logs\<close>

definition records_of :: "string \<Rightarrow> slog_record list \<Rightarrow> nat" where
  "records_of message rs = tally (\<lambda>r. sr_message r = message) rs"

lemma records_append [simp]:
  "records_of m [] = 0" "records_of m (rs @ qs) = records_of m rs + records_of m qs"
  "records_of m (r # rs) = of_bool (sr_message r = m) + records_of m rs"
  by (simp_all add: records_of_def)

text \<open>A logger whose handler admits the given levels.\<close>

definition admits :: "SlogObserver \<Rightarrow> (int \<Rightarrow> bool) \<Rightarrow> bool" where
  "admits o' enabled \<longleftrightarrow> (\<exists>l. so_logger o' = Some l \<and> lg_handler l = Some enabled)"

lemma slog_log_admitted:
  assumes "admits o' enabled"
  shows "slog_log o' now stamp level message attrs = None \<longleftrightarrow> \<not> enabled level"
    and "slog_log o' now stamp level message attrs = Some r \<Longrightarrow> sr_message r = message \<and> sr_level r = level"
  using assms by (auto simp: admits_def slog_log_def split: if_splits)

lemma slog_callback_records:
  assumes "admits o' enabled" "is_progress e"
  shows "\<exists>r. slog_callback o' now e ob = (r, ob) \<and>
     (\<forall>m. records_of m (case r of None \<Rightarrow> [] | Some x \<Rightarrow> [x]) =
        of_bool (is_attempt e \<and> m = ''clientkit attempt completed'' \<and> enabled (lv_attempt (so_levels o'))) +
        of_bool (is_retry e \<and> m = ''clientkit retry scheduled'' \<and> enabled (lv_retry (so_levels o'))))"
  using assms(2)
proof (cases rule: progress_cases)
  case (attempt a)
  then show ?thesis
    using slog_log_admitted [OF assms(1), of now "ae_ended_at a" "lv_attempt (so_levels o')"
        "''clientkit attempt completed''" "attempt_group o' a"]
    by (cases "slog_ObserveAttempt (Some o') now a") (auto simp: slog_ObserveAttempt_def)
next
  case (retry r)
  then show ?thesis
    using slog_log_admitted [OF assms(1), of now "re_at r" "lv_retry (so_levels o')"
        "''clientkit retry scheduled''" "retry_group r"]
    by (cases "slog_ObserveRetry (Some o') now r") (auto simp: slog_ObserveRetry_def)
qed

lemma slog_progress:
  assumes "admits o' enabled" "list_all is_progress es"
  shows "\<exists>rs. slog_trace o' now (es @ gs) ob = rs @ slog_trace o' now gs ob \<and>
     (\<forall>m. records_of m rs =
        tally is_attempt es * of_bool (m = ''clientkit attempt completed'' \<and> enabled (lv_attempt (so_levels o'))) +
        tally is_retry es * of_bool (m = ''clientkit retry scheduled'' \<and> enabled (lv_retry (so_levels o'))))"
  using assms(2)
proof (induction es)
  case (Cons e es)
  then obtain rs where IH: "slog_trace o' now (es @ gs) ob = rs @ slog_trace o' now gs ob"
    "\<And>m. records_of m rs =
        tally is_attempt es * of_bool (m = ''clientkit attempt completed'' \<and> enabled (lv_attempt (so_levels o'))) +
        tally is_retry es * of_bool (m = ''clientkit retry scheduled'' \<and> enabled (lv_retry (so_levels o')))"
    by auto
  from Cons.prems slog_callback_records [OF assms(1), of e now ob] obtain r where
    r: "slog_callback o' now e ob = (r, ob)"
      "\<And>m. records_of m (case r of None \<Rightarrow> [] | Some x \<Rightarrow> [x]) =
        of_bool (is_attempt e \<and> m = ''clientkit attempt completed'' \<and> enabled (lv_attempt (so_levels o'))) +
        of_bool (is_retry e \<and> m = ''clientkit retry scheduled'' \<and> enabled (lv_retry (so_levels o')))" by auto
  show ?case
    by (intro exI [of _ "(case r of None \<Rightarrow> [] | Some x \<Rightarrow> [x]) @ rs"]) (simp add: r IH algebra_simps of_bool_def)
qed simp

section \<open>The contract of an operation\<close>

text \<open>
  A source of operations: its events are one start, then attempts and retries, then one end that reports
  the number of attempts, the failure class and whether the operation succeeded.
\<close>

locale operation_source =
  fixes events :: "'x \<Rightarrow> attribute list event list" and succeeded :: "'x \<Rightarrow> bool"
    and failure :: "'x \<Rightarrow> FailureClass" and attempts :: "'x \<Rightarrow> nat" and retries :: "'x \<Rightarrow> nat"
  assumes lifecycle: "\<exists>s mid e. events x = StartOperationEvent s # mid @ [EndEvent e] \<and> list_all is_progress mid \<and>
      tally is_attempt mid = attempts x \<and> tally is_retry mid = retries x \<and> oe_attempts e = int (attempts x) \<and>
      oe_failure e = failure x \<and> (ot_operationSucceeded e \<longleftrightarrow> succeeded x)"
begin

lemma otel_accounts:
  fixes o' recording x
  defines "tr \<equiv> otel_trace o' recording (events x) None"
  shows "spans_started (tr) = 1" "spans_ended (tr) = 1"
    and "counted ''clientkit.operations'' (tr) = 1"
    and "counted ''clientkit.attempts'' (tr) = attempts x"
    and "counted ''clientkit.retries'' (tr) = retries x"
    and "\<exists>st. statuses (tr) = [st] \<and> (st = SpanStatusOk \<longleftrightarrow> succeeded x)"
proof -
  obtain s mid e where x: "events x = StartOperationEvent s # mid @ [EndEvent e]" "list_all is_progress mid"
    "tally is_attempt mid = attempts x" "tally is_retry mid = retries x" "ot_operationSucceeded e \<longleftrightarrow> succeeded x"
    using lifecycle by blast
  obtain a ob where a: "otel_StartOperation (Some o') s = ([a], Some ob)" "\<not> ob_done ob" "spans_started [a] = 1"
    "spans_ended [a] = 0" "statuses [a] = []" "\<And>name. counted name [a] = 0"
    using start_measures [of o' s] by (auto simp: otel_StartOperation_def trace_measures)
  obtain fx where fx: "otel_trace o' recording (mid @ [EndEvent e]) (Some ob) =
      fx @ otel_trace o' recording [EndEvent e] (Some ob)" "spans_started fx = 0" "spans_ended fx = 0" "statuses fx = []"
    "\<And>name. counted name fx = tally is_attempt mid * of_bool (name = ''clientkit.attempts'') +
        tally is_retry mid * of_bool (name = ''clientkit.retries'')"
    using otel_progress [OF x(2)] by metis
  have tr: "tr = [a] @ fx @ fst (otel_End ob e)"
    by (simp add: tr_def x(1) a(1) fx(1) map_prod_def split_beta)
  note m = a fx(2-5) end_measures [OF a(2)]
  show "spans_started (tr) = 1" "spans_ended (tr) = 1"
    unfolding tr measures_append by (simp_all add: m)
  show "counted ''clientkit.operations'' (tr) = 1" "counted ''clientkit.attempts'' (tr) = attempts x"
    "counted ''clientkit.retries'' (tr) = retries x"
    unfolding tr measures_append by (simp_all add: m x)
  show "\<exists>st. statuses (tr) = [st] \<and> (st = SpanStatusOk \<longleftrightarrow> succeeded x)"
    unfolding tr measures_append by (simp add: m setOperationStatus_iff x)
qed

lemma slog_accounts:
  fixes o' now x
  assumes "admits o' enabled"
  defines "tr \<equiv> slog_trace o' now (events x) None"
  shows "records_of ''clientkit operation completed'' (tr) =
      of_bool (enabled (if succeeded x then lv_operation_success (so_levels o') else lv_operation_failure (so_levels o')))"
    and "records_of ''clientkit attempt completed'' (tr) = attempts x * of_bool (enabled (lv_attempt (so_levels o')))"
    and "records_of ''clientkit retry scheduled'' (tr) = retries x * of_bool (enabled (lv_retry (so_levels o')))"
proof -
  obtain s mid e where x: "events x = StartOperationEvent s # mid @ [EndEvent e]" "list_all is_progress mid"
    "tally is_attempt mid = attempts x" "tally is_retry mid = retries x" "ot_operationSucceeded e \<longleftrightarrow> succeeded x"
    using lifecycle by blast
  obtain ob where ob: "slog_StartOperation (Some o') s = Some ob" "\<not> sb_done ob" "sb_observer ob = o'"
    using assms(1) by (auto simp: slog_StartOperation_def admits_def is_nil_def)
  obtain rs where rs: "slog_trace o' now (mid @ [EndEvent e]) (Some ob) = rs @ slog_trace o' now [EndEvent e] (Some ob)"
    "\<And>m. records_of m rs =
        tally is_attempt mid * of_bool (m = ''clientkit attempt completed'' \<and> enabled (lv_attempt (so_levels o'))) +
        tally is_retry mid * of_bool (m = ''clientkit retry scheduled'' \<and> enabled (lv_retry (so_levels o')))"
    using slog_progress [OF assms(1) x(2)] by metis
  let ?level = "if succeeded x then lv_operation_success (so_levels o') else lv_operation_failure (so_levels o')"
  let ?final = "slog_log o' now (oe_ended_at e) ?level ''clientkit operation completed'' (end_group ob e)"
  have "operationSucceeded e \<longleftrightarrow> succeeded x"
    using x(5) by (simp add: operationSucceeded_def ot_operationSucceeded_def)
  then have tr: "tr = rs @ (case ?final of None \<Rightarrow> [] | Some r \<Rightarrow> [r])"
    by (simp add: tr_def x(1) ob rs(1) slog_End_def)
  have "records_of m (case ?final of None \<Rightarrow> [] | Some r \<Rightarrow> [r]) =
      of_bool (m = ''clientkit operation completed'' \<and> enabled ?level)" for m
    using slog_log_admitted [OF assms(1), of now "oe_ended_at e" ?level "''clientkit operation completed''" "end_group ob e"]
    by (cases ?final) auto
  note m = this rs(2) x
  show "records_of ''clientkit operation completed'' (tr) = of_bool (enabled ?level)"
    "records_of ''clientkit attempt completed'' (tr) = attempts x * of_bool (enabled (lv_attempt (so_levels o')))"
    "records_of ''clientkit retry scheduled'' (tr) = retries x * of_bool (enabled (lv_retry (so_levels o')))"
    unfolding tr records_append m by simp_all
qed

end

section \<open>HTTP executions\<close>

definition waits_of :: "http_effect list \<Rightarrow> nat" where
  "waits_of fx = tally (\<lambda>e. case e of Waited _ \<Rightarrow> True | _ \<Rightarrow> False) fx"

text \<open>A stretch of effects with only attempts and retries among its events, and a wait for every retry.\<close>

definition progresses :: "http_effect list \<Rightarrow> nat \<Rightarrow> nat \<Rightarrow> bool" where
  "progresses fx n k \<longleftrightarrow> list_all is_progress (http_lifecycle fx) \<and> tally is_attempt (http_lifecycle fx) = n \<and>
     tally is_retry (http_lifecycle fx) = k \<and> waits_of fx = k"

lemma progresses_append: "progresses fx n k \<Longrightarrow> progresses gx n' k' \<Longrightarrow> progresses (fx @ gx) (n + n') (k + k')"
  by (simp add: progresses_def waits_of_def)

lemma silent_effects:
  "waits_of (map (CloseReceived n) rs) = 0" "waits_of (map CloseRequest bs) = 0"
  by (induction rs; simp add: waits_of_def) (induction bs; simp add: waits_of_def)

lemma progress_parts:
  "progresses (sent_effects op n rq) 1 0" "progresses (retry_effects op n rq) 0 1"
  "progresses (final_effects op n) 0 0" "progresses (opened op n) 0 0"
  "progresses (map CloseRequest bs) 0 0" "progresses [CancelAttempt n] 0 0" "progresses [] 0 0"
  using silent_effects
  by (auto simp: progresses_def waits_of_def sent_effects_def retry_effects_def final_effects_def opened_def
      http_event_def is_progress_def split: option.split)

lemma repeated_progress: "progresses (repeated op m) m m"
proof (induction m)
  case (Suc m)
  have "progresses (again_effects op (int m + 1)) 1 1"
    using progresses_append [OF progress_parts(1,2)] by (simp add: again_effects_def)
  from progresses_append [OF Suc this] show ?case by (simp add: repeated_Suc)
qed (simp add: repeated_def progress_parts)

lemma run_progress:
  assumes "run op m r fx att"
  shows "\<exists>k. progresses (repeated op m @ fx) (length (r_attempts r)) k \<and> k \<le> length (r_attempts r) \<and> length (r_attempts r) \<le> k + 1"
proof -
  have step: "attempt_step op (int m + 1) (records op m) = Done r fx att" using assms by (simp add: run_def)
  have n: "length (records op m) = m" by (simp add: records_def)
  have "\<exists>k. progresses fx (length (r_attempts r) - m) k \<and> m + k \<le> length (r_attempts r) \<and> length (r_attempts r) \<le> m + k + 1"
    using step
  proof (cases rule: step_cases [of op "int m + 1" "records op m"])
    case (unprepared e shut)
    with step have "progresses fx 0 0" "r_attempts r = records op m"
      using progresses_append [OF progress_parts(4) progresses_append [OF progress_parts(5,6)]]
      by (auto simp: stopped_result_def)
    with n show ?thesis by (intro exI [of _ 0]) simp
  next
    case (final rq)
    with step have "progresses fx 1 0" "length (r_attempts r) = Suc m"
      using progresses_append [OF progress_parts(1,3)] n by (auto simp: final_result_def)
    then show ?thesis by (intro exI [of _ 0]) simp
  next
    case (interrupted rq e)
    with step have "progresses fx 1 1" "length (r_attempts r) = Suc m"
      using progresses_append [OF progress_parts(1,2)] n by (auto simp: stopped_result_def)
    then show ?thesis by (intro exI [of _ 1]) simp
  next
    case (total e)
    with step have "progresses fx 0 0" "r_attempts r = records op m"
      using progress_parts(7) by (auto simp: stopped_result_def)
    with n show ?thesis by (intro exI [of _ 0]) simp
  next
    case (again rq)
    with step show ?thesis by simp
  qed
  then obtain k where k: "progresses fx (length (r_attempts r) - m) k" "m + k \<le> length (r_attempts r)"
    "length (r_attempts r) \<le> m + k + 1" by blast
  from progresses_append [OF repeated_progress k(1), of op m] k(2,3) show ?thesis by (intro exI [of _ "m + k"]) simp
qed

lemma execution_lifecycle:
  assumes "observed_execution op = (r, fx)"
  shows "\<exists>mid. http_lifecycle fx = StartOperationEvent (start_event op) # mid @ [EndEvent (end_event op r)] \<and>
     list_all is_progress mid \<and> tally is_attempt mid = length (r_attempts r) \<and> tally is_retry mid = waits_of fx"
    and "waits_of fx \<le> length (r_attempts r)" "length (r_attempts r) \<le> waits_of fx + 1"
proof -
  have "(\<exists>mid. http_lifecycle fx = StartOperationEvent (start_event op) # mid @ [EndEvent (end_event op r)] \<and>
      list_all is_progress mid \<and> tally is_attempt mid = length (r_attempts r) \<and> tally is_retry mid = waits_of fx) \<and>
      waits_of fx \<le> length (r_attempts r) \<and> length (r_attempts r) \<le> waits_of fx + 1"
    using assms
  proof (cases rule: execution_run)
    case (1 m fxd att)
    from run_progress [OF 1(1)] obtain k where k: "progresses (repeated op m @ fxd) (length (r_attempts r)) k"
      "k \<le> length (r_attempts r)" "length (r_attempts r) \<le> k + 1" by blast
    have life: "http_lifecycle fx =
        StartOperationEvent (start_event op) # http_lifecycle (repeated op m @ fxd) @ [EndEvent (end_event op r)]"
      unfolding 1(2) by (simp add: http_event_def)
    have "waits_of fx = waits_of (repeated op m @ fxd)"
      using silent_effects(2) unfolding 1(2) by (simp add: waits_of_def)
    with k life show ?thesis
      by (intro conjI exI [of _ "http_lifecycle (repeated op m @ fxd)"]) (simp_all add: progresses_def)
  qed
  then show "\<exists>mid. http_lifecycle fx = StartOperationEvent (start_event op) # mid @ [EndEvent (end_event op r)] \<and>
      list_all is_progress mid \<and> tally is_attempt mid = length (r_attempts r) \<and> tally is_retry mid = waits_of fx"
    "waits_of fx \<le> length (r_attempts r)" "length (r_attempts r) \<le> waits_of fx + 1" by blast+
qed

lemma end_event_succeeded:
  assumes "observed_execution op = (r, fx)"
  shows "ot_operationSucceeded (end_event op r) \<longleftrightarrow> r_outcome r = OutcomeSuccess"
  using assms
proof (cases rule: execution_run)
  case (1 m fxd att)
  from run_outcome(1,3) [OF 1(1)] show ?thesis by (auto simp: ot_operationSucceeded_def end_event_def is_nil_def)
qed

interpretation http_operation: operation_source "\<lambda>op. http_lifecycle (snd (observed_execution op))"
    "\<lambda>op. r_outcome (fst (observed_execution op)) = OutcomeSuccess" "\<lambda>op. r_failure (fst (observed_execution op))"
    "\<lambda>op. length (r_attempts (fst (observed_execution op)))" "\<lambda>op. waits_of (snd (observed_execution op))"
proof
  fix op
  from execution_lifecycle(1) [OF surjective_pairing, of op] end_event_succeeded [OF surjective_pairing, of op]
  show "\<exists>s mid e. http_lifecycle (snd (observed_execution op)) = StartOperationEvent s # mid @ [EndEvent e] \<and>
      list_all is_progress mid \<and> tally is_attempt mid = length (r_attempts (fst (observed_execution op))) \<and>
      tally is_retry mid = waits_of (snd (observed_execution op)) \<and>
      oe_attempts e = int (length (r_attempts (fst (observed_execution op)))) \<and>
      oe_failure e = r_failure (fst (observed_execution op)) \<and>
      (ot_operationSucceeded e \<longleftrightarrow> r_outcome (fst (observed_execution op)) = OutcomeSuccess)"
    by (fastforce simp: end_event_def)
qed

section \<open>TCP dials\<close>

lemma establish_silent: "tcp_lifecycle (snd (establishConnection c env)) = []"
  by (simp add: establishConnection_def dialConnection_def Let_def tcp_event_def split: option.split prod.split)

interpretation tcp_operation: operation_source "\<lambda>(c, env). tcp_lifecycle (snd (dialObserved c env))"
    "\<lambda>(c, env). tr_outcome (fst (fst (dialObserved c env))) = DialSuccess"
    "\<lambda>(c, env). tr_failure (fst (fst (dialObserved c env)))" "\<lambda>_. 1" "\<lambda>_. 0"
proof (unfold_locales, clarify)
  fix c env
  obtain r m fx where d: "dialObserved c env = ((r, m), fx)" by (metis prod.exhaust)
  have ok: "tcp_result_ok r" using d by (rule dialObserved_parts)
  obtain conn m' err fx1 where e: "establishConnection c env = ((conn, m', err), fx1)" by (metis prod.exhaust)
  have "tcp_lifecycle fx1 = []" using establish_silent [of c env] by (simp add: e)
  with d ok show "\<exists>s mid e. tcp_lifecycle (snd (dialObserved c env)) = StartOperationEvent s # mid @ [EndEvent e] \<and>
      list_all is_progress mid \<and> tally is_attempt mid = 1 \<and> tally is_retry mid = 0 \<and> oe_attempts e = int 1 \<and>
      oe_failure e = tr_failure (fst (fst (dialObserved c env))) \<and>
      (ot_operationSucceeded e \<longleftrightarrow> tr_outcome (fst (fst (dialObserved c env))) = DialSuccess)"
    by (auto simp: dialObserved_def Let_def e tcp_event_def is_progress_def ot_operationSucceeded_def tcp_result_ok_def
        is_nil_def)
qed

end
