(* ===== verification/Release_Check.thy ===== *)
theory Release_Check
  imports Go_Runtime
begin

text \<open>
  \<open>tools/releasecheck\<close>: the command that validates a proposed release version. The packages
  \<open>golang.org/x/mod/module\<close> and \<open>semver\<close> are a parameter.
\<close>

record release_code =
  canonical_version :: "string \<Rightarrow> string"
  build_metadata :: "string \<Rightarrow> string"
  check_module :: "string \<Rightarrow> string \<Rightarrow> goerr option"

datatype release_error =
    ReleaseUsage | ModulePathEmpty | VersionEmpty | VersionNotCanonical string | VersionBuildMetadata string
  | ModuleIncompatible string string goerr

definition validateRelease :: "release_code \<Rightarrow> string \<Rightarrow> string \<Rightarrow> release_error option" where
  "validateRelease u modulePath version =
     (if modulePath = '''' then Some ModulePathEmpty
      else if version = '''' then Some VersionEmpty
      else
        (let canonical = canonical_version u version
         in if canonical = '''' \<or> canonical \<noteq> version then Some (VersionNotCanonical version)
            else if build_metadata u version \<noteq> '''' then Some (VersionBuildMetadata version)
            else map_option (ModuleIncompatible modulePath version) (check_module u modulePath version)))"

definition release_run :: "release_code \<Rightarrow> string list \<Rightarrow> release_error option" where
  "release_run u args = (case args of
     [modulePath, version] \<Rightarrow> validateRelease u modulePath version
   | _ \<Rightarrow> Some ReleaseUsage)"

text \<open>\<open>main\<close>: what is written to the standard error, by its cause, and the exit status.\<close>

definition release_main :: "release_code \<Rightarrow> string list \<Rightarrow> release_error option \<times> nat" where
  "release_main u args = (case release_run u args of None \<Rightarrow> (None, 0) | Some e \<Rightarrow> (Some e, 1))"

lemma release_accepts:
  "snd (release_main u args) = 0 \<longleftrightarrow>
     (\<exists>p v. args = [p, v] \<and> p \<noteq> '''' \<and> v \<noteq> '''' \<and> canonical_version u v = v \<and> build_metadata u v = '''' \<and>
        check_module u p v = None)"
  by (auto simp: release_main_def release_run_def validateRelease_def Let_def split: option.splits list.splits if_splits)

end
