(* ===== verification/Spec2Isabelle.thy ===== *)
theory Spec2Isabelle
  imports Ck_Samples Op_Telemetry Release_Check
begin

text \<open>
  A verification development for Clientkit, a Go library of outbound client foundations: bounded HTTP
  execution, TCP connection and health-check clients, a registry that checks registered clients
  concurrently, and observers that turn the lifecycle of an operation into log records, spans and
  measurements. The model is a translation of the Go sources; names are kept, with a prefix \<open>tcp_\<close>,
  \<open>slog_\<close>, \<open>otel_\<close>, \<open>ot_\<close> or \<open>hotel_\<close> where two packages use the same one.

  The parts and how they interact. A client of either family owns a transport-neutral \<open>Client\<close> (identity,
  readiness policy, cached health, observer) and reports to its observer. \<open>httpclient\<close> runs an operation as a
  loop of attempts over a transport, decides after each attempt whether to repeat it, waits, and hands the
  final response to its caller; its health check is one such operation under its own policy. \<open>tcpclient\<close>
  dials, optionally completes a TLS handshake, and hands the connection to its caller or to a probe. The
  registry stores clients behind an interface, runs their health checks under a bound and one at a time per
  client, and answers status and readiness from cached health.

  Theories, from the bottom.
  \<^item> \<open>Ck_Prelude\<close>: calls into foreign code (\<open>call\<close>: returned or panicked), \<open>recover\<close>, results as sums,
    in-place merge of keyed entries, list facts, the collection \<open>accessors\<close>. \<open>Ck_Steps\<close>: the locale of a step
    system with an invariant and a decreasing amount of work.
  \<^item> \<open>Go_Bytes\<close>, \<open>Go_Runtime\<close>, \<open>Go_Http\<close>, \<open>Go_Float\<close>: what the sources use of Go. Strings are byte lists with
    their UTF-8 decoding; durations are integers in the int64 range with saturating subtraction; errors are
    trees searched by \<open>errors.Is\<close> and \<open>errors.As\<close>; header maps, URLs, requests and responses; binary64 with
    round-to-nearest-even. \<open>Go_Runtime\<close> also holds \<open>internal/configvalue\<close>.
  \<^item> \<open>Ck_Failure\<close> (\<open>failure.go\<close>, \<open>internal/failure\<close>), \<open>Ck_Health\<close> (\<open>health.go\<close>, \<open>readiness.go\<close>), \<open>Ck_Observer\<close>
    (\<open>observer.go\<close>), \<open>Ck_Client\<close> (\<open>client.go\<close>, \<open>config.go\<close>, \<open>protocol.go\<close>, \<open>internal/healthrecord\<close>).
  \<^item> \<open>Http_Classifier\<close>, \<open>Http_Retry\<close>, \<open>Http_Delay\<close>, \<open>Http_Options\<close>, \<open>Http_Headers\<close>, \<open>Http_Config\<close>, \<open>Http_Policy\<close>,
    \<open>Http_Cleanup\<close>, \<open>Http_Do\<close>, \<open>Http_Check\<close>: the files of \<open>httpclient/\<close>. \<open>Http_Loop\<close>, \<open>Http_Effects\<close> and
    \<open>Http_Api\<close> hold no code; they prove what every execution satisfies.
  \<^item> \<open>Tcp_Config\<close>, \<open>Tcp_Dial\<close>, \<open>Tcp_Check\<close>: the files of \<open>tcpclient/\<close>.
  \<^item> \<open>Ck_Registry\<close> (\<open>registry.go\<close>, \<open>registered_client.go\<close>), \<open>Ck_Opskit\<close> (\<open>opskit.go\<close>), \<open>Ck_CheckAll\<close> (the goroutines
    of \<open>Registry.CheckAll\<close>), \<open>Ck_Compose\<close> (HTTP and TCP clients in one registry).
  \<^item> \<open>Obs_Merge\<close>, \<open>Slog_Observer\<close> (\<open>slogobserver/\<close>), \<open>Otel_Observer\<close> (\<open>otel/\<close>), \<open>Http_Otel\<close> (\<open>internal/httpotel\<close> and
    \<open>httpclient/otel\<close>), \<open>Release_Check\<close> (\<open>tools/releasecheck\<close>). \<open>Op_Telemetry\<close> holds no code; it runs the
    observers on the events of executions and dials.
  \<^item> \<open>Http_Samples\<close>, \<open>Client_Samples\<close>, \<open>Ck_Samples\<close>: the values the witnesses are evaluated on.

  State and operations. A Go struct is a record whose fields carry a two-letter prefix, a nil pointer is
  \<open>None\<close>, and a method that writes its receiver returns the new record. A shared object is explicit where
  aliasing matters: attribute slices live in a \<open>memory\<close> of backing arrays (\<open>Ck_Observer\<close>), resend counters in
  a store of cells (\<open>Http_Otel\<close>), the slots and permits of the registry in the registry itself. An operation
  that performs effects returns them in order as a list of a \<open>datatype\<close> (\<open>http_effect\<close>, \<open>tcp_effect\<close>,
  \<open>otel_effect\<close>, \<open>trip_effect\<close>). Concurrency is a step relation: \<open>body_step\<close> for the release of a returned
  body, whose triggers (a read or write error, a close, the end of the context) are steps like the others;
  \<open>call_step\<close> and \<open>system_step\<close> for overlapping calls of \<open>CheckAll\<close>, where one step is one channel
  operation, one poll of a context or one section under the mutex, and the end of a context is a step. The
  goroutine that \<open>context.AfterFunc\<close> starts for a cancelled TCP probe closes the connection with an effect
  of its own, \<open>ConnClosedOnCancel\<close>, at one of the places of \<open>cancel_close\<close>.

  Parameters. What an execution meets is a script: \<open>do_env\<close> and \<open>attempt_env\<close> (clock, contexts, transport,
  \<open>GetBody\<close>, classifier, random draw), \<open>dial_env\<close>, \<open>tcp_check_env\<close>, \<open>check_script\<close>. Code outside the
  repository is an argument: \<open>math.Pow\<close> and \<open>http.ParseTime\<close> (\<open>go_code\<close>), \<open>net/url\<close> parsing and printing
  (\<open>url_code\<close>, \<open>trip_code\<close>), \<open>net.ParseIP\<close>, the case folding of runes beyond ASCII, callers' observers,
  propagators, classifiers, sanitizers and dialers, the constructors of the \<open>opskit\<close> module (\<open>opskit_code\<close>),
  the names of the OpenTelemetry conventions (\<open>semconv\<close>) and whether the SDK can create an instrument, the
  handler of \<open>log/slog\<close>, and \<open>golang.org/x/mod\<close> (\<open>release_code\<close>). No property assumes more of them than its
  statement shows.

  Bounds. The attempt loop recurses over the number of attempts its condition leaves, so it needs no fuel.
  Redirects of one attempt are a list of hops. The loops over runes end because each step shortens the
  string. The step systems carry a measure (\<open>body_work\<close>, \<open>system_work\<close>) that every step lowers, so no
  bound on schedules is chosen.

  Interfaces. Each contract several parts share is a locale interpreted on the definitions that meet it:
  \<open>duration_resolver\<close>, \<open>identifier_validator\<close> (client name and protocol), \<open>sanitizer\<close>, \<open>callback\<close> and
  \<open>start_callback\<close> (every method of an observer), \<open>status_classifier\<close> (exact, range and set),
  \<open>contained_propagator\<close> (safe, composed and context propagators), \<open>round_tripper\<close> (header injection and
  instrumentation), \<open>ordered_merge\<close> (log and span attributes), \<open>managed_client\<close> (HTTP and TCP clients seen by
  the registry), \<open>operation_source\<close> (HTTP executions and TCP dials seen by the observers) and \<open>measured_system\<close> (body lifecycle and \<open>CheckAll\<close>).

  What the properties show. C1 to C7: every execution repeats only what it may repeat, keeps its bounds,
  emits its events in protocol order, and accounts for every request and response body. C8 to C13: under
  every interleaving checks of one client are serialized, running checks are bounded, no state is stuck,
  every schedule ends, and the results are those of atomic checks in name order that poll the context of
  their call, none of them accepted after its end. C14 to C22: registration,
  lookup, snapshots, publication of outcomes, context boundaries, sanitization and readiness. C23 to C30: the
  two families in one registry, what their checks report and show, who owns a dialed connection, and that
  construction yields well-formed clients. C31 to C40: origin and redirect policy, backoff, response bodies,
  context headers, containment of observers, and what telemetry reports, accounts for and hides.

  Not modelled. The examples (programs that use the library) and the package documentation (comments).
  Declarations of interfaces have no body to translate; their methods appear as the \<open>call\<close> a caller's code
  answers. A panic of a caller's transport, dialer or TLS configuration is not contained by the code and not
  part of a script. The proxy, dial and pool behaviour of \<open>net/http\<close> behind \<open>DefaultTransport\<close> is foreign; its
  settings are \<open>DefaultTransportSettings\<close>. Error texts are modelled where the code returns them to be shown or
  compared; elsewhere an error is its constructor. Attempt numbers and other small counts are integers
  without a width; durations and the arithmetic on them have theirs. That a caller ends up closing a body or
  that a context ends is not promised by the code: C35 speaks of the schedules in which it has happened.
\<close>

section \<open>The HTTP execution loop\<close>

text \<open>C1. Every attempt that was followed by another one passed all the gates: the body of the request
  can be replayed, the operation is semantically repeatable (an idempotent method, or the caller's
  assertion), and the resolved policy lists the method and admits the outcome. A policy failure is
  never repeated.\<close>

theorem retries_pass_every_gate:
  assumes "Suc i < length (r_attempts (fst (ExecuteWithOptions go env c request options)))"
  shows "\<exists>cl rq p. c = Some cl \<and> request = Some rq \<and>
     resolveExecutionRetry (hc_retry cl) (eo_retry options) = Inr p \<and>
     requestBodyIsReplayable (Some rq) \<and>
     (eo_retry_safety options = RetrySafetyIdempotent \<or>
      eo_retry_safety options = RetrySafetyDefault \<and> methodIsIdempotent (rq_method rq)) \<and>
     (let a = r_attempts (fst (ExecuteWithOptions go env c request options)) ! i
      in shouldRetry (erp_config p) (normalizedHTTPMethod (rq_method rq)) (a_outcome a) (a_failure a)
           (a_status a) (a_err a) \<and> a_failure a \<noteq> FailurePolicy)"
  by (rule execute_repeats_gates [OF surjective_pairing assms])

theorem retries_pass_every_gate_witness:
  "\<exists>cl rq p. Some sample_client = Some cl \<and> Some (sample_request ''GET'') = Some rq \<and>
     resolveExecutionRetry (hc_retry cl) (eo_retry zero_options) = Inr p \<and>
     requestBodyIsReplayable (Some rq) \<and>
     (eo_retry_safety zero_options = RetrySafetyIdempotent \<or>
      eo_retry_safety zero_options = RetrySafetyDefault \<and> methodIsIdempotent (rq_method rq)) \<and>
     (let a = r_attempts (fst sample_execution) ! 0
      in shouldRetry (erp_config p) (normalizedHTTPMethod (rq_method rq)) (a_outcome a) (a_failure a)
           (a_status a) (a_err a) \<and> a_failure a \<noteq> FailurePolicy)"
  using retries_pass_every_gate [of 0 sample_go sample_env "Some sample_client" "Some (sample_request ''GET'')"
      zero_options, folded sample_execution_def] sample_execution_facts
  by simp

text \<open>C2. The number of attempts is bounded by the resolved policy, they are numbered from one without
  gaps, and exactly one transport call is made for each.\<close>

theorem attempts_are_bounded:
  assumes "http_inv c"
  shows "int (length (r_attempts (fst (ExecuteWithOptions go env (Some c) request options)))) \<le>
       (case resolveExecutionRetry (hc_retry c) (eo_retry options) of Inl _ \<Rightarrow> 0 | Inr p \<Rightarrow> rc_max_attempts (erp_config p)) \<and>
     sends_of (snd (ExecuteWithOptions go env (Some c) request options)) =
       map (\<lambda>i. int i + 1) [0..<length (r_attempts (fst (ExecuteWithOptions go env (Some c) request options)))]"
  using execute_attempt_bound [OF surjective_pairing assms] execute_sends [OF surjective_pairing] by blast

theorem attempts_are_bounded_witness:
  "length (r_attempts (fst sample_execution)) = 2 \<and> sends_of (snd sample_execution) = [1, 2]"
  using attempts_are_bounded [OF sample_client_inv, of sample_go sample_env "Some (sample_request ''GET'')"
      zero_options, folded sample_execution_def] sample_execution_facts
  by (simp add: upt_rec)

text \<open>C3. The effects of every execution follow the protocol: one start event, then for each attempt a
  send, the closing of a response the context overtook and one attempt event; between two attempts a
  drain, one retry event and the wait it announces; one end event at last.\<close>

theorem effects_follow_protocol:
  "protocol Before (snd (observed_execution op)) = Some Ended \<and>
   sends_of (snd (observed_execution op)) = map a_number (r_attempts (fst (observed_execution op)))"
  using execution_protocol [OF surjective_pairing] execution_sends [OF surjective_pairing] by blast

text \<open>C4. A response an attempt received is owned by somebody: it was closed because the context had
  ended, or drained and closed before a retry, or it is the response handed to the caller, and then it
  came from the last attempt.\<close>

theorem responses_are_owned:
  assumes "i < length (r_attempts (fst (observed_execution op)))"
    and "at_response (de_attempt (op_env op) (int i + 1)) = Some x" "rs_body x \<noteq> NilBody"
  shows "CloseReceived (int i + 1) x \<in> set (snd (observed_execution op)) \<or>
     DrainClose (int i + 1) (Some x) \<in> set (snd (observed_execution op)) \<or>
     (r_response (fst (observed_execution op)) = Some x \<and> Suc i = length (r_attempts (fst (observed_execution op))))"
  by (rule execution_owns_responses [OF surjective_pairing assms])

theorem responses_are_owned_witness:
  "CloseReceived 1 (sample_response 503) \<in> set (snd (observed_execution sample_operation)) \<or>
   DrainClose 1 (Some (sample_response 503)) \<in> set (snd (observed_execution sample_operation))"
  using responses_are_owned [of 0 sample_operation "sample_response 503"] sample_operation_facts
  by (simp add: sample_operation_response)

text \<open>C5. The outcome, the failure class, the error and the response of a result agree: success is the
  absence of a failure class and of an error; without an error there is a response; a response beside an
  error is a rejected redirect, a policy failure.\<close>

theorem results_are_consistent:
  assumes "ExecuteWithOptions go env c request options = (r, fx)"
  shows "(r_outcome r = OutcomeSuccess \<longleftrightarrow> r_failure r = FailureNone) \<and>
     (r_outcome r = OutcomeSuccess \<longrightarrow> r_err r = None) \<and>
     (r_err r = None \<longrightarrow> r_response r \<noteq> None) \<and>
     (r_response r \<noteq> None \<and> r_err r \<noteq> None \<longrightarrow> r_failure r = FailurePolicy)"
  using execute_outcome [OF assms] by blast

theorem results_are_consistent_witness:
  "r_failure (fst sample_execution) = FailureNone \<and> r_err (fst sample_execution) = None \<and>
   r_response (fst sample_execution) \<noteq> None"
  using results_are_consistent [OF surjective_pairing, of sample_go sample_env "Some sample_client"
      "Some (sample_request ''GET'')" zero_options, folded sample_execution_def] sample_execution_facts
  by simp

text \<open>C6. The client takes ownership of the request body: if no attempt was sent, the body has been
  closed when the call returns, whatever refused the request.\<close>

theorem unsent_body_is_closed:
  assumes "r_attempts (fst (ExecuteWithOptions go env c (Some rq) options)) = []" "has_stream (rq_body rq)"
  shows "CloseRequest (rq_body rq) \<in> set (snd (ExecuteWithOptions go env c (Some rq) options))"
  by (rule execute_unsent_body [OF surjective_pairing assms])

theorem unsent_body_is_closed_witness: "CloseRequest (Stream 7 False) \<in> set (snd refused_execution)"
  using unsent_body_is_closed [of sample_go sample_env "Some sample_client" foreign_request zero_options,
      folded refused_execution_def] refused_execution_facts
  by (simp add: foreign_request_def)

text \<open>C7. Whatever the server asks for and whatever the random draw, a wait between attempts is within
  the policy: never negative, never beyond the int64 range, and at most the larger of the two configured
  caps.\<close>

theorem waits_are_bounded:
  assumes "http_inv c" "resolveExecutionRetry (hc_retry c) (eo_retry options) = Inr p"
    and "rc_max_backoff (erp_config p) \<le> max_duration" "rc_max_retry_after (erp_config p) \<le> max_duration"
    and "Waited d \<in> set (snd (ExecuteWithOptions go env (Some c) request options))"
  shows "0 \<le> d \<and> d \<le> max_duration \<and>
     (rc_max_backoff (erp_config p) = 0 \<or> d \<le> max (rc_max_backoff (erp_config p)) (rc_max_retry_after (erp_config p)))"
  by (rule execute_waits_client [OF surjective_pairing assms(5,1,2,3,4)])

theorem waits_are_bounded_witness:
  "Waited 0 \<in> set (snd sample_execution) \<and>
   (0::duration) \<le> max (rc_max_backoff sample_retry) (rc_max_retry_after sample_retry)"
  using waits_are_bounded [of sample_client zero_options
      "\<lparr>erp_config = cloneRetryConfig sample_retry, erp_source = RetryPolicySourceClient\<rparr>" 0 sample_go sample_env
      "Some (sample_request ''GET'')", folded sample_execution_def] sample_execution_facts sample_client_inv
    resolveExecutionRetry_inherit [of sample_retry]
  by (simp add: waits_zero_iff sample_client_def cloneRetryConfig_def sample_retry_def DefaultRetryConfig_def
      zero_options_def max_duration_def Second_def)

section \<open>Concurrent checks of the registry\<close>

text \<open>C8. However the goroutines of overlapping \<open>CheckAll\<close> calls interleave with each other, with the ends
  of their contexts and with registrations, at most one worker holds the slot of a client: two workers
  that hold the slot of the same name are the same worker of the same call.\<close>

theorem checks_of_a_client_are_serialized:
  assumes "unused_registry r0" "reachable_checks ok r0 s"
    and "busy s k w i" "busy s k' w' i'"
    and "checker_name (sy_calls s ! k) i = checker_name (sy_calls s ! k') i'"
  shows "k = k' \<and> w = w'"
  using one_holder [OF _ assms(3-5)] system_tokens [OF reachable_system_inv [OF assms(1,2)]] by blast

theorem checks_of_a_client_are_serialized_witness:
  "busy sample_system 0 0 0 \<and> ((0::nat) = 0 \<and> (0::nat) = 0)"
  using checks_of_a_client_are_serialized [OF sample_unused sample_system_reachable sample_busy sample_busy refl]
    sample_busy
  by blast

text \<open>C9. The configured concurrency bound holds across all overlapping calls: in every reachable state the
  checkers that are running number at most the normalized bound of the registry, and the permits taken
  are exactly these.\<close>

theorem running_checks_are_bounded:
  assumes "unused_registry r0" "reachable_checks ok r0 s"
  shows "rg_permits (sy_registry s) = sum_list (map running (sy_calls s)) \<and>
     int (sum_list (map running (sy_calls s))) \<le> normalizedMaxConcurrentChecks (Some r0)"
  using reachable_system_inv [OF assms] reachable_max [OF assms] max_checks_pos [of "Some r0"]
  by (auto simp: system_inv_def max_permits_def)

theorem running_checks_are_bounded_witness:
  "int (sum_list (map running (sy_calls sample_system))) \<le> normalizedMaxConcurrentChecks (Some sample_registry)"
  using running_checks_are_bounded [OF sample_unused sample_system_reachable] by blast

text \<open>C10. No deadlock: in every reachable state, as long as some call has not finished, some goroutine has a
  step; so a schedule that has run out of steps has finished every call.\<close>

theorem check_all_never_blocks:
  assumes "unused_registry r0" "reachable_checks ok r0 s" "c \<in> set (sy_calls s)" "\<not> call_finished c"
  shows "\<exists>s'. goroutine_step ok s s'"
  using reachable_system_inv [OF assms(1,2)] assms(3,4) by (rule system_progress)

theorem check_all_never_blocks_witness: "\<exists>s'. goroutine_step sample_opskit sample_system s'"
proof (rule check_all_never_blocks [OF sample_unused sample_system_reachable])
  show "hd (sy_calls sample_system) \<in> set (sy_calls sample_system)" by (simp add: sample_system_def)
  show "\<not> call_finished (hd (sy_calls sample_system))"
    by (simp add: sample_system_def call_finished_def sample_waiting_def sample_call_facts)
qed

text \<open>C11. \<open>CheckAll\<close> returns under every schedule: the goroutines of the calls of a reachable state take at
  most a number of steps that is fixed by the state, and there is a schedule that finishes all of them.\<close>

theorem check_all_terminates:
  assumes "unused_registry r0" "reachable_checks ok r0 s"
  shows "(\<forall>n s'. (goroutine_step ok ^^ n) s s' \<longrightarrow> n \<le> system_work s) \<and>
     (\<exists>s'. (goroutine_step ok)\<^sup>*\<^sup>* s s' \<and> (\<forall>c \<in> set (sy_calls s'). call_finished c))"
  using checks.run_length [OF _ reachable_system_inv [OF assms]] checks.completes [OF reachable_system_inv [OF assms]]
  by fastforce

theorem check_all_terminates_witness:
  "\<exists>s'. (goroutine_step sample_opskit)\<^sup>*\<^sup>* sample_system s' \<and> (\<forall>c \<in> set (sy_calls s'). call_finished c)"
  using check_all_terminates [OF sample_unused sample_system_reachable] by blast



text \<open>C13. A finished call whose context never ended is complete: there is a result for every enabled
  checker, in their order, and the summary is the one opskit makes of them; otherwise the summary is
  failed and not ready.\<close>

theorem finished_calls_are_complete:
  assumes "unused_registry r0" "reachable_checks ok r0 s" "c \<in> set (sy_calls s)" "call_finished c"
  shows "if ca_ctx c = None
     then map nd_name (call_results c) = map nk_name (ca_checkers c) \<and>
       summarize_slots ok t (ca_slots c) None = ok_summarize ok '''' (to_utc t) (call_results c)
     else sm_state (summarize_slots ok t (ca_slots c) (ca_ctx c)) = StateFailed \<and>
       \<not> sm_ready (summarize_slots ok t (ca_slots c) (ca_ctx c))"
  using finished_results [OF reachable_system_inv [OF assms(1,2)] assms(3,4)]
  by (simp add: summarize_slots_def Let_def)

theorem finished_calls_are_complete_witness:
  "\<exists>c :: int check_call. call_finished c \<and> map nd_name (call_results c) = [''ledger'', ''payments'']"
proof -
  obtain s c where c: "reachable_checks sample_opskit sample_registry s" "c \<in> set (sy_calls s)" "call_finished c"
    "ca_ctx c = None" "map nk_name (ca_checkers c) = [''ledger'', ''payments'']"
    using sample_finished by (elim exE conjE)
  with finished_calls_are_complete [OF sample_unused c(1-3)] show ?thesis by auto
qed

section \<open>The registry\<close>

text \<open>C14. Registration is atomic and total: either an error is returned and the registry is what it was,
  or exactly the batch is appended, in argument order, under names that are valid, distinct and new.\<close>

theorem registration_is_atomic:
  "case RegisterAll (Some r) cs of
     (Some _, r') \<Rightarrow> r' = Some r
   | (None, r') \<Rightarrow> \<exists>vs. r' = Some (r\<lparr>rg_clients := rg_clients r @ map (\<lambda>v. (vr_name v, entry_of v)) vs\<rparr>) \<and>
       map (\<lambda>v. Some (vr_client v)) vs = cs \<and> distinct (map vr_name vs) \<and>
       set (map vr_name vs) \<inter> set (map fst (rg_clients r)) = {} \<and>
       list_all (\<lambda>v. entry_ok (vr_name v) (entry_of v)) vs"
proof -
  obtain e r' where e: "RegisterAll (Some r) cs = (e, r')" by fastforce
  then show ?thesis
    by (cases rule: RegisterAll_cases) (auto simp: e list_all_iff)
qed

text \<open>C15. Registering and looking up: after a successful registration every client of the batch is found
  under the name it reported, which was free before, and every other lookup is unchanged.\<close>

theorem registered_clients_are_found:
  assumes "RegisterAll (Some r) cs = (None, r')"
  shows "(\<forall>c n. Some c \<in> set cs \<and> gc_name c = Returned n \<longrightarrow> Get r' n = Some c \<and> Get (Some r) n = None) \<and>
     (\<forall>n. (\<forall>c. Some c \<in> set cs \<longrightarrow> gc_name c \<noteq> Returned n) \<longrightarrow> Get r' n = Get (Some r) n)"
  using RegisterAll_Get [OF assms] by blast

theorem registered_clients_are_found_witness:
  "Get (Some sample_registry) ''ledger'' = Some (sample_registered ''ledger'' 2 ReadinessOptional)"
  using registered_clients_are_found [OF sample_registration]
  by (auto simp: sample_clients_def sample_registered_def)

text \<open>C16. The invariant of the registry (distinct names; of every entry a valid name, protocol and policy,
  and a blocking policy of a checkable client only with the check enabled) is kept by registration, by
  the publication of an outcome and by a whole check of a client.\<close>

theorem registry_invariant_is_kept:
  assumes "registry_inv r"
  shows "(RegisterAll (Some r) cs = (e, Some r1) \<longrightarrow> registry_inv r1) \<and>
     (applyHealthCheckOutcome (Some r) name h t synthetic = Some r2 \<longrightarrow> registry_inv r2) \<and>
     (checkClientHealth (Some r) entry s = (h', Some r3) \<longrightarrow> registry_inv r3)"
  using assms RegisterAll_inv same_members_inv applyHealthCheckOutcome_members check_members by blast

theorem registry_invariant_is_kept_witness: "registry_inv sample_registry"
  using registry_invariant_is_kept [OF NewRegistry_inv] sample_registration by blast

text \<open>C17. The snapshot is canonical: it lists every registered client exactly once, in strictly increasing
  order of the names, and does not depend on the order in which the map of clients is visited.\<close>

theorem snapshot_is_canonical:
  assumes "registry_inv r" "mset m = mset (rg_clients r)"
  shows "Snapshot (Some (r\<lparr>rg_clients := m\<rparr>)) reads = Snapshot (Some r) reads \<and>
     sorted_wrt (<) (map cs_name (Snapshot (Some r) reads)) \<and>
     set (map cs_name (Snapshot (Some r) reads)) = set (map fst (rg_clients r))"
proof (intro conjI)
  show "Snapshot (Some (r\<lparr>rg_clients := m\<rparr>)) reads = Snapshot (Some r) reads" by (rule Snapshot_order [OF assms])
  show "sorted_wrt (<) (map cs_name (Snapshot (Some r) reads))" by (rule Snapshot_strict [OF assms(1)])
  show "set (map cs_name (Snapshot (Some r) reads)) = set (map fst (rg_clients r))"
    by (simp only: Snapshot_names set_sort)
qed

theorem snapshot_is_canonical_witness:
  "map cs_name (Snapshot (Some (sample_registry\<lparr>rg_clients := rev (rg_clients sample_registry)\<rparr>)) (\<lambda>_. Panicked)) =
   map cs_name (Snapshot (Some sample_registry) (\<lambda>_. Panicked))"
  using snapshot_is_canonical [OF sample_registry_inv, of "rev (rg_clients sample_registry)"] by simp

text \<open>C18. A failure the registry synthesized is what the snapshot shows of the client, as long as the
  client's own assessment is not younger.\<close>

theorem synthetic_failures_are_shown:
  assumes "registry_inv r" "map_of (rg_clients r) name = Some e"
    and "\<forall>ov. ge_synthetic e = Some ov \<longrightarrow> instant (ov_decided_at ov) \<le> instant t"
    and "instant (h_checked_at (registeredClientHealth (reads (gc_id (ge_client e))))) \<le> instant t"
    and "applyHealthCheckOutcome (Some r) name h t True = Some r'"
  shows "\<exists>x \<in> set (Snapshot (Some r') reads). cs_name x = name \<and> cs_health x = h"
  using assms(5,2,3,4,1) by (rule synthetic_shows)

theorem synthetic_failures_are_shown_witness:
  "\<exists>r'. \<exists>x \<in> set (Snapshot (Some r') (\<lambda>_. Panicked)). cs_name x = ''ledger'' \<and>
     cs_health x = clientHealthCheckContextFailure Canceled ''before execution'' (now_at 7)"
proof -
  let ?h = "clientHealthCheckContextFailure Canceled ''before execution'' (now_at 7)"
  obtain r' where r': "applyHealthCheckOutcome (Some sample_registry) ''ledger'' ?h (now_at 7) True = Some r'"
    using apply_some by blast
  have "map_of (rg_clients sample_registry) ''ledger'' =
      Some (sample_entry (sample_registered ''ledger'' 2 ReadinessOptional) ReadinessOptional)"
    by (simp add: sample_registry_def)
  from synthetic_failures_are_shown [OF sample_registry_inv this _ _ r', of "\<lambda>_. Panicked"] show ?thesis
    by (auto simp: sample_entry_def registeredClientHealth_def now_at_def zero_time_def)
qed

text \<open>C19. Outcomes are published in the order of their decisions: publishing one leaves every other entry and
  the rest of the registry as they were and changes nothing but the override of its client; an outcome
  decided before that override changes nothing at all; a later one replaces it, by its health if it was
  synthesized and by nothing if the client reported it.\<close>

theorem older_outcomes_change_nothing:
  assumes "applyHealthCheckOutcome (Some r) name h t synthetic = Some r'"
  shows "map fst (rg_clients r') = map fst (rg_clients r) \<and> r'\<lparr>rg_clients := rg_clients r\<rparr> = r \<and>
     (\<forall>n. n \<noteq> name \<longrightarrow> map_of (rg_clients r') n = map_of (rg_clients r) n) \<and>
     (\<forall>e. map_of (rg_clients r) name = Some e \<longrightarrow>
       (if \<exists>ov. ge_synthetic e = Some ov \<and> instant t < instant (ov_decided_at ov) then r' = r
        else map_of (rg_clients r') name = Some (e\<lparr>ge_synthetic :=
          (if synthetic then Some \<lparr>ov_health = h, ov_decided_at = t\<rparr> else None)\<rparr>)))"
  using assms
proof (cases rule: applyHealthCheckOutcome_cases)
  case (applied e)
  then have keys: "map fst (rg_clients r') = map fst (rg_clients r)" "r'\<lparr>rg_clients := rg_clients r\<rparr> = r"
    using map_of_key [OF applied(1)] by (simp_all add: update_same_keys)
  have "\<not> (\<exists>ov. ge_synthetic e = Some ov \<and> instant t < instant (ov_decided_at ov))"
    using applied(2) by (auto simp: not_less)
  with keys applied show ?thesis by (auto simp: update_conv)
qed auto

theorem older_outcomes_change_nothing_witness:
  "applyHealthCheckOutcome (Some overridden_registry) ''ledger'' (health_of HealthHealthy FailureNone '''')
     (now_at 5) False = Some overridden_registry"
proof -
  obtain r' where r': "applyHealthCheckOutcome (Some overridden_registry) ''ledger''
      (health_of HealthHealthy FailureNone '''') (now_at 5) False = Some r'"
    using apply_some by blast
  have e: "map_of (rg_clients overridden_registry) ''ledger'' = Some overridden_entry"
    "ge_synthetic overridden_entry = Some sample_override" "instant (now_at 5) < instant (ov_decided_at sample_override)"
    by (simp_all add: overridden_registry_def overridden_entry_def sample_override_def now_at_def)
  with older_outcomes_change_nothing [OF r'] r' show ?thesis by auto
qed

text \<open>C20. A check that crossed the end of its context is rejected, whatever the checker answered: it
  returns an unknown health with the failure class of the context error, already publishable.\<close>

theorem crossed_checks_are_rejected:
  assumes "crossed_context s = Some e"
  shows "h_state (fst (checkClientHealth r entry s)) = HealthUnknown \<and>
     h_failure (fst (checkClientHealth r entry s)) =
       (case e of DeadlineExceeded \<Rightarrow> FailureTimeout | Canceled \<Rightarrow> FailureCanceled) \<and>
     publishable (fst (checkClientHealth r entry s))"
  using check_rejected [OF assms, of r entry] by (cases "checkClientHealth r entry s") simp

theorem crossed_checks_are_rejected_witness:
  "h_failure (fst (checkClientHealth (Some sample_registry) (hd (healthCheckersSnapshot (Some sample_registry)))
     late_script)) = FailureTimeout"
  using crossed_checks_are_rejected [of late_script DeadlineExceeded "Some sample_registry"
      "hd (healthCheckersSnapshot (Some sample_registry))"]
  by (simp add: crossed_context_def late_script_def)

text \<open>C21. With the default sanitizer the registry publishes nothing else than sanitized health: in every
  state that concurrent checks reach, every health a snapshot shows has a known state and failure class,
  a canonical time, no negative duration, and a short message of visible characters.\<close>

theorem published_health_is_publishable:
  assumes "unused_registry r0" "rg_sanitizer r0 = Some DefaultHealthSanitizer" "overrides_publishable r0"
    and "reachable_checks ok r0 s" "x \<in> set (Snapshot (Some (sy_registry s)) reads)"
  shows "publishable (cs_health x)"
  using default_san.Snapshot_publishable default_san.reachable_overrides [OF assms(1-4)] assms(5) by blast

theorem published_health_is_publishable_witness:
  "publishable (cs_health (hd (Snapshot (Some (sy_registry sample_system)) (\<lambda>_. Panicked))))"
proof (rule published_health_is_publishable [OF sample_unused _ _ sample_system_reachable])
  show "rg_sanitizer sample_registry = Some DefaultHealthSanitizer" "overrides_publishable sample_registry"
    by (simp_all add: sample_registry_def NewRegistry_def overrides_publishable_def sample_entry_def)
  have "length (Snapshot (Some (sy_registry sample_system)) (\<lambda>_. Panicked)) = 2"
    by (simp add: Snapshot_def sample_system_def set_slot_def sample_registry_def)
  then show "hd (Snapshot (Some (sy_registry sample_system)) (\<lambda>_. Panicked)) \<in>
      set (Snapshot (Some (sy_registry sample_system)) (\<lambda>_. Panicked))" by (intro list.set_sel) auto
qed

text \<open>C22. The aggregate status and the readiness report agree: the report is ready exactly if the status
  is ready or degraded, which is when there is a client and every blocking client satisfies its policy.\<close>

theorem status_agrees_with_readiness:
  assumes "registry_inv r"
  shows "(rd_ready (Readiness (Some r) reads) \<longleftrightarrow>
       fst (aggregate_status (Snapshot (Some r) reads)) \<in> {StateReady, StateDegraded}) \<and>
     (rd_ready (Readiness (Some r) reads) \<longleftrightarrow> Snapshot (Some r) reads \<noteq> [] \<and>
       (\<forall>c \<in> set (Snapshot (Some r) reads). BlocksReadiness (cs_policy c) \<longrightarrow>
          readinessSatisfied (cs_policy c) (h_state (cs_health c))))"
  using status_readiness [OF assms] readiness_ready_iff [of "Some r" reads] by blast

theorem status_agrees_with_readiness_witness:
  "rd_ready (Readiness (Some sample_registry) (\<lambda>_. Panicked)) \<longleftrightarrow>
     fst (aggregate_status (Snapshot (Some sample_registry) (\<lambda>_. Panicked))) \<in> {StateReady, StateDegraded}"
  using status_agrees_with_readiness [OF sample_registry_inv] by blast

section \<open>Client families in one registry\<close>

text \<open>C23. Constructed clients of both families meet the contract of the registry: an HTTP and a TCP client
  with different, unused names can always be registered in one batch, whatever their configurations, and
  each is then found under its own name.\<close>

theorem families_register_together:
  assumes "New ext uc od cfg = Inr c" "tcp_New ext is_ip telemetry tcfg = Inr d"
    and "http_name (Some c) \<noteq> tcp_name (Some d)" "registry_inv r"
    and "Get (Some r) (http_name (Some c)) = None" "Get (Some r) (tcp_name (Some d)) = None"
  shows "\<exists>r'. RegisterAll (Some r) [Some (http_registered i c), Some (tcp_registered j d)] = (None, Some r') \<and>
     registry_inv r' \<and> Get (Some r') (http_name (Some c)) = Some (http_registered i c) \<and>
     Get (Some r') (tcp_name (Some d)) = Some (tcp_registered j d)"
proof -
  obtain r' where r': "RegisterAll (Some r) [Some (http_registered i c), Some (tcp_registered j d)] = (None, Some r')"
    using families_register [OF New_inv [OF assms(1)] tcp_New_inv [OF assms(2)] assms(3,5,6)] by blast
  have "gc_name (http_registered i c) = Returned (http_name (Some c))"
    "gc_name (tcp_registered j d) = Returned (tcp_name (Some d))"
    by (simp_all add: http_registered_def tcp_registered_def registered_view_def)
  with RegisterAll_Get(1) [OF r'] RegisterAll_inv [OF r' assms(4)] r' show ?thesis by auto
qed

theorem families_register_together_witness:
  "\<exists>r'. RegisterAll (Some NewRegistry) [Some (http_registered 1 http_built), Some (tcp_registered 2 tcp_built)] =
       (None, Some r') \<and> Get (Some r') ''payments'' = Some (http_registered 1 http_built)"
  using families_register_together [OF http_built tcp_built _ NewRegistry_inv, of 1 2]
  by (auto simp: built_names NewRegistry_def Get_def)

text \<open>C24. The obligation of a health checker: what an enabled HTTP check returned is what the client shows
  afterwards, as it is while it is fresh and as unknown once it is stale; the check keeps the client valid
  and does not change what the registry captured of it.\<close>

theorem http_checks_are_visible:
  assumes "http_inv c" "nc_enabled (hc_check c)" "Check go uc env (Some c) has_ctx = res"
  shows "\<exists>c'. ck_client res = Some c' \<and> http_inv c' \<and> http_registered i c' = http_registered i c \<and>
     http_health (Some c') now = ProjectStaleness (ck_health res) (nc_stale_after (hc_check c)) ''HTTP health check'' now \<and>
     (fresh (ck_health res) (nc_stale_after (hc_check c)) now \<longrightarrow> http_health (Some c') now = ck_health res)"
proof -
  obtain k where k: "hc_core c = Some k" using http_inv_core [OF assms(1)] by blast
  then obtain c' where c': "ck_client res = Some c'" using Check_updates [OF assms(1) k assms(2)] assms(3) by blast
  then have run: "http_run_check go uc (env, has_ctx) c = (ck_health res, c')"
    by (simp add: http_run_check_def Let_def assms(3))
  from http_checks_view(1) [OF assms(1,2), of go uc "[(env, has_ctx)]"]
    http_checks_view(2) [OF assms(1,2), of i go uc "[(env, has_ctx)]"] have "http_inv c'" "http_registered i c' = http_registered i c"
    by (simp_all add: http_managed.checked_def run)
  with c' http_managed.visible [OF assms(1,2) run, of now] show ?thesis by auto
qed

theorem http_checks_are_visible_witness:
  "\<exists>c'. ck_client (Check sample_go ready_urls sample_http_check (Some http_built) True) = Some c' \<and>
     http_health (Some c') (now_at 20) = ck_health (Check sample_go ready_urls sample_http_check (Some http_built) True)"
  using http_checks_are_visible [OF http_built_inv http_built_parts(1) refl,
      of sample_go ready_urls sample_http_check True 1 "now_at 20"] sample_fresh(1)
  unfolding http_built_parts(2) by blast

text \<open>C25. From the check to the snapshot: what a TCP check returned under the default sanitizers is shown
  unchanged by the registry while it is fresh, as long as the registry has nothing of its own to report.\<close>

theorem registry_shows_checks:
  assumes "tcp_inv c" "tn_enabled (tc_check c)" "tc_core c = Some k" "cl_sanitizer k = Some DefaultHealthSanitizer"
    and "tcp_Check env (Some c) has_ctx = res" "tx_client res = Some c'"
    and "fresh (tx_health res) (tn_stale_after (tc_check c)) now"
    and "rg_sanitizer r = Some DefaultHealthSanitizer" "map_of (rg_clients r) name = Some entry" "ge_synthetic entry = None"
    and "reads (gc_id (ge_client entry)) = Returned (tcp_Health now (Some c'))"
  shows "\<exists>x \<in> set (Snapshot (Some r) reads). cs_name x = name \<and> cs_health x = tx_health res"
proof -
  have "tcp_run_check (env, has_ctx) c = (tx_health res, c')" by (simp add: tcp_run_check_def Let_def assms(5,6))
  from tcp_managed.snapshot_shows [OF assms(1-4) this assms(7-10)] assms(11) show ?thesis by simp
qed

theorem registry_shows_checks_witness:
  "\<exists>r reads. \<exists>x \<in> set (Snapshot (Some r) reads). cs_name x = ''ledger'' \<and>
     cs_health x = tx_health (tcp_Check sample_tcp_check (Some tcp_built) True)"
proof -
  let ?res = "tcp_Check sample_tcp_check (Some tcp_built) True"
  let ?r = "NewRegistry\<lparr>rg_clients := [(''ledger'', sample_entry (tcp_registered 2 tcp_built) ReadinessRequired)]\<rparr>"
  obtain k where k: "tc_core tcp_built = Some k" "cl_sanitizer k = Some DefaultHealthSanitizer" using tcp_built_core by blast
  obtain c' where c': "tx_client ?res = Some c'" using tcp_Check_updates [OF tcp_built_inv k(1) tcp_built_parts(1)] by blast
  have "\<exists>x \<in> set (Snapshot (Some ?r) (\<lambda>_. Returned (tcp_Health (now_at 20) (Some c')))). cs_name x = ''ledger'' \<and>
      cs_health x = tx_health ?res"
  proof (rule registry_shows_checks [OF tcp_built_inv tcp_built_parts(1) k refl c'])
    show "fresh (tx_health ?res) (tn_stale_after (tc_check tcp_built)) (now_at 20)"
      unfolding tcp_built_parts(3) by (rule sample_fresh(2))
    show "map_of (rg_clients ?r) ''ledger'' = Some (sample_entry (tcp_registered 2 tcp_built) ReadinessRequired)" by simp
  qed (simp_all add: NewRegistry_def sample_entry_def)
  then show ?thesis by blast
qed

section \<open>Health checks and dials\<close>

text \<open>C26. An HTTP check is healthy exactly if its one execution under the check policy succeeded; its
  effects are those of that execution and the draining and closing of its response, under the deadline of
  the check, and it reads a bounded part of the response.\<close>

theorem http_check_reports_execution:
  assumes "http_inv c" "hc_core c = Some k" "cl_sanitizer k = Some DefaultHealthSanitizer" "nc_enabled (hc_check c)"
    and "NewRequest uc (Some c) True (nc_method (hc_check c)) (nc_path (hc_check c)) (NilBody, False) = Inr rq"
  shows "(h_state (ck_health (Check go uc env (Some c) True)) = HealthHealthy \<longleftrightarrow>
       r_outcome (fst (do_request go (ce_do env) (Some c) (Some rq) (check_policy c))) = OutcomeSuccess) \<and>
     ck_effects (Check go uc env (Some c) True) =
       check_scope (nc_timeout (hc_check c)) (snd (do_request go (ce_do env) (Some c) (Some rq) (check_policy c)) @
         [CheckDrained (r_response (fst (do_request go (ce_do env) (Some c) (Some rq) (check_policy c))))]) \<and>
     ck_drained (Check go uc env (Some c) True) \<le> maxDiscardedResponseBodyBytes + 1"
  using Check_state [OF assms surjective_pairing] by blast

theorem http_check_reports_execution_witness:
  "ck_drained (Check sample_go ready_urls sample_http_check (Some http_built) True) \<le> maxDiscardedResponseBodyBytes + 1"
  using http_check_reports_execution [OF http_built_inv _ _ http_built_parts(1)] http_built_core http_built_request
  by blast

text \<open>C27. A TCP check is healthy exactly if the dial gave a connection and a configured probe of it answered
  healthy before the context ended. A connection the dialer handed over is closed by the check exactly once,
  after the probe. The probe is called at most once, on an established connection; if it was called and the
  context ended before its callback was stopped, the callback closes the connection once more, and
  otherwise nothing else does.\<close>

theorem tcp_checks_connect_and_close:
  assumes "tcp_inv c" "tc_core c = Some k" "cl_sanitizer k = Some DefaultHealthSanitizer" "tn_enabled (tc_check c)"
  shows "(h_state (tx_health (tcp_Check env (Some c) True)) = HealthHealthy \<longleftrightarrow>
       tr_conn (fst (DialResult (Some c) True (kv_dial env))) \<noteq> None \<and>
       (\<forall>probe. tn_probe (tc_check c) = Some probe \<longrightarrow> probe_healthy probe env)) \<and>
     (let fx = tx_effects (tcp_Check env (Some c) True) in \<forall>i. dialer_called fx \<and> dv_conn (kv_dial env) = Some i \<longrightarrow>
       (\<exists>pre post. fx = pre @ ConnClosed i # post \<and> closes i pre = 0 \<and> closes i post = 0 \<and> probe_calls post = 0) \<and>
       probe_calls fx = of_bool (tn_probe (tc_check c) \<noteq> None \<and>
         tr_conn (fst (DialResult (Some c) True (kv_dial env))) \<noteq> None \<and>
         (kv_deadline env = None \<or> kv_set_deadline env \<noteq> Panicked)) \<and>
       cancel_closes i fx = of_bool (cancelled env) * probe_calls fx)"
proof -
  note conf = tcp_inv_configured [OF assms(1)]
  have "fst (DialResult (Some c) True (kv_dial env)) = fst (fst (dialObserved c (kv_dial env)))"
    by (simp add: DialResult_def conf split: prod.split)
  with tcp_Check_state [OF assms(1-4)] tcp_check_closes [OF conf assms(4,2)] show ?thesis by (simp add: Let_def)
qed

theorem tcp_checks_connect_and_close_witness:
  "h_state (tx_health (tcp_Check overrun_check (Some tcp_probing) True)) \<noteq> HealthHealthy \<and>
   closes 5 (tx_effects (tcp_Check overrun_check (Some tcp_probing) True)) = 1 \<and>
   cancel_closes 5 (tx_effects (tcp_Check overrun_check (Some tcp_probing) True)) = 1"
proof -
  obtain k where k: "tc_core tcp_probing = Some k" "cl_sanitizer k = Some DefaultHealthSanitizer"
    using tcp_built_core tcp_probing_parts(4) by auto
  have "tr_conn (fst (DialResult (Some tcp_probing) True (sample_dial None))) \<noteq> None"
    using tcp_dialed(2) [of tcp_probing] tcp_inv_configured [OF tcp_probing_parts(1)]
    by (auto simp: DialResult_def split: prod.split)
  with tcp_checks_connect_and_close [OF tcp_probing_parts(1) k tcp_probing_parts(2), of overrun_check]
  show ?thesis by (auto simp: tcp_probing_parts overrun_probe overrun_dials Let_def)
qed

text \<open>C28. A dialed connection has one owner: either the result carries it, open, with TLS exactly if TLS is
  enabled, or the library has closed it once; nothing else is ever closed, and the outcome, the failure
  class and the error of the result agree.\<close>

theorem dialed_connections_are_owned:
  assumes "tcp_configured c = Some cl" "DialResult c True env = (r, fx)"
  shows "tcp_result_ok r \<and>
     (\<forall>i. dialer_called fx \<and> dv_conn env = Some i \<longrightarrow> closes i fx = (if tr_conn r = None then 1 else 0)) \<and>
     (\<forall>i. 0 < closes i fx \<longrightarrow> dv_conn env = Some i) \<and>
     (\<forall>x. tr_conn r = Some x \<longrightarrow> dv_conn env = Some (raw_id x) \<and> (x = Secure (raw_id x) \<longleftrightarrow> nt_enabled (tc_tls cl)))"
proof -
  obtain m where d: "dialObserved cl env = ((r, m), fx)"
    using assms by (auto simp: DialResult_def split: prod.splits)
  have "tcp_result_ok r" using DialResult_ok(1) [OF assms(2)] assms(1) by simp
  with dialObserved_owns [OF d] show ?thesis by blast
qed

theorem dialed_connections_are_owned_witness:
  "tcp_result_ok (fst (DialResult (Some tcp_built) True (sample_dial (Some (errors_new ''handshake'')))))"
  using dialed_connections_are_owned [OF tcp_inv_configured [OF tcp_built_inv] surjective_pairing] by blast

section \<open>Construction\<close>

text \<open>C29. Every HTTP client that construction returns is well formed: valid identity, a blocking policy only
  with an enabled check, a usable base URL and origin, valid timeouts, check and retry policies, a contained
  propagator; the instrumented transport is installed exactly if neither an HTTP client nor an observer was
  given, and a given HTTP client is used as it is.\<close>

theorem http_clients_are_well_formed:
  assumes "New ext uc od cfg = Inr c"
  shows "http_inv c \<and>
     (hc_transport_injects c \<longleftrightarrow> hcfg_http_client cfg = None \<and> c_observer (hcfg_config cfg) = None) \<and>
     (\<forall>h. hcfg_http_client cfg = Some h \<longrightarrow> hc_http_client c = Some h)"
  using New_inv [OF assms] New_injects [OF assms] New_copies [OF assms] by blast

theorem http_clients_are_well_formed_witness: "http_inv http_built"
  using http_clients_are_well_formed [OF http_built] by blast

text \<open>C30. Every TCP client that construction returns is well formed: a TCP network, an address that its
  dialer can use, valid durations and check; with TLS enabled it verifies a server name unless the caller's
  own policy disables verification, and the default policy asks for TLS 1.2 at least.\<close>

theorem tcp_clients_are_well_formed:
  assumes "tcp_New ext is_ip telemetry cfg = Inr c"
  shows "tcp_inv c \<and> nt_enabled (tc_tls c) = tl_enabled (tcfg_tls cfg) \<and>
     (\<forall>p. nt_config (tc_tls c) = Some p \<and> tl_config (tcfg_tls cfg) = None \<longrightarrow>
        tp_min_version p = VersionTLS12 \<and> \<not> tp_insecure p \<and> tp_server_name p \<noteq> '''')"
proof -
  have t: "normalizeTLSConfig is_ip (tcfg_tls cfg) (tc_address c) = Inr (tc_tls c)" using assms by (rule tcp_New_parts)
  have "tp_server_name p \<noteq> ''''" if "nt_config (tc_tls c) = Some p" "tl_config (tcfg_tls cfg) = None" for p
    using normalizeTLSConfig_ok(1) [OF t] normalizeTLSConfig_name(3) [OF t that] that(1) by (auto simp: tls_inv_def split: if_splits)
  with tcp_New_inv [OF assms] normalizeTLSConfig_ok(2) [OF t] normalizeTLSConfig_name(3) [OF t] show ?thesis by blast
qed

theorem tcp_clients_are_well_formed_witness: "tcp_inv tcp_built \<and> nt_enabled (tc_tls tcp_built)"
  using tcp_clients_are_well_formed [OF tcp_built] tcp_built_parts(4) by simp

section \<open>Request policy, retries and bodies\<close>

text \<open>C31. The origin policy is exactly this: the request has the shape of an absolute HTTP request without
  user information or fragment, a host override needs the permission or the target's host, and another
  origin than the base URL's, up to case and the default port, needs the permission. A refusal is
  recognized as a policy error.\<close>

theorem origin_policy_is_exact:
  assumes "hc_base_url c = Some base"
  shows "(validateRequestOrigin ext (Some c) (Some rq) = None \<longleftrightarrow>
       (\<exists>u. request_shape_ok rq u \<and>
          (hc_allow_host_override c \<or> rq_host rq = '''' \<or> equal_fold ext (rq_host rq) (u_host u)) \<and>
          (hc_allow_cross_origin c \<or> origin ext u = origin ext base))) \<and>
     (\<forall>e. validateRequestOrigin ext (Some c) (Some rq) = Some e \<longrightarrow> isRequestPolicyError (Some e))"
  using validateRequestOrigin_iff [OF assms] validateRequestOrigin_policy [OF assms] by blast

theorem origin_policy_is_exact_witness:
  "validateRequestOrigin id (Some (sample_client\<lparr>hc_allow_cross_origin := False\<rparr>)) (Some (sample_request ''GET'')) = None"
  using origin_policy_is_exact [of "sample_client\<lparr>hc_allow_cross_origin := False\<rparr>" sample_url id "sample_request ''GET''"]
  by (auto simp: sample_client_def sample_request_def request_shape_ok_def sample_hosts)
    (simp_all add: sample_url_def new_request_ok_def http_token_byte_def)

text \<open>C32. Every request an execution makes is admitted by the origin policy of the client: what an attempt
  sends, which has the URL and the method of the caller's request, and what it then sends to follow a
  redirect. A redirect is followed only under a live context, one that replays the body only for a repeatable
  operation, and with the default redirect policy an attempt makes at most ten requests.\<close>

theorem requests_stay_within_policy:
  assumes "ExecuteWithOptions go env (Some c) request options = (r, fx)" "Send n rq \<in> set fx"
    and "follow_redirects (go_ext go) c h (eo_retry_safety options) 1 hops = (made, e)"
  shows "(\<forall>q \<in> set (rq # map hop_request made). validateRequestOrigin (go_ext go) (Some c) (Some q) = None) \<and>
     (\<exists>rq'. request = Some rq' \<and> rq_url rq = rq_url rq' \<and> rq_method rq = rq_method rq') \<and>
     (\<forall>hop \<in> set made. hop_ctx hop = None \<and> (hop_status hop \<in> {Some 307, Some 308} \<longrightarrow>
        (\<exists>a. retryAuthorizationFor (rq_method (hop_request hop)) (eo_retry_safety options) = Inr a \<and> authorization_allows a))) \<and>
     (ht_check_redirect h = None \<longrightarrow> length (rq # map hop_request made) \<le> 10)"
  using execute_sends_admitted [OF assms(1,2)] followed_hops [OF assms(3)] followed_count [OF assms(3)] by fastforce

theorem requests_stay_within_policy_witness:
  "\<exists>rq. Send 1 rq \<in> set (snd sample_execution) \<and>
     (\<forall>q \<in> set [rq, hop_request (sample_hop ''api'')]. validateRequestOrigin id (Some sample_client) (Some q) = None)"
proof -
  obtain x where "x \<in> set (snd sample_execution)" "case x of Send n _ \<Rightarrow> n = 1 | _ \<Rightarrow> False"
    using sample_first_send by (auto simp: list_ex_iff)
  then obtain rq where rq: "Send 1 rq \<in> set (snd sample_execution)" by (auto split: http_effect.split_asm)
  have "ExecuteWithOptions sample_go sample_env (Some sample_client) (Some (sample_request ''GET'')) zero_options =
      (fst sample_execution, snd sample_execution)"
    by (simp add: sample_execution_def)
  note p = requests_stay_within_policy [OF this rq, where h = DefaultHTTPClient and
      hops = "[sample_hop ''api'', sample_hop '''']"]
  have "go_ext sample_go = id" "eo_retry_safety zero_options = RetrySafetyDefault"
    by (simp_all add: sample_go_def zero_options_def)
  with p sample_redirects rq show ?thesis by auto
qed

text \<open>C33. Backoff with multiplier two and a positive base delay and maximum: after the \<open>k + 1\<close>st failed attempt
  the delay is the base delay times two to the \<open>k\<close>, cut off at the maximum, as long as these numbers are at
  most \<open>2\<^sup>5\<^sup>3\<close>, so that a float64 holds them exactly, and \<open>math.Pow\<close> is exact. Without jitter that is the wait;
  with jitter, and a random draw between zero and one, the wait differs from it by at most the jitter, as
  long as their sum is at most \<open>2\<^sup>5\<^sup>3\<close>, and stays within the maximum.\<close>

theorem backoff_doubles_exactly:
  assumes "pow (Fin 2) (Fin (of_nat k)) = Fin (2 ^ k)"
    and "rc_multiplier cfg = Fin 2" "0 < rc_backoff cfg" "rc_backoff cfg * 2 ^ k \<le> 2 ^ 53"
      "0 < rc_max_backoff cfg" "rc_max_backoff cfg \<le> 2 ^ 53" "int k \<le> 2 ^ 53"
  shows "(rc_jitter cfg \<le> 0 \<longrightarrow>
       retryDelay pow draw cfg (int k + 1) = min (rc_max_backoff cfg) (rc_backoff cfg * 2 ^ k)) \<and>
     (\<forall>d. 0 < rc_jitter cfg \<and> draw = Fin d \<and> 0 \<le> d \<and> d \<le> 1 \<and>
        min (rc_max_backoff cfg) (rc_backoff cfg * 2 ^ k) + rc_jitter cfg \<le> 2 ^ 53 \<longrightarrow>
       \<bar>retryDelay pow draw cfg (int k + 1) - min (rc_max_backoff cfg) (rc_backoff cfg * 2 ^ k)\<bar> \<le> rc_jitter cfg \<and>
       0 \<le> retryDelay pow draw cfg (int k + 1) \<and> retryDelay pow draw cfg (int k + 1) \<le> rc_max_backoff cfg)"
proof -
  have "\<not> min (rc_max_backoff cfg) (rc_backoff cfg * 2 ^ k) \<le> 0" using assms(3,5) by (simp add: not_le)
  moreover have "rc_max_backoff cfg \<le> max_duration" using assms(6) by (simp add: max_duration_def)
  ultimately show ?thesis
    using doubling_backoff [of pow k cfg] retryDelay_bounds [of cfg pow draw "int k + 1"] assms
      jittered_delay [of draw _ "min (rc_max_backoff cfg) (rc_backoff cfg * 2 ^ k)" "rc_jitter cfg" "rc_max_backoff cfg"]
    by (auto simp: retryDelay_clamp Let_def)
qed

theorem backoff_doubles_exactly_witness:
  "retryDelay (\<lambda>_ _. Fin 8) (Fin 0) (sample_retry\<lparr>rc_multiplier := Fin 2, rc_backoff := 100, rc_max_backoff := 500,
     rc_jitter := 0\<rparr>) 4 = 500 \<and>
   \<bar>retryDelay (\<lambda>_ _. Fin 8) (Fin 0) (sample_retry\<lparr>rc_multiplier := Fin 2, rc_backoff := 100, rc_max_backoff := 900,
     rc_jitter := 50\<rparr>) 4 - 800\<bar> \<le> 50"
  using backoff_doubles_exactly [of "\<lambda>_ _. Fin 8" 3 "sample_retry\<lparr>rc_multiplier := Fin 2, rc_backoff := 100,
      rc_max_backoff := 500, rc_jitter := 0\<rparr>" "Fin 0"]
    backoff_doubles_exactly [of "\<lambda>_ _. Fin 8" 3 "sample_retry\<lparr>rc_multiplier := Fin 2, rc_backoff := 100,
      rc_max_backoff := 900, rc_jitter := 50\<rparr>" "Fin 0"] by simp

text \<open>C34. A response that is not returned is closed if it has a body, and at most one byte more than the limit
  is read from it first; nothing at all is read from an upgraded connection, over HTTP/2, from a body
  announced as larger, or without a live context that has a deadline.\<close>

theorem discarded_bodies_are_bounded:
  "fst (drainAndCloseResponse ctx response reads) \<le> maxDiscardedResponseBodyBytes + 1 \<and>
   (snd (drainAndCloseResponse ctx response reads) \<longleftrightarrow> (\<exists>r. response = Some r \<and> rs_body r \<noteq> NilBody)) \<and>
   (0 < fst (drainAndCloseResponse ctx (Some r) reads) \<longrightarrow>
      rs_proto_major r = 1 \<and> 200 \<le> rs_status r \<and> rs_content_length r \<le> int maxDiscardedResponseBodyBytes \<and>
      \<not> rs_close r \<and> (\<exists>i. rs_body r = Stream i False) \<and>
      (\<exists>v d. (ctx = Some v \<or> (\<exists>rq. rs_request r = Some (rq, v))) \<and> cv_err v = None \<and> cv_deadline v = Some d))"
  using drain_bounded drain_closes drain_only [of ctx r reads] by blast

theorem discarded_bodies_are_bounded_witness:
  "fst (drainAndCloseResponse None (Some (sample_response 200)) []) = 0 \<and>
   snd (drainAndCloseResponse None (Some (sample_response 200)) [])"
  using discarded_bodies_are_bounded [of None "Some (sample_response 200)" "[]" "sample_response 200"]
  by (auto simp: sample_response_def)

text \<open>C35. The release of a returned body: nothing is released before the first read error, write error,
  close or end of the context; and however these interleave with the registration of the context callback,
  the release runs at most once and the callback is unregistered at most once. Every schedule is finite,
  every schedule that cannot go on has run the release once and unregistered the callback once, and there is
  such a schedule from every state.\<close>

theorem body_is_released_once:
  assumes "body_reachable s"
  shows "bs_completes s \<le> 1 \<and> bs_stops s \<le> 1 \<and>
     (bs_trigger s = None \<longrightarrow> bs_completes s = 0 \<and> bs_stops s = 0) \<and>
     (\<forall>n s'. (body_step ^^ n) s s' \<longrightarrow> n \<le> body_work s) \<and>
     (\<forall>s'. body_step\<^sup>*\<^sup>* s s' \<and> (\<nexists>t. body_step s' t) \<longrightarrow> bs_completes s' = 1 \<and> bs_stops s' = 1 \<and> \<not> bs_stop s') \<and>
     (\<exists>s'. body_step\<^sup>*\<^sup>* s s' \<and> bs_completes s' = 1 \<and> bs_stops s' = 1 \<and> \<not> bs_stop s')"
proof -
  note inv = body_reachable_inv [OF assms]
  have "\<forall>n s'. (body_step ^^ n) s s' \<longrightarrow> n \<le> body_work s" using lifecycle.run_length [OF _ inv] by fastforce
  with body_release_once [OF assms] body_release_called [OF assms] lifecycle.stuck_final [OF _ inv] lifecycle.completes [OF inv]
  show ?thesis unfolding body_released_def by blast
qed

theorem body_is_released_once_witness:
  "\<exists>s'. body_step\<^sup>*\<^sup>* body_start s' \<and> bs_trigger s' \<noteq> None \<and> bs_completes s' = 1 \<and> bs_stops s' = 1"
proof -
  obtain s' where s': "body_step\<^sup>*\<^sup>* body_start s'" "bs_completes s' = 1" "bs_stops s' = 1"
    using body_is_released_once [of body_start] by (auto simp: body_reachable_def)
  with body_is_released_once [of s'] show ?thesis by (auto simp: body_reachable_def)
qed

section \<open>Headers, observers and telemetry\<close>

text \<open>C36. An accepted context-header propagator does exactly what its bindings say. Their canonical names are
  distinct. Injecting returns and keeps one entry per key; every header of another name is untouched; and for
  each binding, in every spelling of its name: if an existing header is to be preserved, or the provider of
  that binding panics, has no value, or has one that is empty, beyond the limit or with a control byte,
  nothing changes; otherwise the canonical name carries exactly the provided value and no other spelling is
  left.\<close>

theorem context_headers_are_controlled:
  assumes "NewContextHeaderPropagator bindings = Inr p"
  shows "distinct (map (\<lambda>b. canonical_key (chb_header b)) bindings) \<and>
     (\<exists>es. Inject ext u p (Some h) = (Some es, Returned ()) \<and>
        (distinct (map fst h) \<longrightarrow> distinct (map fst es)) \<and>
        (\<forall>k. (\<forall>b \<in> set bindings. \<not> equal_fold ext k (chb_header b)) \<longrightarrow> map_of es k = map_of h k) \<and>
        (\<forall>b \<in> set bindings. \<forall>k. equal_fold ext k (chb_header b) \<longrightarrow> map_of es k =
           (case injected_value ext u h b of None \<Rightarrow> map_of h k
            | Some v \<Rightarrow> if k = canonical_key (chb_header b) then Some [v] else None)))"
  using context_propagator_writes [OF assms] by blast

theorem context_headers_are_controlled_witness:
  "\<exists>p es. NewContextHeaderPropagator [sample_binding] = Inr p \<and>
     Inject id sample_headers p (Some []) = (Some es, Returned ()) \<and> map_of es ''X-Id'' = Some [''abc'']"
proof -
  obtain ns where ns: "NewContextHeaderPropagator [sample_binding] = Inr (ContextHeader ns)" using sample_propagator by blast
  from context_headers_are_controlled [OF ns, of id sample_headers "[]"] obtain es where
    es: "Inject id sample_headers (ContextHeader ns) (Some []) = (Some es, Returned ())" and
    "\<forall>b \<in> set [sample_binding]. \<forall>k. equal_fold id k (chb_header b) \<longrightarrow> map_of es k =
       (case injected_value id sample_headers [] b of None \<Rightarrow> map_of [] k
        | Some v \<Rightarrow> if k = canonical_key (chb_header b) then Some [v] else None)"
    by blast
  then have "map_of es ''X-Id'' = Some [''abc'']" using sample_injected sample_name by simp
  with ns es show ?thesis by blast
qed

text \<open>C37. The observers the library installs are isolated, in all five callbacks: starting an operation, an
  attempt, a retry, a health result and ending an operation cannot panic into the client. Every
  caller-supplied observer behind them receives each event once, in order, as it was emitted, whatever the
  others did to the attributes they were given; the event itself stays as it is. A start returns the context
  the observers chained, a panicking one leaving it as it was, and an observation whose end reaches what the
  observers returned, in reverse order.\<close>

theorem observers_are_isolated:
  assumes "obs \<in> {SafeObserver x, MultiObserver xs}" "wf_memory (mem w)"
    and "private_slice (event_attributes e) (mem w)" "private_slice (os_attributes se) (mem w)"
  shows "(fst (Observe u obs e w) = Returned () \<and>
      world.log (snd (Observe u obs e w)) = world.log w @ map (\<lambda>i. (i, event_values (mem w) e)) (users obs) \<and>
      event_values (mem (snd (Observe u obs e w))) e = event_values (mem w) e) \<and>
     (let v = event_values (mem w) (StartOperationEvent se); (r, w') = StartOperation u obs ctx se w in
      world.log w' = world.log w @ map (\<lambda>i. (i, v)) (users obs) \<and>
      event_values (mem w') (StartOperationEvent se) = v \<and>
      (\<exists>ob. r = Returned (Some (fst (start_all u v (users obs) ctx (world.log w))), Some ob) \<and>
         (\<forall>ee w1. wf_memory (mem w1) \<and> private_slice (event_attributes ee) (mem w1) \<longrightarrow>
            fst (End u ob ee w1) = Returned () \<and>
            world.log (snd (End u ob ee w1)) = world.log w1 @ map (\<lambda>i. (i, event_values (mem w1) ee))
              (concat (rev (map enders (snd (start_all u v (users obs) ctx (world.log w)))))) \<and>
            event_values (mem (snd (End u ob ee w1))) ee = event_values (mem w1) ee)))"
proof -
  have obs: "contained obs" using assms(1) SafeObserver_contained MultiObserver_contained by blast
  note start = StartOperation_isolated [OF obs assms(2,4), of u ctx]
  from Observe_contained [OF obs] Observe_isolated(1,3) [OF obs assms(2,3)] start End_isolated
  show ?thesis unfolding Let_def case_prod_unfold ends_of_def by fastforce
qed

theorem observers_are_isolated_witness:
  "\<forall>u. map fst (world.log (snd (Observe u (MultiObserver [Some (UserObserver 1), None, Some (UserObserver 2)])
     sample_event sample_world))) = [1, 2] \<and>
     (\<exists>c ob. fst (StartOperation u (MultiObserver [Some (UserObserver 1), None, Some (UserObserver 2)]) (0 :: nat)
        sample_start sample_world) = Returned (Some c, Some ob))"
proof
  fix u :: "nat user_code"
  let ?obs = "MultiObserver [Some (UserObserver 1), None, Some (UserObserver 2)]"
  note isolated = observers_are_isolated [of ?obs _ "[Some (UserObserver 1), None, Some (UserObserver 2)]", OF _ sample_private sample_start_private]
  have "world.log (snd (Observe u ?obs sample_event sample_world)) =
      world.log sample_world @ map (\<lambda>i. (i, event_values (mem sample_world) sample_event)) (users ?obs)"
    and start: "\<exists>c ob. fst (StartOperation u ?obs 0 sample_start sample_world) = Returned (Some c, Some ob)"
    using isolated [of _ u 0] by (auto simp: Let_def split: prod.splits)
  then have "map fst (world.log (snd (Observe u ?obs sample_event sample_world))) = [1, 2]"
    by (simp only: sample_users sample_log) simp
  with start show "map fst (world.log (snd (Observe u ?obs sample_event sample_world))) = [1, 2] \<and>
      (\<exists>c ob. fst (StartOperation u ?obs 0 sample_start sample_world) = Returned (Some c, Some ob))" by blast
qed

text \<open>C38. The failure class of telemetry is the library's: whatever attributes the caller configured or put on
  an event, every span and metric the OpenTelemetry observer emits carries the failure class of its event,
  and none without a failure.\<close>

theorem telemetry_reports_the_failure_class:
  assumes "otel_New global_tracer global_meter create options = Inr o'"
  shows "all_emitted (class_is (ae_failure a)) (otel_ObserveAttempt (Some o') a) \<and>
     all_emitted (class_is (re_failure r)) (otel_ObserveRetry (Some o') r) \<and>
     all_emitted (class_is (he_failure h)) (otel_ObserveHealth (Some o') recording h) \<and>
     (ob_observer ob = o' \<longrightarrow> all_emitted (class_is (oe_failure e)) (fst (otel_End ob e)))"
  using callbacks_class [OF otel_New_ok [OF assms]] otel_End_class [of ob] otel_New_ok [OF assms] by blast

theorem telemetry_reports_the_failure_class_witness:
  "\<exists>o'. \<forall>a. all_emitted (class_is (ae_failure a)) (otel_ObserveAttempt (Some o') a)"
proof -
  obtain o' where "otel_New 0 0 (\<lambda>_ _. None) [] = Inr o'" using sample_otel by blast
  from telemetry_reports_the_failure_class [OF this] show ?thesis by blast
qed

text \<open>C39. Telemetry accounts for the operation: of every HTTP execution and of every TCP dial the OpenTelemetry
  observer starts and ends exactly one span, counts one operation and as many attempts as the result lists,
  counts one retry for every wait between attempts (one less than the attempts, or as many when the wait was
  cut short), and sets one status, which is Ok exactly if the operation succeeded.\<close>

theorem telemetry_accounts_for_operations:
  "(let r = fst (observed_execution op); fx = snd (observed_execution op);
        tr = otel_trace o' recording (http_lifecycle fx) None
    in spans_started tr = 1 \<and> spans_ended tr = 1 \<and> counted ''clientkit.operations'' tr = 1 \<and>
       counted ''clientkit.attempts'' tr = length (r_attempts r) \<and>
       counted ''clientkit.retries'' tr = waits_of fx \<and>
       waits_of fx \<le> length (r_attempts r) \<and> length (r_attempts r) \<le> waits_of fx + 1 \<and>
       (\<exists>st. statuses tr = [st] \<and> (st = SpanStatusOk \<longleftrightarrow> r_outcome r = OutcomeSuccess))) \<and>
   (let r = fst (fst (dialObserved c env)); fx = snd (dialObserved c env);
        tr = otel_trace o' recording (tcp_lifecycle fx) None
    in spans_started tr = 1 \<and> spans_ended tr = 1 \<and> counted ''clientkit.operations'' tr = 1 \<and>
       counted ''clientkit.attempts'' tr = 1 \<and> counted ''clientkit.retries'' tr = 0 \<and>
       (\<exists>st. statuses tr = [st] \<and> (st = SpanStatusOk \<longleftrightarrow> tr_outcome r = DialSuccess)))"
  using http_operation.otel_accounts [of o' recording op] execution_lifecycle(2,3) [OF surjective_pairing, of op]
    tcp_operation.otel_accounts [of o' recording "(c, env)"]
  by (simp add: Let_def)

text \<open>C40. Telemetry does not depend on secrets of the URL: two requests that differ in user information, query
  and fragment only are reported alike by the instrumented transport, in spans and in metrics.\<close>

theorem telemetry_redacts_urls:
  assumes "same_target a b" "rq_header a = rq_header b" "rq_body a = rq_body b"
  shows "reported (snd (fst (hotel_RoundTrip code t ctx t0 t1 env (Some a) counts))) =
     reported (snd (fst (hotel_RoundTrip code t ctx t0 t1 env (Some b) counts)))"
  using assms by (rule hotel_RoundTrip_redacts)

theorem telemetry_redacts_urls_witness:
  "\<forall>code t env. reported (snd (fst (hotel_RoundTrip code t None (now_at 0) (now_at 1) env (Some secret_request) (\<lambda>_. 0)))) =
     reported (snd (fst (hotel_RoundTrip code t None (now_at 0) (now_at 1) env (Some (sample_request ''GET'')) (\<lambda>_. 0))))"
proof (intro allI)
  fix code t env
  show "reported (snd (fst (hotel_RoundTrip code t None (now_at 0) (now_at 1) env (Some secret_request) (\<lambda>_. 0)))) =
     reported (snd (fst (hotel_RoundTrip code t None (now_at 0) (now_at 1) env (Some (sample_request ''GET'')) (\<lambda>_. 0))))"
    by (rule telemetry_redacts_urls [OF sample_targets]) (simp_all add: secret_request_def)
qed

end
